(* ===== verification/Ads_Prelude.thy ===== *)
theory Ads_Prelude
  imports Main "HOL-Library.Word"
begin

text \<open>
  Shared base of the development: the machine types, the three outcomes of a Rust function
  (a value, an \<open>Err\<close>, a panic), the cursor monad of the decoders that read from a
  \<open>&mut &[u8]\<close>, the state monad of the operations that talk to a device, little-endian
  integers as the crates \<open>byteorder\<close> and \<open>zerocopy\<close> lay them out, and slices.
\<close>

unbundle bit_operations_syntax

section \<open>Machine types\<close>

type_synonym u8 = "8 word"
type_synonym u16 = "16 word"
type_synonym u32 = "32 word"
type_synonym u64 = "64 word"

text \<open>Signed integers are words of the same width, read with \<open>sint\<close>.\<close>

type_synonym i32 = "32 word"
type_synonym i64 = "64 word"

text \<open>
  A byte buffer is a list of bytes. A Rust \<open>String\<close> or \<open>&str\<close> is kept in the form Rust
  stores it, as its UTF-8 bytes; message texts (\<open>&'static str\<close>) are HOL strings.
\<close>

type_synonym bytes = "u8 list"
type_synonym rstring = "u8 list"

definition bytes_of :: "string \<Rightarrow> bytes" where
  "bytes_of s = map of_char s"

lemma unat_lt: "unat (w :: 'a::len word) < 2 ^ LENGTH('a)"
  by (rule unsigned_less)

lemma unat_u8_lt [simp]: "unat (b :: u8) < 256"
  using unat_lt [of b] by simp

lemma unat_of_nat_lt: "n < 2 ^ LENGTH('a) \<Longrightarrow> unat (of_nat n :: 'a::len word) = n"
  by (simp add: unat_of_nat)

lemma unat_of_nat_u32 [simp]: "n < 4294967296 \<Longrightarrow> unat (of_nat n :: u32) = n"
  by (rule unat_of_nat_lt) simp

lemma unat_of_nat_u16 [simp]: "n < 65536 \<Longrightarrow> unat (of_nat n :: u16) = n"
  by (rule unat_of_nat_lt) simp

lemma unat_of_nat_u8: "unat (of_nat v :: u8) = v mod 256"
  by (simp add: unat_of_nat)

section \<open>Outcomes\<close>

text \<open>
  A call returns a value, returns an error, or panics (a failed \<open>expect\<close> or \<open>assert!\<close>, an
  index out of range, an arithmetic overflow that Rust traps).
\<close>

datatype ('a, 'e) outcome = Ok 'a | Err 'e | Panic

primrec rbind :: "('a, 'e) outcome \<Rightarrow> ('a \<Rightarrow> ('b, 'e) outcome) \<Rightarrow> ('b, 'e) outcome" where
  "rbind (Ok x) f = f x"
| "rbind (Err e) f = Err e"
| "rbind Panic f = Panic"

primrec rmap :: "('a \<Rightarrow> 'b) \<Rightarrow> ('a, 'e) outcome \<Rightarrow> ('b, 'e) outcome" where
  "rmap f (Ok x) = Ok (f x)"
| "rmap f (Err e) = Err e"
| "rmap f Panic = Panic"

definition is_ok :: "('a, 'e) outcome \<Rightarrow> bool" where
  "is_ok r = (case r of Ok _ \<Rightarrow> True | _ \<Rightarrow> False)"

lemma is_ok_simps [simp]: "is_ok (Ok x)" "\<not> is_ok (Err e)" "\<not> is_ok Panic"
  by (simp_all add: is_ok_def)

lemma is_ok_iff: "is_ok r \<longleftrightarrow> (\<exists>x. r = Ok x)"
  by (cases r) auto

lemma rbind_eq_Ok [simp]: "rbind r f = Ok y \<longleftrightarrow> (\<exists>x. r = Ok x \<and> f x = Ok y)"
  by (cases r) auto

lemma rbind_eq_Panic [simp]:
  "rbind r f = Panic \<longleftrightarrow> r = Panic \<or> (\<exists>x. r = Ok x \<and> f x = Panic)"
  by (cases r) auto

lemma rbind_eq_Err [simp]:
  "rbind r f = Err e \<longleftrightarrow> r = Err e \<or> (\<exists>x. r = Ok x \<and> f x = Err e)"
  by (cases r) auto

lemma rbind_assoc: "rbind (rbind r f) g = rbind r (\<lambda>x. rbind (f x) g)"
  by (cases r) auto

lemma rbind_Ok_right [simp]: "rbind r Ok = r"
  by (cases r) auto

lemma rbind_cong [fundef_cong]:
  "r = r' \<Longrightarrow> (\<And>x. r' = Ok x \<Longrightarrow> f x = f' x) \<Longrightarrow> rbind r f = rbind r' f'"
  by (cases r') auto

lemma rmap_eq_Ok [simp]: "rmap f r = Ok y \<longleftrightarrow> (\<exists>x. r = Ok x \<and> y = f x)"
  by (cases r) auto

lemma rmap_eq_Panic [simp]: "rmap f r = Panic \<longleftrightarrow> r = Panic"
  by (cases r) auto

section \<open>Little-endian integers\<close>

primrec le_val :: "bytes \<Rightarrow> nat" where
  "le_val [] = 0"
| "le_val (b # bs) = unat b + 256 * le_val bs"

primrec le_bytes :: "nat \<Rightarrow> nat \<Rightarrow> bytes" where
  "le_bytes 0 v = []"
| "le_bytes (Suc n) v = of_nat v # le_bytes n (v div 256)"

definition u16_le :: "u16 \<Rightarrow> bytes" where
  "u16_le w = le_bytes 2 (unat w)"

definition u32_le :: "u32 \<Rightarrow> bytes" where
  "u32_le w = le_bytes 4 (unat w)"

definition u64_le :: "u64 \<Rightarrow> bytes" where
  "u64_le w = le_bytes 8 (unat w)"

text \<open>\<open>from_le_bytes\<close> and \<open>LE::read_uNN\<close> on exactly the bytes of the integer.\<close>

definition le_u16 :: "bytes \<Rightarrow> u16" where
  "le_u16 bs = of_nat (le_val bs)"

definition le_u32 :: "bytes \<Rightarrow> u32" where
  "le_u32 bs = of_nat (le_val bs)"

definition le_u64 :: "bytes \<Rightarrow> u64" where
  "le_u64 bs = of_nat (le_val bs)"

lemma length_le_bytes [simp]: "length (le_bytes n v) = n"
  by (induction n arbitrary: v) auto

lemma le_val_le_bytes: "le_val (le_bytes n v) = v mod 256 ^ n"
proof (induction n arbitrary: v)
  case 0
  then show ?case by simp
next
  case (Suc n)
  then show ?case by (simp add: unat_of_nat_u8 mod_mult2_eq)
qed

lemma le_val_bound: "le_val bs < 256 ^ length bs"
proof (induction bs)
  case Nil
  then show ?case by simp
next
  case (Cons b bs)
  then show ?case
    using unat_u8_lt [of b] by (simp only: le_val.simps length_Cons power_Suc)
qed

lemma le_bytes_le_val [simp]: "le_bytes (length bs) (le_val bs) = bs"
proof (induction bs)
  case Nil
  then show ?case by simp
next
  case (Cons b bs)
  have b: "unat b < 256" by (rule unat_u8_lt)
  then have "(unat b + 256 * le_val bs) div 256 = le_val bs" by simp
  moreover have "(of_nat (unat b + 256 * le_val bs) :: u8) = b"
    by (rule word_unat_eq_iff [THEN iffD2]) (simp only: unat_of_nat_u8, use b in simp)
  ultimately show ?case using Cons by simp
qed

lemma length_uN_le [simp]:
  "length (u16_le w16) = 2" "length (u32_le w32) = 4" "length (u64_le w64) = 8"
  by (simp_all add: u16_le_def u32_le_def u64_le_def)

lemma le_u16_u16_le [simp]: "le_u16 (u16_le w) = w"
  using unat_lt [of w] by (simp add: le_u16_def u16_le_def le_val_le_bytes)

lemma le_u32_u32_le [simp]: "le_u32 (u32_le w) = w"
  using unat_lt [of w] by (simp add: le_u32_def u32_le_def le_val_le_bytes)

lemma le_u64_u64_le [simp]: "le_u64 (u64_le w) = w"
  using unat_lt [of w] by (simp add: le_u64_def u64_le_def le_val_le_bytes)

lemma u16_le_le_u16: "length bs = 2 \<Longrightarrow> u16_le (le_u16 bs) = bs"
  using le_val_bound [of bs] le_bytes_le_val [of bs]
  by (simp add: u16_le_def le_u16_def unat_of_nat_lt del: le_bytes_le_val)

lemma u32_le_le_u32: "length bs = 4 \<Longrightarrow> u32_le (le_u32 bs) = bs"
  using le_val_bound [of bs] le_bytes_le_val [of bs]
  by (simp add: u32_le_def le_u32_def unat_of_nat_lt del: le_bytes_le_val)

lemma u64_le_le_u64: "length bs = 8 \<Longrightarrow> u64_le (le_u64 bs) = bs"
  using le_val_bound [of bs] le_bytes_le_val [of bs]
  by (simp add: u64_le_def le_u64_def unat_of_nat_lt del: le_bytes_le_val)

section \<open>Slices\<close>

text \<open>\<open>&b[i..j]\<close> and \<open>b.split_at(n)\<close>: both panic out of range.\<close>

definition slice_of :: "'b list \<Rightarrow> nat \<Rightarrow> nat \<Rightarrow> ('b list, 'e) outcome" where
  "slice_of b i j = (if i \<le> j \<and> j \<le> length b then Ok (take (j - i) (drop i b)) else Panic)"

definition split_at :: "nat \<Rightarrow> 'b list \<Rightarrow> ('b list \<times> 'b list, 'e) outcome" where
  "split_at n b = (if n \<le> length b then Ok (take n b, drop n b) else Panic)"

lemma slice_of_eq_Ok: "slice_of b i j = Ok c \<longleftrightarrow> i \<le> j \<and> j \<le> length b \<and> c = take (j - i) (drop i b)"
  by (auto simp: slice_of_def)

lemma slice_of_from: "slice_of b i (length b) = (if i \<le> length b then Ok (drop i b) else Panic)"
  by (simp add: slice_of_def)

lemma slice_of_not_Err [simp]: "slice_of b i j \<noteq> Err e"
  by (simp add: slice_of_def)

lemma split_at_append [simp]: "split_at (length xs) (xs @ ys) = Ok (xs, ys)"
  by (simp add: split_at_def)

lemma split_at_not_Err [simp]: "split_at n b \<noteq> Err e"
  by (simp add: split_at_def)

section \<open>Decoders over a cursor\<close>

text \<open>
  A decoder takes the unread bytes and returns a value and the bytes still unread. The
  cursor of the source, a \<open>&mut &[u8]\<close>, is only looked at again after a success.
\<close>

type_synonym ('a, 'e) decoder = "bytes \<Rightarrow> ('a \<times> bytes, 'e) outcome"

definition pret :: "'a \<Rightarrow> ('a, 'e) decoder" where
  "pret x s = Ok (x, s)"

definition pfail :: "'e \<Rightarrow> ('a, 'e) decoder" where
  "pfail e s = Err e"

definition pbind :: "('a, 'e) decoder \<Rightarrow> ('a \<Rightarrow> ('b, 'e) decoder) \<Rightarrow> ('b, 'e) decoder" where
  "pbind p f s = rbind (p s) (\<lambda>(x, s'). f x s')"

text \<open>Lift an outcome that does not touch the cursor.\<close>

definition plift :: "('a, 'e) outcome \<Rightarrow> ('a, 'e) decoder" where
  "plift r s = rmap (\<lambda>x. (x, s)) r"

text \<open>\<open>for _ in 0..n { v.push(p()?) }\<close>\<close>

primrec ptimes :: "nat \<Rightarrow> ('a, 'e) decoder \<Rightarrow> ('a list, 'e) decoder" where
  "ptimes 0 p = pret []"
| "ptimes (Suc n) p = pbind p (\<lambda>x. pbind (ptimes n p) (\<lambda>xs. pret (x # xs)))"

text \<open>\<open>let (a, rest) = ptr.split_at(n); ... *ptr = rest;\<close>: run a decoder inside a frame.\<close>

definition psplit :: "nat \<Rightarrow> (bytes, 'e) decoder" where
  "psplit n s = split_at n s"

lemma pret_apply [simp]: "pret x s = Ok (x, s)"
  by (simp add: pret_def)

lemma pfail_apply [simp]: "pfail e s = Err e"
  by (simp add: pfail_def)

lemma plift_apply [simp]:
  "plift (Ok x) s = Ok (x, s)" "plift (Err e) s = Err e" "plift Panic s = Panic"
  by (simp_all add: plift_def)

lemma pbind_Ok: "p s = Ok (x, s') \<Longrightarrow> pbind p f s = f x s'"
  by (simp add: pbind_def)

lemma pbind_eq_Ok:
  "pbind p f s = Ok (y, t) \<longleftrightarrow> (\<exists>x s'. p s = Ok (x, s') \<and> f x s' = Ok (y, t))"
  by (auto simp: pbind_def)

lemma pbind_eq_Panic:
  "pbind p f s = Panic \<longleftrightarrow> p s = Panic \<or> (\<exists>x s'. p s = Ok (x, s') \<and> f x s' = Panic)"
  by (auto simp: pbind_def)

lemma psplit_append [simp]: "n = length xs \<Longrightarrow> psplit n (xs @ ys) = Ok (xs, ys)"
  by (simp add: psplit_def)

lemma ptimes_length: "ptimes n p s = Ok (xs, t) \<Longrightarrow> length xs = n"
  by (induction n arbitrary: s xs) (auto simp: pbind_eq_Ok)

section \<open>Operations on a state\<close>

text \<open>The outcome of an operation comes with the state it leaves, whatever the outcome.\<close>

type_synonym ('s, 'a, 'e) io = "'s \<Rightarrow> ('a, 'e) outcome \<times> 's"

definition iret :: "'a \<Rightarrow> ('s, 'a, 'e) io" where
  "iret x s = (Ok x, s)"

definition ilift :: "('a, 'e) outcome \<Rightarrow> ('s, 'a, 'e) io" where
  "ilift r s = (r, s)"

definition ibind :: "('s, 'a, 'e) io \<Rightarrow> ('a \<Rightarrow> ('s, 'b, 'e) io) \<Rightarrow> ('s, 'b, 'e) io" where
  "ibind m f s = (case m s of
       (Ok x, s') \<Rightarrow> f x s'
     | (Err e, s') \<Rightarrow> (Err e, s')
     | (Panic, s') \<Rightarrow> (Panic, s'))"

text \<open>\<open>unwrap\<close> on the result of an operation: the error becomes a panic.\<close>

definition unwrapped :: "('s, 'a, 'e) io \<Rightarrow> ('s, 'a, 'f) io" where
  "unwrapped m s = (case m s of (r, s') \<Rightarrow> (case r of Ok x \<Rightarrow> Ok x | _ \<Rightarrow> Panic, s'))"

text \<open>Run an operation and keep its outcome as a value, as a \<open>match\<close> on the \<open>Result\<close> does.\<close>

definition icatch :: "('s, 'a, 'e) io \<Rightarrow> (('a, 'e) outcome \<Rightarrow> ('s, 'b, 'e) io) \<Rightarrow> ('s, 'b, 'e) io" where
  "icatch m f s = (case m s of
       (Ok x, s') \<Rightarrow> f (Ok x) s'
     | (Err e, s') \<Rightarrow> f (Err e) s'
     | (Panic, s') \<Rightarrow> (Panic, s'))"

lemma iret_apply [simp]: "iret x s = (Ok x, s)"
  by (simp add: iret_def)

lemma ilift_apply [simp]: "ilift r s = (r, s)"
  by (simp add: ilift_def)

lemma ibind_Ok: "m s = (Ok x, s') \<Longrightarrow> ibind m f s = f x s'"
  by (simp add: ibind_def)

lemma ibind_Err: "m s = (Err e, s') \<Longrightarrow> ibind m f s = (Err e, s')"
  by (simp add: ibind_def)

lemma ibind_Panic: "m s = (Panic, s') \<Longrightarrow> ibind m f s = (Panic, s')"
  by (simp add: ibind_def)

lemma ibind_eq_Ok:
  "ibind m f s = (Ok y, t) \<longleftrightarrow> (\<exists>x s'. m s = (Ok x, s') \<and> f x s' = (Ok y, t))"
  by (auto simp: ibind_def split: prod.splits outcome.splits)

lemma ibindE:
  assumes "ibind m f s = (r, s')"
  obtains (Ok) x s1 where "m s = (Ok x, s1)" "f x s1 = (r, s')"
  | (Err) e where "m s = (Err e, s')" "r = Err e"
  | (Panic) "m s = (Panic, s')" "r = Panic"
  using assms by (auto simp: ibind_def split: prod.splits outcome.splits)

lemma ibind_ilift_Ok [simp]: "ibind (ilift (Ok x)) f s = f x s"
  by (simp add: ibind_def)

section \<open>Transition systems\<close>

text \<open>The contract of an invariant: it holds at the start and every step keeps it.\<close>

locale transition_system =
  fixes init :: "'s \<Rightarrow> bool" and step :: "'s \<Rightarrow> 's \<Rightarrow> bool" and inv :: "'s \<Rightarrow> bool"
  assumes inv_init: "init s \<Longrightarrow> inv s"
    and inv_step: "step s s' \<Longrightarrow> inv s \<Longrightarrow> inv s'"
begin

lemma inv_steps: "step\<^sup>*\<^sup>* s s' \<Longrightarrow> inv s \<Longrightarrow> inv s'"
  by (induction rule: rtranclp_induct) (auto intro: inv_step)

lemma inv_reachable: "init s \<Longrightarrow> step\<^sup>*\<^sup>* s s' \<Longrightarrow> inv s'"
  using inv_steps inv_init by blast

end

end
