(* ===== verification/Ads_Errors.thy ===== *)
theory Ads_Errors
  imports Ads_Prelude
begin

text \<open>
  The crate's error type (\<open>src/errors.rs\<close>), the context wrapper of I/O errors, the table of
  ADS error codes and its lookup. The lookup is the binary search of the standard library;
  it is shown to agree with a linear lookup because the table is sorted.
\<close>

section \<open>The error type\<close>

text \<open>Kinds of \<open>std::io::Error\<close> the crate names, and one for every other kind.\<close>

datatype io_kind =
    UnexpectedEof
  | TimedOut
  | InvalidData
  | InvalidInput
  | NotFound
  | OtherKind
  | OsKind nat

text \<open>An \<open>std::io::Error\<close>: its kind and, for a custom error, the message it carries.\<close>

datatype io_error = IoError (io_error_kind: io_kind) (io_error_payload: "string option")

abbreviation io_of_kind :: "io_kind \<Rightarrow> io_error" where
  "io_of_kind k \<equiv> IoError k None"

text \<open>The crate's \<open>Error\<close> enum, constructor by constructor.\<close>

datatype error =
    TaskInfoInvalidated
  | TaskInfoLayoutError string
  | Io string io_error
  | Ads string string u32
  | Reply string string u32
  | Overflow
  | IoSync string string u32
  | OtherError string

type_synonym 'a res = "('a, error) outcome"
type_synonym 'a parser = "('a, error) decoder"

text \<open>\<open>impl Clone for Error\<close>: an I/O error is rebuilt from its kind, so a payload is lost.\<close>

fun error_clone :: "error \<Rightarrow> error" where
  "error_clone TaskInfoInvalidated = TaskInfoInvalidated"
| "error_clone (TaskInfoLayoutError reason) = TaskInfoLayoutError reason"
| "error_clone (Io c e) = Io c (io_of_kind (io_error_kind e))"
| "error_clone (Ads c e i) = Ads c e i"
| "error_clone (Reply c e i) = Reply c e i"
| "error_clone Overflow = Overflow"
| "error_clone (IoSync c e i) = IoSync c e i"
| "error_clone (OtherError c) = OtherError c"

text \<open>
  \<open>Display for Error\<close>, as the attributes of the variants say. The text of an I/O error is the
  standard library's and a parameter.
\<close>

fun show_base :: "nat \<Rightarrow> nat \<Rightarrow> string" where
  "show_base b n =
     (if b < 2 \<or> n < b then [char_of (if n < 10 then 48 + n else 87 + n)]
      else show_base b (n div b) @ [char_of (let d = n mod b in if d < 10 then 48 + d else 87 + d)])"

fun error_display :: "(io_error \<Rightarrow> string) \<Rightarrow> error \<Rightarrow> string" where
  "error_display io_text TaskInfoInvalidated = ''task-info metadata was invalidated; rebuild the reader''"
| "error_display io_text (TaskInfoLayoutError reason) = ''unsupported TwinCAT task-info layout: '' @ reason"
| "error_display io_text (Io c e) = c @ '': '' @ io_text e"
| "error_display io_text (Ads c e i) = c @ '': '' @ e @ '' (0x'' @ show_base 16 (unat i) @ '')''"
| "error_display io_text (Reply c e i) = c @ '': '' @ e @ '' ('' @ show_base 10 (unat i) @ '')''"
| "error_display io_text Overflow = ''data length or duration exceeds 32 bits''"
| "error_display io_text (IoSync c e i) =
     ''failed during synchronization of an Ads request/response: '' @ c @ '' ('' @ e @ '')''"
| "error_display io_text (OtherError c) = ''an error occured: '' @ c"

declare show_base.simps [simp del]

text \<open>\<open>ErrContext::ctx\<close> on a \<open>Result\<close> with an I/O error.\<close>

primrec ctx :: "('a, io_error) outcome \<Rightarrow> string \<Rightarrow> 'a res" where
  "ctx (Ok x) c = Ok x"
| "ctx (Err e) c = Err (Io c e)"
| "ctx Panic c = Panic"

text \<open>
  Integer conversions: \<open>n.try_into()?\<close> from \<open>usize\<close> to \<open>u32\<close> (a \<open>TryFromIntError\<close>
  becomes \<open>Error::Overflow\<close>). The cast \<open>n as u32\<close>, which truncates, is \<^term>\<open>of_nat\<close>.
\<close>

definition try_u32 :: "nat \<Rightarrow> u32 res" where
  "try_u32 n = (if n < 2 ^ 32 then Ok (of_nat n) else Err Overflow)"

lemma try_u32_eq_Ok: "try_u32 n = Ok w \<longleftrightarrow> n < 4294967296 \<and> w = of_nat n"
  by (auto simp: try_u32_def)

lemma try_u32_Ok [simp]: "n < 4294967296 \<Longrightarrow> try_u32 n = Ok (of_nat n)"
  by (simp add: try_u32_def)

lemma try_u32_Err [simp]: "\<not> n < 4294967296 \<Longrightarrow> try_u32 n = Err Overflow"
  by (simp add: try_u32_def)

lemma try_u32_no_panic [simp]: "try_u32 n \<noteq> Panic"
  by (simp add: try_u32_def)

section \<open>Known ADS error codes\<close>

definition ADS_ERRORS :: "(u32 \<times> string) list" where
  "ADS_ERRORS =
    [(0x001, ''Internal error''),
     (0x002, ''No real-time''),
     (0x003, ''Allocation locked - memory error''),
     (0x004, ''Mailbox full - ADS message could not be sent''),
     (0x005, ''Wrong receive HMSG''),
     (0x006, ''Target port not found, possibly ADS server not started''),
     (0x007, ''Target machine not found, possibly missing ADS routes''),
     (0x008, ''Unknown command ID''),
     (0x009, ''Invalid task ID''),
     (0x00A, ''No IO''),
     (0x00B, ''Unknown AMS command''),
     (0x00C, ''Win32 error''),
     (0x00D, ''Port not connected''),
     (0x00E, ''Invalid AMS length''),
     (0x00F, ''Invalid AMS NetID''),
     (0x010, ''Low installation level''),
     (0x011, ''No debugging available''),
     (0x012, ''Port disabled - system service not started''),
     (0x013, ''Port already connected''),
     (0x014, ''AMS Sync Win32 error''),
     (0x015, ''AMS Sync timeout''),
     (0x016, ''AMS Sync error''),
     (0x017, ''AMS Sync no index map''),
     (0x018, ''Invalid AMS port''),
     (0x019, ''No memory''),
     (0x01A, ''TCP send error''),
     (0x01B, ''Host unreachable''),
     (0x01C, ''Invalid AMS fragment''),
     (0x01D, ''TLS send error - secure ADS connection failed''),
     (0x01E, ''Access denied - secure ADS access denied''),
     (0x500, ''Router: no locked memory''),
     (0x501, ''Router: memory size could not be changed''),
     (0x502, ''Router: mailbox full''),
     (0x503, ''Router: debug mailbox full''),
     (0x504, ''Router: port type is unknown''),
     (0x505, ''Router is not initialized''),
     (0x506, ''Router: desired port number is already assigned''),
     (0x507, ''Router: port not registered''),
     (0x508, ''Router: maximum number of ports reached''),
     (0x509, ''Router: port is invalid''),
     (0x50A, ''Router is not active''),
     (0x50B, ''Router: mailbox full for fragmented messages''),
     (0x50C, ''Router: fragment timeout occurred''),
     (0x50D, ''Router: port removed''),
     (0x700, ''General device error''),
     (0x701, ''Service is not supported by server''),
     (0x702, ''Invalid index group''),
     (0x703, ''Invalid index offset''),
     (0x704, ''Reading/writing not permitted''),
     (0x705, ''Parameter size not correct''),
     (0x706, ''Invalid parameter value(s)''),
     (0x707, ''Device is not in a ready state''),
     (0x708, ''Device is busy''),
     (0x709, ''Invalid OS context -> use multi-task data access''),
     (0x70A, ''Out of memory''),
     (0x70B, ''Invalid parameter value(s)''),
     (0x70C, ''Not found (files, ...)''),
     (0x70D, ''Syntax error in command or file''),
     (0x70E, ''Objects do not match''),
     (0x70F, ''Object already exists''),
     (0x710, ''Symbol not found''),
     (0x711, ''Symbol version invalid -> create a new handle''),
     (0x712, ''Server is in an invalid state''),
     (0x713, ''AdsTransMode not supported''),
     (0x714, ''Notification handle is invalid''),
     (0x715, ''Notification client not registered''),
     (0x716, ''No more notification handles''),
     (0x717, ''Notification size too large''),
     (0x718, ''Device not initialized''),
     (0x719, ''Device has a timeout''),
     (0x71A, ''Query interface failed''),
     (0x71B, ''Wrong interface required''),
     (0x71C, ''Class ID is invalid''),
     (0x71D, ''Object ID is invalid''),
     (0x71E, ''Request is pending''),
     (0x71F, ''Request is aborted''),
     (0x720, ''Signal warning''),
     (0x721, ''Invalid array index''),
     (0x722, ''Symbol not active -> release handle and try again''),
     (0x723, ''Access denied''),
     (0x724, ''No license found -> activate license''),
     (0x725, ''License expired''),
     (0x726, ''License exceeded''),
     (0x727, ''License invalid''),
     (0x728, ''Invalid system ID in license''),
     (0x729, ''License not time limited''),
     (0x72A, ''License issue time in the future''),
     (0x72B, ''License time period too long''),
     (0x72C, ''Exception in device specific code -> check each device''),
     (0x72D, ''License file read twice''),
     (0x72E, ''Invalid signature''),
     (0x72F, ''Invalid public key certificate''),
     (0x730, ''Public key not known from OEM''),
     (0x731, ''License not valid for this system ID''),
     (0x732, ''Demo license prohibited''),
     (0x733, ''Invalid function ID''),
     (0x734, ''Outside the valid range''),
     (0x735, ''Invalid alignment''),
     (0x736, ''Invalid platform level''),
     (0x737, ''Context - forward to passive level''),
     (0x738, ''Content - forward to dispatch level''),
     (0x739, ''Context - forward to real-time''),
     (0x740, ''General client error''),
     (0x741, ''Invalid parameter at service''),
     (0x742, ''Polling list is empty''),
     (0x743, ''Var connection already in use''),
     (0x744, ''Invoke ID in use''),
     (0x745, ''Timeout elapsed -> check route setting''),
     (0x746, ''Error in Win32 subsystem''),
     (0x747, ''Invalid client timeout value''),
     (0x748, ''ADS port not opened''),
     (0x749, ''No AMS address''),
     (0x750, ''Internal error in ADS sync''),
     (0x751, ''Hash table overflow''),
     (0x752, ''Key not found in hash''),
     (0x753, ''No more symbols in cache''),
     (0x754, ''Invalid response received''),
     (0x755, ''Sync port is locked''),
     (0x1000, ''Internal error in real-time system''),
     (0x1001, ''Timer value not valid''),
     (0x1002, ''Task pointer has invalid value 0''),
     (0x1003, ''Stack pointer has invalid value 0''),
     (0x1004, ''Requested task priority already assigned''),
     (0x1005, ''No free Task Control Block''),
     (0x1006, ''No free semaphores''),
     (0x1007, ''No free space in the queue''),
     (0x100D, ''External sync interrupt already applied''),
     (0x100E, ''No external sync interrupt applied''),
     (0x100F, ''External sync interrupt application failed''),
     (0x1010, ''Call of service function in wrong context''),
     (0x1017, ''Intel VT-x not supported''),
     (0x1018, ''Intel VT-x not enabled in BIOS''),
     (0x1019, ''Missing function in Intel VT-x''),
     (0x101A, ''Activation of Intel VT-x failed'')]"

text \<open>
  \<open>[T]::binary_search_by_key\<close> of the Rust standard library: halve the range while it has more
  than one element, then compare once. \<open>Inr i\<close> is a hit at index \<open>i\<close>, \<open>Inl i\<close> the insertion
  point.
\<close>

function bsearch_base :: "('k::linorder \<times> 'v) list \<Rightarrow> 'k \<Rightarrow> nat \<Rightarrow> nat \<Rightarrow> nat" where
  "bsearch_base t k base sz =
     (if sz > 1
      then let half = sz div 2; mid = base + half
           in bsearch_base t k (if fst (t ! mid) > k then base else mid) (sz - half)
      else base)"
  by pat_completeness auto
termination
  by (relation "measure (\<lambda>(t, k, base, sz). sz)") auto

declare bsearch_base.simps [simp del]

definition binary_search_by_key :: "('k::linorder \<times> 'v) list \<Rightarrow> 'k \<Rightarrow> nat + nat" where
  "binary_search_by_key t k =
     (if t = [] then Inl 0
      else let base = bsearch_base t k 0 (length t)
           in if fst (t ! base) = k then Inr base
              else Inl (base + (if fst (t ! base) < k then 1 else 0)))"

definition ads_error :: "string \<Rightarrow> u32 \<Rightarrow> 'a res" where
  "ads_error action err =
     (case binary_search_by_key ADS_ERRORS err of
        Inr idx \<Rightarrow> Err (Ads action (snd (ADS_ERRORS ! idx)) err)
      | Inl _ \<Rightarrow> Err (Ads action ''Unknown error code'' err))"

section \<open>The lookup finds the message of every known code\<close>

lemma bsearch_base_range:
  "0 < sz \<Longrightarrow> base \<le> bsearch_base t k base sz \<and> bsearch_base t k base sz < base + sz"
proof (induction t k base sz rule: bsearch_base.induct)
  case (1 t k base sz)
  show ?case
  proof (cases "sz > 1")
    case True
    let ?b = "if fst (t ! (base + sz div 2)) > k then base else base + sz div 2"
    have "?b \<le> bsearch_base t k ?b (sz - sz div 2) \<and>
          bsearch_base t k ?b (sz - sz div 2) < ?b + (sz - sz div 2)"
      using "1.IH" [OF True refl refl] True by simp
    then show ?thesis
      using True by (subst (1 2) bsearch_base.simps) (auto simp: Let_def split: if_splits)
  next
    case False
    with "1.prems" show ?thesis by (simp add: bsearch_base.simps [of t k base sz])
  qed
qed

lemma bsearch_base_hit:
  assumes "sorted_wrt (<) (map fst t)"
  shows "\<lbrakk> fst (t ! i) = k; base \<le> i; i < base + sz; base + sz \<le> length t \<rbrakk>
    \<Longrightarrow> bsearch_base t k base sz = i"
  using assms
proof (induction t k base sz rule: bsearch_base.induct)
  case (1 t k base sz)
  show ?case
  proof (cases "sz > 1")
    case True
    let ?mid = "base + sz div 2"
    have lt: "fst (t ! a) < fst (t ! b)" if "a < b" "b < length t" for a b
      using sorted_wrt_nth_less [OF "1.prems"(5), of a b] that by simp
    have mid: "?mid < length t" using "1.prems" True by simp
    have "k < fst (t ! ?mid) \<longleftrightarrow> i < ?mid"
    proof (cases i ?mid rule: linorder_cases)
      case less
      then show ?thesis using lt [of i ?mid] "1.prems"(1) mid by simp
    next
      case equal
      then show ?thesis using "1.prems"(1) by simp
    next
      case greater
      then show ?thesis using lt [of ?mid i] "1.prems" by (simp add: order.asym)
    qed
    with "1.IH" [OF True refl refl] "1.prems" True show ?thesis
      by (subst bsearch_base.simps) (auto simp: Let_def)
  next
    case False
    with "1.prems" show ?thesis by (simp add: bsearch_base.simps [of t k base sz])
  qed
qed

lemma binary_search_map_of:
  assumes s: "sorted_wrt (<) (map fst t)"
  shows "binary_search_by_key t k = Inr i \<Longrightarrow> map_of t k = Some (snd (t ! i))"
    and "binary_search_by_key t k = Inl i \<Longrightarrow> map_of t k = None"
proof -
  have d: "distinct (map fst t)"
    using s strict_sorted_iff by blast
  have b: "t \<noteq> [] \<Longrightarrow> bsearch_base t k 0 (length t) < length t"
    using bsearch_base_range [of "length t" 0 t k] by simp
  show "map_of t k = Some (snd (t ! i))" if "binary_search_by_key t k = Inr i"
  proof -
    have i: "i < length t" "fst (t ! i) = k"
      using that b by (auto simp: binary_search_by_key_def Let_def split: if_splits)
    then have "(k, snd (t ! i)) \<in> set t" by (metis nth_mem prod.collapse)
    with d show ?thesis by simp
  qed
  show "map_of t k = None" if r: "binary_search_by_key t k = Inl i"
  proof (rule ccontr)
    assume "map_of t k \<noteq> None"
    then obtain v where "(k, v) \<in> set t" by (meson map_of_SomeD not_None_eq)
    then obtain j where j: "j < length t" "t ! j = (k, v)" by (meson in_set_conv_nth)
    then have "bsearch_base t k 0 (length t) = j"
      using bsearch_base_hit [OF s, of j k 0 "length t"] by simp
    with r j show False by (auto simp: binary_search_by_key_def Let_def split: if_splits)
  qed
qed

lemma ADS_ERRORS_sorted: "sorted_wrt (<) (map fst ADS_ERRORS)"
  unfolding ADS_ERRORS_def list.map fst_conv
  by (simp add: sorted_wrt2 sorted_wrt1 transp_on_less del: sorted_wrt.simps(2))

lemma ads_error_map_of:
  "ads_error action err =
     Err (Ads action (case map_of ADS_ERRORS err of Some m \<Rightarrow> m | None \<Rightarrow> ''Unknown error code'') err)"
  using binary_search_map_of [OF ADS_ERRORS_sorted, of err]
  by (auto simp: ads_error_def split: sum.split)

lemma ads_error_is_Err [simp]: "ads_error action err \<noteq> Ok x" "ads_error action err \<noteq> Panic"
  by (simp_all add: ads_error_map_of)

lemma ads_error_code: "\<exists>m. ads_error action err = Err (Ads action m err)"
  by (simp add: ads_error_map_of)

section \<open>Properties\<close>

text \<open>
  C35. The lookup of an error code by binary search gives the same text as a linear search of the
  table, and the text for unknown codes where the table has no entry; the code itself is kept.
\<close>

theorem ads_error_lookup:
  "ads_error action err =
     Err (Ads action (case map_of ADS_ERRORS err of Some m \<Rightarrow> m | None \<Rightarrow> ''Unknown error code'') err)"
  by (rule ads_error_map_of)

end
