(* ===== verification/Ads_Codec.thy ===== *)
theory Ads_Codec
  imports Ads_Errors
begin

text \<open>
  Reading from a byte slice. The integer readers are \<open>ReadBytesExt\<close> on a \<open>&[u8]\<close> followed by
  \<open>.ctx(...)?\<close>. Two interfaces are stated as locales: \<open>cursor\<close>, a decoder that only moves
  forward and takes at least a fixed number of bytes, and \<open>codec\<close>, a decoder that inverts an
  encoder whatever bytes follow. Both extend from one element to counted lists, which is how
  every list of the wire formats is written.
\<close>

section \<open>Readers\<close>

definition rd_exact :: "string \<Rightarrow> nat \<Rightarrow> bytes parser" where
  "rd_exact c n s = (if n \<le> length s then Ok (take n s, drop n s)
                     else Err (Io c (io_of_kind UnexpectedEof)))"

definition rd_u8 :: "string \<Rightarrow> u8 parser" where
  "rd_u8 c = pbind (rd_exact c 1) (\<lambda>b. pret (hd b))"

definition rd_u16 :: "string \<Rightarrow> u16 parser" where
  "rd_u16 c = pbind (rd_exact c 2) (\<lambda>b. pret (le_u16 b))"

definition rd_u32 :: "string \<Rightarrow> u32 parser" where
  "rd_u32 c = pbind (rd_exact c 4) (\<lambda>b. pret (le_u32 b))"

definition rd_u64 :: "string \<Rightarrow> u64 parser" where
  "rd_u64 c = pbind (rd_exact c 8) (\<lambda>b. pret (le_u64 b))"

lemma rd_exact_append [simp]: "n = length xs \<Longrightarrow> rd_exact c n (xs @ s) = Ok (xs, s)"
  by (simp add: rd_exact_def)

lemma rd_u8_Cons [simp]: "rd_u8 c (b # s) = Ok (b, s)"
  by (simp add: rd_u8_def pbind_def rd_exact_def)

lemma rd_u16_append [simp]: "rd_u16 c (u16_le w @ s) = Ok (w, s)"
  by (simp add: rd_u16_def pbind_def)

lemma rd_u32_append [simp]: "rd_u32 c (u32_le w @ s) = Ok (w, s)"
  by (simp add: rd_u32_def pbind_def)

lemma rd_u64_append [simp]: "rd_u64 c (u64_le w @ s) = Ok (w, s)"
  by (simp add: rd_u64_def pbind_def)

lemma rd_exact_eq_Ok:
  "rd_exact c n s = Ok (b, t) \<longleftrightarrow> n \<le> length s \<and> b = take n s \<and> t = drop n s"
  by (auto simp: rd_exact_def)

lemma rd_exact_short: "length s < n \<Longrightarrow> rd_exact c n s = Err (Io c (io_of_kind UnexpectedEof))"
  by (simp add: rd_exact_def)

text \<open>What each reader does on any input: an error on a short one, never a panic.\<close>

lemma rd_u8_if: "rd_u8 c s = (if 1 \<le> length s then Ok (hd s, drop 1 s)
    else Err (Io c (io_of_kind UnexpectedEof)))"
  by (cases s) (simp_all add: rd_u8_def pbind_def rd_exact_def)

lemma rd_u16_if: "rd_u16 c s = (if 2 \<le> length s then Ok (le_u16 (take 2 s), drop 2 s)
    else Err (Io c (io_of_kind UnexpectedEof)))"
  by (simp add: rd_u16_def pbind_def rd_exact_def)

lemma rd_u32_if: "rd_u32 c s = (if 4 \<le> length s then Ok (le_u32 (take 4 s), drop 4 s)
    else Err (Io c (io_of_kind UnexpectedEof)))"
  by (simp add: rd_u32_def pbind_def rd_exact_def)

lemma rd_u64_if: "rd_u64 c s = (if 8 \<le> length s then Ok (le_u64 (take 8 s), drop 8 s)
    else Err (Io c (io_of_kind UnexpectedEof)))"
  by (simp add: rd_u64_def pbind_def rd_exact_def)

lemma rd_no_panic [simp]:
  "rd_exact c n s \<noteq> Panic" "rd_u8 c s \<noteq> Panic" "rd_u16 c s \<noteq> Panic"
  "rd_u32 c s \<noteq> Panic" "rd_u64 c s \<noteq> Panic"
  by (simp_all add: rd_exact_def rd_u8_if rd_u16_if rd_u32_if rd_u64_if)

lemmas rd_ifs = rd_u8_if rd_u16_if rd_u32_if rd_u64_if

section \<open>Decoders that only move forward\<close>

locale cursor =
  fixes dec :: "('a, 'e) decoder" and k :: nat
  assumes advance: "dec s = Ok (x, t) \<Longrightarrow> \<exists>u. s = u @ t \<and> k \<le> length u"
begin

lemma remaining: "dec s = Ok (x, t) \<Longrightarrow> length t + k \<le> length s"
  using advance by fastforce

lemma ptimes_advance: "ptimes n dec s = Ok (xs, t) \<Longrightarrow> \<exists>u. s = u @ t \<and> n * k \<le> length u"
proof (induction n arbitrary: s xs)
  case 0
  then show ?case by simp
next
  case (Suc n)
  then obtain x s' ys where x: "dec s = Ok (x, s')" and ys: "ptimes n dec s' = Ok (ys, t)"
    by (auto simp: pbind_eq_Ok)
  obtain u where "s = u @ s'" "k \<le> length u" using advance [OF x] by blast
  moreover obtain v where "s' = v @ t" "n * k \<le> length v" using Suc.IH [OF ys] by blast
  ultimately show ?case by (intro exI [of _ "u @ v"]) simp
qed

text \<open>A list with more elements than the input has room for is never returned.\<close>

lemma ptimes_bound: "ptimes n dec s = Ok (xs, t) \<Longrightarrow> length xs * k \<le> length s"
  using ptimes_advance [of n s xs t] ptimes_length [of n dec s xs t] by auto

end

section \<open>Decoders that invert an encoder\<close>

locale codec =
  fixes enc :: "'a \<Rightarrow> bytes" and dec :: "('a, 'e) decoder" and wf :: "'a \<Rightarrow> bool"
  assumes dec_enc: "wf x \<Longrightarrow> dec (enc x @ s) = Ok (x, s)"
begin

lemma dec_enc_all: "wf x \<Longrightarrow> dec (enc x) = Ok (x, [])"
  using dec_enc [of x "[]"] by simp

lemma enc_prefix_free: "wf x \<Longrightarrow> wf y \<Longrightarrow> enc x @ s = enc y @ t \<Longrightarrow> x = y \<and> s = t"
  by (metis dec_enc outcome.inject(1) prod.inject)

lemma ptimes_enc:
  "list_all wf xs \<Longrightarrow> n = length xs \<Longrightarrow> ptimes n dec (concat (map enc xs) @ s) = Ok (xs, s)"
proof (induction xs arbitrary: n)
  case Nil
  then show ?case by simp
next
  case (Cons x xs)
  then show ?case by (simp add: pbind_def dec_enc)
qed

end

text \<open>A codec whose encoding is the only one: what it accepts is what it writes.\<close>

locale canonical_codec = codec +
  fixes k :: nat
  assumes enc_dec: "dec s = Ok (x, t) \<Longrightarrow> s = enc x @ t"
    and min_len: "k \<le> length (enc x)"

sublocale canonical_codec \<subseteq> cursor dec k
  by unfold_locales (use enc_dec min_len in blast)

interpretation u8c: canonical_codec "\<lambda>b. [b]" "rd_u8 c" "\<lambda>_. True" 1 for c
proof unfold_locales
  show "s = [x] @ t" if "rd_u8 c s = Ok (x, t)" for s x t
    using that by (cases s) (auto simp: rd_u8_if split: if_splits)
qed simp_all

interpretation u16c: canonical_codec u16_le "rd_u16 c" "\<lambda>_. True" 2 for c
proof unfold_locales
  show "s = u16_le x @ t" if "rd_u16 c s = Ok (x, t)" for s x t
    using that by (auto simp: rd_u16_if u16_le_le_u16 split: if_splits)
qed simp_all

interpretation u32c: canonical_codec u32_le "rd_u32 c" "\<lambda>_. True" 4 for c
proof unfold_locales
  show "s = u32_le x @ t" if "rd_u32 c s = Ok (x, t)" for s x t
    using that by (auto simp: rd_u32_if u32_le_le_u32 split: if_splits)
qed simp_all

interpretation u64c: canonical_codec u64_le "rd_u64 c" "\<lambda>_. True" 8 for c
proof unfold_locales
  show "s = u64_le x @ t" if "rd_u64 c s = Ok (x, t)" for s x t
    using that by (auto simp: rd_u64_if u64_le_le_u64 split: if_splits)
qed simp_all

interpretation exactc: cursor "rd_exact c n" n for c n
  by unfold_locales (metis rd_exact_eq_Ok append_take_drop_id length_take min.absorb2 order_refl)

section \<open>Checkers\<close>

text \<open>
  A checker walks over a format without building a value. It accepts every encoding, and what
  it accepts is an encoding.
\<close>

locale checker =
  fixes enc :: "'a \<Rightarrow> bytes" and chk :: "(unit, 'e) decoder" and wf :: "'a \<Rightarrow> bool"
  assumes accept: "wf x \<Longrightarrow> chk (enc x @ s) = Ok ((), s)"
    and sound: "chk s = Ok ((), t) \<Longrightarrow> \<exists>x. wf x \<and> s = enc x @ t"
begin

lemma ptimes_accept:
  "list_all wf xs \<Longrightarrow> n = length xs \<Longrightarrow>
     ptimes n chk (concat (map enc xs) @ s) = Ok (replicate n (), s)"
proof (induction xs arbitrary: n)
  case Nil
  then show ?case by simp
next
  case (Cons x xs)
  then show ?case by (simp add: pbind_def accept)
qed

lemma ptimes_sound:
  "ptimes n chk s = Ok (us, t) \<Longrightarrow>
     \<exists>xs. list_all wf xs \<and> length xs = n \<and> s = concat (map enc xs) @ t"
proof (induction n arbitrary: s us)
  case 0
  then show ?case by simp
next
  case (Suc n)
  then obtain s' us' where s': "chk s = Ok ((), s')" and us': "ptimes n chk s' = Ok (us', t)"
    by (auto simp: pbind_eq_Ok)
  obtain x where "wf x" "s = enc x @ s'" using sound [OF s'] by blast
  moreover obtain xs where "list_all wf xs" "length xs = n" "s' = concat (map enc xs) @ t"
    using Suc.IH [OF us'] by blast
  ultimately show ?case by (intro exI [of _ "x # xs"]) simp
qed

end

end
