(* ===== verification/Ads_Netid.thy ===== *)
theory Ads_Netid
  imports Ads_Codec "HOL-Library.List_Lexorder"
begin

text \<open>
  AMS NetIDs and addresses (\<open>src/netid.rs\<close>): their binary form, their textual form and the
  derived order, which is the order in which the client's set of notification handles is kept.
\<close>

section \<open>Text: splitting, joining, unsigned decimals\<close>

text \<open>\<open>str::split(c)\<close> for an ASCII separator: an empty string has one (empty) part.\<close>

fun split_on :: "u8 \<Rightarrow> bytes \<Rightarrow> bytes list" where
  "split_on c [] = [[]]"
| "split_on c (b # bs) =
     (if b = c then [] # split_on c bs
      else (case split_on c bs of
              [] \<Rightarrow> [[b]]
            | part # parts \<Rightarrow> (b # part) # parts))"

fun join_with :: "u8 \<Rightarrow> bytes list \<Rightarrow> bytes" where
  "join_with c [] = []"
| "join_with c [part] = part"
| "join_with c (part # parts) = part @ c # join_with c parts"

abbreviation is_digit :: "u8 \<Rightarrow> bool" where
  "is_digit b \<equiv> 48 \<le> unat b \<and> unat b \<le> 57"

text \<open>
  \<open>str::parse\<close> to an unsigned integer with maximum \<open>mx\<close>: an optional \<open>+\<close> before at least one
  digit, decimal digits only, and an error as soon as the value passes the maximum.
\<close>

fun parse_digits :: "nat \<Rightarrow> nat \<Rightarrow> bytes \<Rightarrow> nat option" where
  "parse_digits mx acc [] = Some acc"
| "parse_digits mx acc (b # bs) =
     (if is_digit b
      then let v = acc * 10 + (unat b - 48)
           in if v \<le> mx then parse_digits mx v bs else None
      else None)"

definition parse_uint :: "nat \<Rightarrow> bytes \<Rightarrow> nat option" where
  "parse_uint mx s =
     (case s of
        [] \<Rightarrow> None
      | b # r \<Rightarrow> parse_digits mx 0 (if b = 43 \<and> r \<noteq> [] then r else s))"

text \<open>Decimal \<open>Display\<close> of an unsigned integer.\<close>

fun show_nat :: "nat \<Rightarrow> bytes" where
  "show_nat n = (if n < 10 then [of_nat (48 + n)] else show_nat (n div 10) @ [of_nat (48 + n mod 10)])"

declare show_nat.simps [simp del]

section \<open>NetIDs\<close>

datatype ams_netid = AmsNetId u8 u8 u8 u8 u8 u8

primrec netid_bytes :: "ams_netid \<Rightarrow> bytes" where
  "netid_bytes (AmsNetId a b c d e f) = [a, b, c, d, e, f]"

definition netid_local :: ams_netid where
  "netid_local = AmsNetId 127 0 0 1 1 1"

fun netid_from_slice :: "bytes \<Rightarrow> ams_netid option" where
  "netid_from_slice [a, b, c, d, e, f] = Some (AmsNetId a b c d e f)"
| "netid_from_slice _ = None"

text \<open>An IPv4 address is its four octets.\<close>

type_synonym ipv4 = "u8 \<times> u8 \<times> u8 \<times> u8"

definition netid_from_ip :: "ipv4 \<Rightarrow> u8 \<Rightarrow> u8 \<Rightarrow> ams_netid" where
  "netid_from_ip ip e f = (case ip of (a, b, c, d) \<Rightarrow> AmsNetId a b c d e f)"

definition is_zero :: "ams_netid \<Rightarrow> bool" where
  "is_zero n \<longleftrightarrow> netid_bytes n = [0, 0, 0, 0, 0, 0]"

text \<open>The loop of \<open>AmsNetId::from_str\<close>: part \<open>i\<close> goes to slot \<open>i\<close> of the array.\<close>

fun netid_fill :: "nat \<Rightarrow> bytes \<Rightarrow> bytes list \<Rightarrow> (bytes, string) outcome" where
  "netid_fill i arr [] = Ok arr"
| "netid_fill i arr (part # parts) =
     (case (if i < length arr then Some i else None, parse_uint 255 part) of
        (Some loc, Some byte) \<Rightarrow> netid_fill (i + 1) (arr[loc := of_nat byte]) parts
      | _ \<Rightarrow> Err ''invalid NetID string'')"

definition netid_from_str :: "rstring \<Rightarrow> (ams_netid, string) outcome" where
  "netid_from_str s =
     rbind (netid_fill 0 [1, 1, 1, 1, 1, 1] (split_on 46 s))
       (\<lambda>arr. case netid_from_slice arr of Some n \<Rightarrow> Ok n | None \<Rightarrow> Panic)"

definition netid_display :: "ams_netid \<Rightarrow> rstring" where
  "netid_display n = join_with 46 (map (\<lambda>b. show_nat (unat b)) (netid_bytes n))"

section \<open>Addresses\<close>

datatype ams_addr = AmsAddr (netid: ams_netid) (port: u16)

definition addr_write_to :: "ams_addr \<Rightarrow> bytes" where
  "addr_write_to a = netid_bytes (netid a) @ u16_le (port a)"

definition addr_read_from :: "string \<Rightarrow> ams_addr parser" where
  "addr_read_from c =
     pbind (rd_exact c 6) (\<lambda>nid.
     pbind (rd_u16 c) (\<lambda>prt.
     case netid_from_slice nid of Some n \<Rightarrow> pret (AmsAddr n prt) | None \<Rightarrow> plift Panic))"

definition addr_from_str :: "rstring \<Rightarrow> (ams_addr, string) outcome" where
  "addr_from_str s =
     (case split_on 58 s of
        [addr, prt] \<Rightarrow>
          rbind (netid_from_str addr) (\<lambda>n.
          case parse_uint 65535 prt of
            Some p \<Rightarrow> Ok (AmsAddr n (of_nat p))
          | None \<Rightarrow> Err ''invalid port number'')
      | _ \<Rightarrow> Err ''invalid AMS addr string'')"

definition addr_display :: "ams_addr \<Rightarrow> rstring" where
  "addr_display a = netid_display (netid a) @ 58 # show_nat (unat (port a))"

section \<open>The derived order\<close>

lemma netid_bytes_inj [simp]: "netid_bytes a = netid_bytes b \<longleftrightarrow> a = b"
  by (cases a; cases b) auto

lemma length_netid_bytes [simp]: "length (netid_bytes n) = 6"
  by (cases n) simp

instantiation ams_netid :: linorder
begin

definition less_eq_ams_netid :: "ams_netid \<Rightarrow> ams_netid \<Rightarrow> bool" where
  "less_eq_ams_netid a b \<longleftrightarrow> netid_bytes a \<le> netid_bytes b"

definition less_ams_netid :: "ams_netid \<Rightarrow> ams_netid \<Rightarrow> bool" where
  "less_ams_netid a b \<longleftrightarrow> netid_bytes a < netid_bytes b"

instance
proof
  fix a b c :: ams_netid
  show "a < b \<longleftrightarrow> a \<le> b \<and> \<not> b \<le> a"
    by (simp add: less_eq_ams_netid_def less_ams_netid_def less_le_not_le)
  show "a \<le> a" by (simp add: less_eq_ams_netid_def)
  show "a \<le> b \<Longrightarrow> b \<le> c \<Longrightarrow> a \<le> c" by (simp add: less_eq_ams_netid_def)
  show "a \<le> b \<Longrightarrow> b \<le> a \<Longrightarrow> a = b" by (simp add: less_eq_ams_netid_def flip: netid_bytes_inj)
  show "a \<le> b \<or> b \<le> a" by (auto simp: less_eq_ams_netid_def)
qed

end

instantiation ams_addr :: linorder
begin

definition less_eq_ams_addr :: "ams_addr \<Rightarrow> ams_addr \<Rightarrow> bool" where
  "less_eq_ams_addr a b \<longleftrightarrow> netid a < netid b \<or> netid a = netid b \<and> port a \<le> port b"

definition less_ams_addr :: "ams_addr \<Rightarrow> ams_addr \<Rightarrow> bool" where
  "less_ams_addr a b \<longleftrightarrow> netid a < netid b \<or> netid a = netid b \<and> port a < port b"

instance
  by standard (auto simp: less_eq_ams_addr_def less_ams_addr_def ams_addr.expand)

end

section \<open>Binary form\<close>

lemma netid_from_slice_bytes [simp]: "netid_from_slice (netid_bytes n) = Some n"
  by (cases n) simp

lemma netid_from_slice_eq_Some: "netid_from_slice s = Some n \<longleftrightarrow> s = netid_bytes n"
  by (cases n; cases s rule: netid_from_slice.cases) auto

lemma netid_from_slice_length: "length s = 6 \<Longrightarrow> \<exists>n. netid_from_slice s = Some n"
  by (cases s rule: netid_from_slice.cases) auto

lemma netid_from_slice_None: "netid_from_slice s = None \<longleftrightarrow> length s \<noteq> 6"
  by (metis netid_from_slice_eq_Some netid_from_slice_length length_netid_bytes not_Some_eq)

interpretation addrc: canonical_codec addr_write_to "addr_read_from c" "\<lambda>_. True" 8 for c
proof unfold_locales
  show "addr_read_from c (addr_write_to x @ s) = Ok (x, s)" for x s
    by (simp add: addr_read_from_def addr_write_to_def pbind_def)
  show "s = addr_write_to x @ t" if "addr_read_from c s = Ok (x, t)" for s x t
    using that u16c.enc_dec [of c]
    by (auto simp: addr_read_from_def addr_write_to_def pbind_eq_Ok rd_exact_eq_Ok plift_def
        netid_from_slice_eq_Some split: option.splits) (metis append_take_drop_id)
qed (simp add: addr_write_to_def)

section \<open>Textual form\<close>

lemma unat_digit [simp]: "d < 10 \<Longrightarrow> unat (48 + of_nat d :: u8) = 48 + d"
  using unat_of_nat_u8 [of "48 + d"] by simp

lemma show_nat_digits: "b \<in> set (show_nat n) \<Longrightarrow> is_digit b"
proof (induction n rule: show_nat.induct)
  case (1 n)
  then show ?case
    by (auto simp: show_nat.simps [of n] split: if_splits)
qed

lemma show_nat_nonempty [simp]: "show_nat n \<noteq> []"
  by (simp add: show_nat.simps)

lemma parse_digits_append:
  "parse_digits mx acc (xs @ ys) = Option.bind (parse_digits mx acc xs) (\<lambda>v. parse_digits mx v ys)"
  by (induction mx acc xs rule: parse_digits.induct) (auto simp: Let_def)

lemma parse_digits_show: "n \<le> mx \<Longrightarrow> parse_digits mx 0 (show_nat n) = Some n"
proof (induction n rule: show_nat.induct)
  case (1 n)
  show ?case
  proof (cases "n < 10")
    case True
    then show ?thesis
      using "1.prems" by (simp add: show_nat.simps [of n])
  next
    case False
    have "parse_digits mx 0 (show_nat (n div 10)) = Some (n div 10)"
      using "1.IH" [OF False] "1.prems" by simp
    then show ?thesis
      using "1.prems" False by (simp add: show_nat.simps [of n] parse_digits_append)
  qed
qed

lemma parse_uint_show [simp]: "n \<le> mx \<Longrightarrow> parse_uint mx (show_nat n) = Some n"
proof -
  assume n: "n \<le> mx"
  obtain b r where br: "show_nat n = b # r" by (cases "show_nat n") auto
  then have "b \<noteq> 43" using show_nat_digits [of b n] by auto
  then have "parse_uint mx (show_nat n) = parse_digits mx 0 (show_nat n)"
    by (simp add: parse_uint_def br)
  with parse_digits_show [OF n] show ?thesis by simp
qed

lemma split_on_append:
  "c \<notin> set p \<Longrightarrow> split_on c (p @ c # s) = p # split_on c s"
  by (induction p) auto

lemma split_on_free: "c \<notin> set p \<Longrightarrow> split_on c p = [p]"
  by (induction p) auto

lemma split_on_join:
  "parts \<noteq> [] \<Longrightarrow> list_all (\<lambda>p. c \<notin> set p) parts \<Longrightarrow> split_on c (join_with c parts) = parts"
  by (induction c parts rule: join_with.induct) (simp_all add: split_on_append split_on_free)

lemma show_nat_free: "\<not> is_digit c \<Longrightarrow> c \<notin> set (show_nat n)"
  using show_nat_digits by blast

lemma netid_fill_show:
  "i + length bs \<le> length arr \<Longrightarrow>
     netid_fill i arr (map (\<lambda>b. show_nat (unat b)) bs) = Ok (take i arr @ bs @ drop (i + length bs) arr)"
proof (induction bs arbitrary: i arr)
  case Nil
  then show ?case by simp
next
  case (Cons b bs)
  have "unat b \<le> 255" using unat_u8_lt [of b] by linarith
  moreover have "take (Suc i) (arr[i := b]) = take i arr @ [b]"
    using Cons.prems by (simp add: take_Suc_conv_app_nth)
  ultimately show ?case using Cons by simp
qed

lemma netid_fill_too_many:
  "i \<le> length arr \<Longrightarrow> length arr < i + length parts \<Longrightarrow>
     netid_fill i arr parts = Err ''invalid NetID string''"
proof (induction parts arbitrary: i arr)
  case Nil
  then show ?case by simp
next
  case (Cons p parts)
  then show ?case by (cases "i < length arr") (auto split: option.splits)
qed

text \<open>
  A dotted list of byte values is read back as the bytes it shows, padded with 1 on the
  right; more than six are refused.
\<close>

lemma netid_from_str_show:
  assumes "bs \<noteq> []"
  shows "netid_from_str (join_with 46 (map (\<lambda>b. show_nat (unat b)) bs)) =
    (if length bs \<le> 6
     then Ok (the (netid_from_slice (bs @ replicate (6 - length bs) 1)))
     else Err ''invalid NetID string'')"
proof -
  let ?parts = "map (\<lambda>b. show_nat (unat b)) bs"
  let ?ones = "[1, 1, 1, 1, 1, 1] :: bytes"
  have sp: "split_on 46 (join_with 46 ?parts) = ?parts"
    using assms by (intro split_on_join) (auto simp: list_all_iff show_nat_free)
  have ones: "drop (length bs) ?ones = replicate (6 - length bs) 1"
    using drop_replicate [of "length bs" 6 "1 :: u8"] by (simp add: numeral_eq_Suc)
  show ?thesis
  proof (cases "length bs \<le> 6")
    case True
    obtain n where "netid_from_slice (bs @ replicate (6 - length bs) 1) = Some n"
      using netid_from_slice_length [of "bs @ replicate (6 - length bs) 1"] True by auto
    with True show ?thesis
      using netid_fill_show [of 0 bs ?ones] by (simp add: netid_from_str_def sp ones)
  next
    case False
    then show ?thesis
      using netid_fill_too_many [of 0 ?ones ?parts] by (simp add: netid_from_str_def sp)
  qed
qed

lemma netid_from_str_display [simp]: "netid_from_str (netid_display n) = Ok n"
  using netid_from_str_show [of "netid_bytes n"] length_netid_bytes [of n]
  by (cases "netid_bytes n = []") (simp_all add: netid_display_def)

lemma join_with_set: "set (join_with c parts) \<subseteq> insert c (\<Union> (set ` set parts))"
  by (induction c parts rule: join_with.induct) auto

lemma addr_from_str_display [simp]: "addr_from_str (addr_display a) = Ok a"
proof -
  have "58 \<notin> set (netid_display (netid a))"
    using join_with_set [of 46 "map (\<lambda>b. show_nat (unat b)) (netid_bytes (netid a))"]
      show_nat_free [of 58] by (auto simp: netid_display_def)
  moreover have "58 \<notin> set (show_nat (unat (port a)))"
    by (rule show_nat_free) simp
  moreover have "unat (port a) \<le> 65535" using unat_lt [of "port a"] by simp
  ultimately show ?thesis
    by (simp add: addr_from_str_def addr_display_def split_on_append split_on_free)
qed

section \<open>Properties\<close>

text \<open>
  C36. Printing an AMS address and parsing the text gives the address back; so does writing it to
  the wire and reading it, whatever bytes follow.
\<close>

theorem addr_roundtrips:
  "addr_from_str (addr_display a) = Ok a \<and> addr_read_from c (addr_write_to a @ s) = Ok (a, s)"
  by (simp add: addr_from_str_display addrc.dec_enc)

end
