(* ===== verification/Ads_Wire.thy ===== *)
theory Ads_Wire
  imports Ads_Netid
begin

text \<open>
  The structures of the ADS protocol that \<open>src/client.rs\<close> puts on the wire and reads from it,
  with their byte layout (\<open>repr(C)\<close> structures of little-endian fields), and the commands.
  The native-endian field \<open>ams_cmd\<close> is laid out as on a little-endian host.
\<close>

section \<open>Commands\<close>

datatype command =
    DevInfo | Read | Write | ReadWrite | ReadState | WriteControl
  | AddNotification | DeleteNotification | Notification

primrec command_code :: "command \<Rightarrow> u16" where
  "command_code DevInfo = 1"
| "command_code Read = 2"
| "command_code Write = 3"
| "command_code ReadWrite = 9"
| "command_code ReadState = 4"
| "command_code WriteControl = 5"
| "command_code AddNotification = 6"
| "command_code DeleteNotification = 7"
| "command_code Notification = 8"

primrec action :: "command \<Rightarrow> string" where
  "action DevInfo = ''get device info''"
| "action Read = ''read data''"
| "action Write = ''write data''"
| "action ReadWrite = ''write and read data''"
| "action ReadState = ''read state''"
| "action WriteControl = ''write control''"
| "action AddNotification = ''add notification''"
| "action DeleteNotification = ''delete notification''"
| "action Notification = ''notification''"

definition AMS_TCP_HEADER_SIZE :: nat where "AMS_TCP_HEADER_SIZE = 6"
definition AMS_HEADER_SIZE :: nat where "AMS_HEADER_SIZE = 32"
definition ADS_HEADER_SIZE :: nat where "ADS_HEADER_SIZE = AMS_TCP_HEADER_SIZE + AMS_HEADER_SIZE"

lemma header_sizes [simp]:
  "AMS_TCP_HEADER_SIZE = 6" "AMS_HEADER_SIZE = 32" "ADS_HEADER_SIZE = 38"
  by (simp_all add: AMS_TCP_HEADER_SIZE_def AMS_HEADER_SIZE_def ADS_HEADER_SIZE_def)

section \<open>The AMS/TCP and AMS header\<close>

record ads_header =
  ams_cmd :: u16
  hdr_length :: u32
  dest_netid :: ams_netid
  dest_port :: u16
  src_netid :: ams_netid
  src_port :: u16
  hdr_command :: u16
  state_flags :: u16
  data_length :: u32
  error_code :: u32
  hdr_invoke_id :: u32

definition ads_header_bytes :: "ads_header \<Rightarrow> bytes" where
  "ads_header_bytes h =
     u16_le (ams_cmd h) @ u32_le (hdr_length h) @
     netid_bytes (dest_netid h) @ u16_le (dest_port h) @
     netid_bytes (src_netid h) @ u16_le (src_port h) @
     u16_le (hdr_command h) @ u16_le (state_flags h) @
     u32_le (data_length h) @ u32_le (error_code h) @ u32_le (hdr_invoke_id h)"

text \<open>\<open>AdsHeader::read_from_bytes\<close>: fails only on a slice of another size.\<close>

definition ads_header_read :: "bytes \<Rightarrow> ads_header option" where
  "ads_header_read b =
     (case (netid_from_slice (take 6 (drop 6 b)), netid_from_slice (take 6 (drop 14 b))) of
        (Some dn, Some sn) \<Rightarrow>
          if length b = ADS_HEADER_SIZE
          then Some
           \<lparr>ams_cmd = le_u16 (take 2 b),
            hdr_length = le_u32 (take 4 (drop 2 b)),
            dest_netid = dn,
            dest_port = le_u16 (take 2 (drop 12 b)),
            src_netid = sn,
            src_port = le_u16 (take 2 (drop 20 b)),
            hdr_command = le_u16 (take 2 (drop 22 b)),
            state_flags = le_u16 (take 2 (drop 24 b)),
            data_length = le_u32 (take 4 (drop 26 b)),
            error_code = le_u32 (take 4 (drop 30 b)),
            hdr_invoke_id = le_u32 (take 4 (drop 34 b))\<rparr>
          else None
      | _ \<Rightarrow> None)"

lemma length_ads_header_bytes [simp]: "length (ads_header_bytes h) = 38"
  by (simp add: ads_header_bytes_def)

lemma ads_header_read_bytes [simp]: "ads_header_read (ads_header_bytes h) = Some h"
  by (simp add: ads_header_read_def) (simp add: ads_header_bytes_def)

lemma ads_header_read_total: "length b = 38 \<Longrightarrow> \<exists>h. ads_header_read b = Some h"
  using netid_from_slice_length [of "take 6 (drop 6 b)"] netid_from_slice_length [of "take 6 (drop 14 b)"]
  by (auto simp: ads_header_read_def)

section \<open>Payload structures\<close>

record index_length =
  index_group :: u32
  index_offset :: u32
  il_length :: u32

definition index_length_bytes :: "index_length \<Rightarrow> bytes" where
  "index_length_bytes x = u32_le (index_group x) @ u32_le (index_offset x) @ u32_le (il_length x)"

record result_length =
  rl_result :: u32
  rl_length :: u32

definition result_length_bytes :: "result_length \<Rightarrow> bytes" where
  "result_length_bytes x = u32_le (rl_result x) @ u32_le (rl_length x)"

definition result_length_read :: "bytes \<Rightarrow> result_length" where
  "result_length_read b = \<lparr>rl_result = le_u32 (take 4 b), rl_length = le_u32 (take 4 (drop 4 b))\<rparr>"

definition result_length_zeroed :: result_length where
  "result_length_zeroed = \<lparr>rl_result = 0, rl_length = 0\<rparr>"

record index_length_rw =
  rw_index_group :: u32
  rw_index_offset :: u32
  rw_read_length :: u32
  rw_write_length :: u32

definition index_length_rw_bytes :: "index_length_rw \<Rightarrow> bytes" where
  "index_length_rw_bytes x =
     u32_le (rw_index_group x) @ u32_le (rw_index_offset x) @
     u32_le (rw_read_length x) @ u32_le (rw_write_length x)"

record read_state =
  rs_ads_state :: u16
  rs_dev_state :: u16

definition read_state_read :: "bytes \<Rightarrow> read_state" where
  "read_state_read b = \<lparr>rs_ads_state = le_u16 (take 2 b), rs_dev_state = le_u16 (take 2 (drop 2 b))\<rparr>"

record write_control_data =
  wc_ads_state :: u16
  wc_dev_state :: u16
  wc_data_length :: u32

definition write_control_bytes :: "write_control_data \<Rightarrow> bytes" where
  "write_control_bytes x =
     u16_le (wc_ads_state x) @ u16_le (wc_dev_state x) @ u32_le (wc_data_length x)"

record add_notif =
  an_index_group :: u32
  an_index_offset :: u32
  an_length :: u32
  an_trans_mode :: u32
  an_max_delay :: u32
  an_cycle_time :: u32
  an_reserved :: bytes

definition add_notif_bytes :: "add_notif \<Rightarrow> bytes" where
  "add_notif_bytes x =
     u32_le (an_index_group x) @ u32_le (an_index_offset x) @ u32_le (an_length x) @
     u32_le (an_trans_mode x) @ u32_le (an_max_delay x) @ u32_le (an_cycle_time x) @
     an_reserved x"

record device_info_raw =
  raw_major :: u8
  raw_minor :: u8
  raw_version :: u16
  raw_name :: bytes

definition device_info_raw_read :: "bytes \<Rightarrow> device_info_raw" where
  "device_info_raw_read b =
     \<lparr>raw_major = b ! 0, raw_minor = b ! 1, raw_version = le_u16 (take 2 (drop 2 b)),
      raw_name = take 16 (drop 4 b)\<rparr>"

text \<open>\<open>size_of\<close> of the structures that the sum-up requests count.\<close>

definition size_IndexLength :: nat where "size_IndexLength = 12"
definition size_IndexLengthRW :: nat where "size_IndexLengthRW = 16"
definition size_ResultLength :: nat where "size_ResultLength = 8"
definition size_AddNotif :: nat where "size_AddNotif = 40"
definition size_ReadState :: nat where "size_ReadState = 4"
definition size_DeviceInfoRaw :: nat where "size_DeviceInfoRaw = 20"

lemmas struct_sizes = size_IndexLength_def size_IndexLengthRW_def size_ResultLength_def
  size_AddNotif_def size_ReadState_def size_DeviceInfoRaw_def

lemma length_struct_bytes [simp]:
  "length (index_length_bytes il) = 12"
  "length (result_length_bytes rl) = 8"
  "length (index_length_rw_bytes rw) = 16"
  "length (write_control_bytes wc) = 8"
  by (simp_all add: index_length_bytes_def result_length_bytes_def index_length_rw_bytes_def
      write_control_bytes_def)

lemma length_add_notif_bytes: "length (an_reserved x) = 16 \<Longrightarrow> length (add_notif_bytes x) = 40"
  by (simp add: add_notif_bytes_def)

lemma result_length_read_bytes [simp]: "result_length_read (result_length_bytes x) = x"
  by (simp add: result_length_read_def result_length_bytes_def)

section \<open>ADS states\<close>

datatype ads_state =
    Invalid | Idle | Reset | Init | Start | Run | Stop | SaveCfg | LoadCfg | PowerFail
  | PowerGood | Error | Shutdown | Suspend | Resume | Config | Reconfig | Stopping
  | Incompatible | Exception

primrec ads_state_code :: "ads_state \<Rightarrow> u16" where
  "ads_state_code Invalid = 0"
| "ads_state_code Idle = 1"
| "ads_state_code Reset = 2"
| "ads_state_code Init = 3"
| "ads_state_code Start = 4"
| "ads_state_code Run = 5"
| "ads_state_code Stop = 6"
| "ads_state_code SaveCfg = 7"
| "ads_state_code LoadCfg = 8"
| "ads_state_code PowerFail = 9"
| "ads_state_code PowerGood = 10"
| "ads_state_code Error = 11"
| "ads_state_code Shutdown = 12"
| "ads_state_code Suspend = 13"
| "ads_state_code Resume = 14"
| "ads_state_code Config = 15"
| "ads_state_code Reconfig = 16"
| "ads_state_code Stopping = 17"
| "ads_state_code Incompatible = 18"
| "ads_state_code Exception = 19"

definition ads_state_try_from :: "u16 \<Rightarrow> (ads_state, string) outcome" where
  "ads_state_try_from v =
     (if v = 0 then Ok Invalid else if v = 1 then Ok Idle else if v = 2 then Ok Reset
      else if v = 3 then Ok Init else if v = 4 then Ok Start else if v = 5 then Ok Run
      else if v = 6 then Ok Stop else if v = 7 then Ok SaveCfg else if v = 8 then Ok LoadCfg
      else if v = 9 then Ok PowerFail else if v = 10 then Ok PowerGood
      else if v = 11 then Ok Error else if v = 12 then Ok Shutdown
      else if v = 13 then Ok Suspend else if v = 14 then Ok Resume
      else if v = 15 then Ok Config else if v = 16 then Ok Reconfig
      else if v = 17 then Ok Stopping else if v = 18 then Ok Incompatible
      else if v = 19 then Ok Exception else Err ''invalid state constant'')"

text \<open>\<open>str::to_ascii_lowercase\<close> on the UTF-8 bytes.\<close>

definition to_ascii_lowercase :: "rstring \<Rightarrow> rstring" where
  "to_ascii_lowercase s = map (\<lambda>b. if 65 \<le> unat b \<and> unat b \<le> 90 then b + 32 else b) s"

definition ads_state_from_str :: "rstring \<Rightarrow> (ads_state, string) outcome" where
  "ads_state_from_str s =
     (let l = to_ascii_lowercase s in
      if l = bytes_of ''invalid'' then Ok Invalid
      else if l = bytes_of ''idle'' then Ok Idle
      else if l = bytes_of ''reset'' then Ok Reset
      else if l = bytes_of ''init'' then Ok Init
      else if l = bytes_of ''start'' then Ok Start
      else if l = bytes_of ''run'' then Ok Run
      else if l = bytes_of ''stop'' then Ok Stop
      else if l = bytes_of ''savecfg'' then Ok SaveCfg
      else if l = bytes_of ''loadcfg'' then Ok LoadCfg
      else if l = bytes_of ''powerfail'' then Ok PowerFail
      else if l = bytes_of ''powergood'' then Ok PowerGood
      else if l = bytes_of ''error'' then Ok Error
      else if l = bytes_of ''shutdown'' then Ok Shutdown
      else if l = bytes_of ''suspend'' then Ok Suspend
      else if l = bytes_of ''resume'' then Ok Resume
      else if l = bytes_of ''config'' then Ok Config
      else if l = bytes_of ''reconfig'' then Ok Reconfig
      else if l = bytes_of ''stopping'' then Ok Stopping
      else if l = bytes_of ''incompatible'' then Ok Incompatible
      else if l = bytes_of ''exception'' then Ok Exception
      else Err ''invalid state name'')"

lemma ads_state_try_from_code [simp]: "ads_state_try_from (ads_state_code s) = Ok s"
  by (cases s) (simp_all add: ads_state_try_from_def)

lemma ads_state_try_from_eq_Ok: "ads_state_try_from v = Ok s \<longleftrightarrow> v = ads_state_code s"
proof
  show "v = ads_state_code s" if "ads_state_try_from v = Ok s"
    using that by (auto simp: ads_state_try_from_def split: if_splits)
qed simp

lemma bytes38_split:
  assumes "length b = 38"
  shows "b = take 2 b @ take 4 (drop 2 b) @ take 6 (drop 6 b) @ take 2 (drop 12 b) @ take 6 (drop 14 b) @
    take 2 (drop 20 b) @ take 2 (drop 22 b) @ take 2 (drop 24 b) @ take 4 (drop 26 b) @
    take 4 (drop 30 b) @ take 4 (drop 34 b)"
proof -
  have step: "drop k b = take n (drop k b) @ drop (k + n) b" for k n
    by (metis append_take_drop_id drop_drop add.commute)
  have "take 4 (drop 34 b) = drop 34 b" using assms by simp
  then show ?thesis
    using step [of 0 2] step [of 2 4] step [of 6 6] step [of 12 2] step [of 14 6] step [of 20 2]
      step [of 22 2] step [of 24 2] step [of 26 4] step [of 30 4] by simp
qed

lemma ads_header_bytes_read:
  assumes "ads_header_read b = Some h"
  shows "b = ads_header_bytes h"
proof -
  obtain dn sn where n: "netid_from_slice (take 6 (drop 6 b)) = Some dn"
      "netid_from_slice (take 6 (drop 14 b)) = Some sn" and len: "length b = 38"
    using assms by (auto simp: ads_header_read_def split: option.splits if_splits)
  then have m: "take 6 (drop 6 b) = netid_bytes dn" "take 6 (drop 14 b) = netid_bytes sn"
    by (simp_all add: netid_from_slice_eq_Some)
  have "h = \<lparr>ams_cmd = le_u16 (take 2 b), hdr_length = le_u32 (take 4 (drop 2 b)), dest_netid = dn,
      dest_port = le_u16 (take 2 (drop 12 b)), src_netid = sn, src_port = le_u16 (take 2 (drop 20 b)),
      hdr_command = le_u16 (take 2 (drop 22 b)), state_flags = le_u16 (take 2 (drop 24 b)),
      data_length = le_u32 (take 4 (drop 26 b)), error_code = le_u32 (take 4 (drop 30 b)),
      hdr_invoke_id = le_u32 (take 4 (drop 34 b))\<rparr>"
    using assms n len by (simp add: ads_header_read_def)
  then have "ads_header_bytes h = take 2 b @ take 4 (drop 2 b) @ take 6 (drop 6 b) @ take 2 (drop 12 b) @
    take 6 (drop 14 b) @ take 2 (drop 20 b) @ take 2 (drop 22 b) @ take 2 (drop 24 b) @ take 4 (drop 26 b) @
    take 4 (drop 30 b) @ take 4 (drop 34 b)"
    using len by (simp add: ads_header_bytes_def u16_le_le_u16 u32_le_le_u32 m)
  with bytes38_split [OF len] show ?thesis by simp
qed

section \<open>Properties\<close>

text \<open>
  The layout of the AMS header is a bijection between headers and 38-byte strings: reading
  back what was written gives the header, and what is read is exactly what would be written.
\<close>

theorem ads_header_codec:
  "ads_header_read b = Some h \<longleftrightarrow> b = ads_header_bytes h"
  using ads_header_bytes_read by auto

end
