(* ===== verification/Ads_Notif.thy ===== *)
theory Ads_Notif
  imports Ads_Wire
begin

text \<open>
  Notifications (\<open>src/notif.rs\<close>): the validation in \<open>Notification::new\<close> and the iterator over
  the samples. The iterator unwraps every read; the lemmas show that on a validated
  notification these unwraps never fail and that the iterator returns exactly the samples of
  the message.
\<close>

section \<open>Attributes\<close>

text \<open>A \<open>Duration\<close> is its number of nanoseconds; \<open>as_millis\<close> rounds down.\<close>

type_synonym duration = nat

definition as_millis :: "duration \<Rightarrow> nat" where
  "as_millis d = d div 1000000"

type_synonym handle = u32

datatype transmission_mode = NoTrans | ServerCycle | ServerOnChange

primrec transmission_mode_code :: "transmission_mode \<Rightarrow> u32" where
  "transmission_mode_code NoTrans = 0"
| "transmission_mode_code ServerCycle = 3"
| "transmission_mode_code ServerOnChange = 4"

record attributes =
  at_length :: nat
  at_trans_mode :: transmission_mode
  at_max_delay :: duration
  at_cycle_time :: duration

section \<open>Messages\<close>

record notification =
  n_data :: bytes
  nstamps :: u32

abbreviation notif_ctx :: string where
  "notif_ctx \<equiv> ''parsing notification''"

abbreviation notif_eof :: error where
  "notif_eof \<equiv> Io notif_ctx (io_of_kind UnexpectedEof)"

text \<open>The body of the inner loop of \<open>Notification::new\<close>: one sample.\<close>

definition skip_sample :: "unit parser" where
  "skip_sample =
     pbind (rd_u32 notif_ctx) (\<lambda>_.
     pbind (rd_u32 notif_ctx) (\<lambda>len ptr.
       if length ptr \<ge> unat len then Ok ((), drop (unat len) ptr) else Err notif_eof))"

text \<open>The body of the outer loop: one stamp.\<close>

definition skip_stamp :: "unit parser" where
  "skip_stamp =
     pbind (rd_u64 notif_ctx) (\<lambda>_.
     pbind (rd_u32 notif_ctx) (\<lambda>nsamples.
     pbind (ptimes (unat nsamples) skip_sample) (\<lambda>_. pret ())))"

definition notification_new :: "bytes \<Rightarrow> notification res" where
  "notification_new data =
     (if length data < ADS_HEADER_SIZE + 8 then Err notif_eof
      else rbind (pbind (rd_u32 notif_ctx) (\<lambda>n.
                  pbind (ptimes (unat n) skip_stamp) (\<lambda>_. pret n)) (drop (ADS_HEADER_SIZE + 4) data))
             (\<lambda>(n, ptr). if ptr = [] then Ok \<lparr>n_data = data, nstamps = n\<rparr> else Err notif_eof))"

section \<open>The sample iterator\<close>

record sample =
  s_handle :: handle
  s_timestamp :: u64
  s_data :: bytes

record sample_iter =
  it_data :: bytes
  cur_timestamp :: u64
  stamps_left :: u32
  samples_left :: u32

text \<open>\<open>read_u32().expect("size")\<close>: a short read panics.\<close>

definition expect_size :: "'a parser \<Rightarrow> 'a parser" where
  "expect_size p s = (case p s of Ok r \<Rightarrow> Ok r | _ \<Rightarrow> Panic)"

definition notification_samples :: "notification \<Rightarrow> sample_iter res" where
  "notification_samples n =
     rbind (slice_of (n_data n) 46 (length (n_data n))) (\<lambda>d.
     Ok \<lparr>it_data = d, cur_timestamp = 0, stamps_left = nstamps n, samples_left = 0\<rparr>)"

text \<open>The branch of \<open>next\<close> that reads a sample of the current stamp.\<close>

definition iter_sample :: "sample_iter \<Rightarrow> (sample option \<times> sample_iter) res" where
  "iter_sample it =
     rbind (pbind (expect_size (rd_u32 notif_ctx)) (\<lambda>h.
            pbind (expect_size (rd_u32 notif_ctx)) (\<lambda>len.
            pbind (psplit (unat len)) (\<lambda>d. pret (h, d)))) (it_data it))
       (\<lambda>((h, d), rest).
          Ok (Some \<lparr>s_handle = h, s_timestamp = cur_timestamp it, s_data = d\<rparr>,
              it\<lparr>it_data := rest, samples_left := samples_left it - 1\<rparr>))"

text \<open>The branch that goes to the next stamp, before the recursive call.\<close>

definition iter_stamp :: "sample_iter \<Rightarrow> sample_iter res" where
  "iter_stamp it =
     rbind (pbind (expect_size (rd_u64 notif_ctx)) (\<lambda>t.
            pbind (expect_size (rd_u32 notif_ctx)) (\<lambda>n. pret (t, n))) (it_data it))
       (\<lambda>((t, n), rest).
          Ok (it\<lparr>it_data := rest, cur_timestamp := t, samples_left := n,
                 stamps_left := stamps_left it - 1\<rparr>))"

lemma unat_dec: "0 < w \<Longrightarrow> unat (w - 1) = unat w - 1" for w :: u32
  by (metis unat_eq_zero unat_minus_one word_neq_0_conv)

lemma unat_dec_less: "0 < w \<Longrightarrow> unat (w - 1) < unat w" for w :: u32
  using unat_dec [of w] by (metis diff_less unat_eq_zero less_numeral_extra(1) neq0_conv word_neq_0_conv)

lemma iter_stamp_left: "iter_stamp it = Ok it' \<Longrightarrow> stamps_left it' = stamps_left it - 1"
  by (auto simp: iter_stamp_def)

function iter_next :: "sample_iter \<Rightarrow> (sample option \<times> sample_iter) res" where
  "iter_next it =
     (if samples_left it > 0 then iter_sample it
      else if stamps_left it > 0 then rbind (iter_stamp it) iter_next
      else Ok (None, it))"
  by pat_completeness auto
termination
  by (relation "measure (\<lambda>it. unat (stamps_left it))") (auto dest!: iter_stamp_left simp: unat_dec_less)

declare iter_next.simps [simp del]

lemma expect_size_eq_Ok: "expect_size p s = Ok r \<longleftrightarrow> p s = Ok r"
  by (simp add: expect_size_def split: outcome.split)

lemma iter_sample_progress:
  "iter_sample it = Ok (r, it') \<Longrightarrow> length (it_data it') < length (it_data it)"
  by (fastforce simp: iter_sample_def pbind_eq_Ok expect_size_eq_Ok psplit_def split_at_def
      dest!: u32c.remaining split: if_splits)

lemma iter_stamp_progress: "iter_stamp it = Ok it' \<Longrightarrow> length (it_data it') < length (it_data it)"
  by (fastforce simp: iter_stamp_def pbind_eq_Ok expect_size_eq_Ok
      dest!: u32c.remaining u64c.remaining)

lemma iter_next_progress:
  "iter_next it = Ok (Some s, it') \<Longrightarrow> length (it_data it') < length (it_data it)"
proof (induction it rule: iter_next.induct)
  case (1 it)
  show ?case
  proof (cases "samples_left it > 0")
    case True
    with "1.prems" show ?thesis by (simp add: iter_next.simps [of it] iter_sample_progress)
  next
    case False
    with "1.prems" obtain it'' where st: "0 < stamps_left it" "iter_stamp it = Ok it''"
      and rest: "iter_next it'' = Ok (Some s, it')"
      by (auto simp: iter_next.simps [of it] split: if_splits)
    show ?thesis
      using "1.IH" [OF False st(1) st(2) rest] iter_stamp_progress [OF st(2)] by simp
  qed
qed

text \<open>What a client that drains the iterator sees: \<open>notif.samples().collect()\<close>.\<close>

function samples_collect :: "sample_iter \<Rightarrow> sample list res" where
  "samples_collect it =
     rbind (iter_next it) (\<lambda>(s, it').
       case s of None \<Rightarrow> Ok [] | Some x \<Rightarrow> rmap (Cons x) (samples_collect it'))"
  by pat_completeness auto
termination
  by (relation "measure (\<lambda>it. length (it_data it))") (auto dest: iter_next_progress)

declare samples_collect.simps [simp del]

section \<open>The message format\<close>

text \<open>
  The specification: a message is a list of stamps, a stamp a time and a list of samples, a
  sample a handle and its data.
\<close>

type_synonym raw_sample = "handle \<times> bytes"
type_synonym raw_stamp = "u64 \<times> raw_sample list"

fun enc_sample :: "raw_sample \<Rightarrow> bytes" where
  "enc_sample (h, d) = u32_le h @ u32_le (of_nat (length d)) @ d"

fun wf_sample :: "raw_sample \<Rightarrow> bool" where
  "wf_sample (h, d) \<longleftrightarrow> length d < 4294967296"

fun enc_stamp :: "raw_stamp \<Rightarrow> bytes" where
  "enc_stamp (t, ss) = u64_le t @ u32_le (of_nat (length ss)) @ concat (map enc_sample ss)"

fun wf_stamp :: "raw_stamp \<Rightarrow> bool" where
  "wf_stamp (t, ss) \<longleftrightarrow> length ss < 4294967296 \<and> list_all wf_sample ss"

fun stamp_samples :: "raw_stamp \<Rightarrow> sample list" where
  "stamp_samples (t, ss) = map (\<lambda>(h, d). \<lparr>s_handle = h, s_timestamp = t, s_data = d\<rparr>) ss"

definition samples_of :: "raw_stamp list \<Rightarrow> sample list" where
  "samples_of sts = concat (map stamp_samples sts)"

interpretation samplec: checker enc_sample skip_sample wf_sample
proof unfold_locales
  show "skip_sample (enc_sample x @ s) = Ok ((), s)" if "wf_sample x" for x s
    using that by (cases x) (simp add: skip_sample_def pbind_def)
next
  fix s t
  assume "skip_sample s = Ok ((), t)"
  then obtain h s1 n s2 where h: "rd_u32 notif_ctx s = Ok (h, s1)"
    and n: "rd_u32 notif_ctx s1 = Ok (n, s2)" and len: "unat n \<le> length s2" "t = drop (unat n) s2"
    by (auto simp: skip_sample_def pbind_eq_Ok split: if_splits)
  from u32c.enc_dec [OF h] u32c.enc_dec [OF n] len
  have "s = enc_sample (h, take (unat n) s2) @ t \<and> wf_sample (h, take (unat n) s2)"
    using unat_lt [of n] by simp
  then show "\<exists>x. wf_sample x \<and> s = enc_sample x @ t" by blast
qed

interpretation stampc: checker enc_stamp skip_stamp wf_stamp
proof unfold_locales
  show "skip_stamp (enc_stamp x @ s) = Ok ((), s)" if "wf_stamp x" for x s
    using that by (cases x) (simp add: skip_stamp_def pbind_def samplec.ptimes_accept)
next
  fix s t
  assume "skip_stamp s = Ok ((), t)"
  then obtain tm s1 n s2 us where tm: "rd_u64 notif_ctx s = Ok (tm, s1)"
    and n: "rd_u32 notif_ctx s1 = Ok (n, s2)" and us: "ptimes (unat n) skip_sample s2 = Ok (us, t)"
    by (auto simp: skip_stamp_def pbind_eq_Ok)
  obtain ss where ss: "list_all wf_sample ss" "length ss = unat n" "s2 = concat (map enc_sample ss) @ t"
    using samplec.ptimes_sound [OF us] by blast
  from u64c.enc_dec [OF tm] u32c.enc_dec [OF n] ss
  have "s = enc_stamp (tm, ss) @ t \<and> wf_stamp (tm, ss)"
    using unat_lt [of n] by simp
  then show "\<exists>x. wf_stamp x \<and> s = enc_stamp x @ t" by blast
qed

lemma iter_sample_enc:
  assumes "it_data it = enc_sample (h, d) @ rest" and "length d < 4294967296"
  shows "iter_sample it = Ok (Some \<lparr>s_handle = h, s_timestamp = cur_timestamp it, s_data = d\<rparr>,
    it\<lparr>it_data := rest, samples_left := samples_left it - 1\<rparr>)"
  using assms by (simp add: iter_sample_def pbind_def expect_size_def)

lemma iter_stamp_enc:
  assumes "it_data it = u64_le t @ u32_le n @ rest"
  shows "iter_stamp it = Ok (it\<lparr>it_data := rest, cur_timestamp := t, samples_left := n,
    stamps_left := stamps_left it - 1\<rparr>)"
  using assms by (simp add: iter_stamp_def pbind_def expect_size_def)

text \<open>Draining the iterator from any point: the rest of the current stamp, then the others.\<close>

lemma samples_collect_enc:
  assumes "list_all wf_sample ss" and "list_all wf_stamp sts"
    and "it_data it = concat (map enc_sample ss) @ concat (map enc_stamp sts)"
    and "unat (samples_left it) = length ss" and "unat (stamps_left it) = length sts"
  shows "samples_collect it = Ok (stamp_samples (cur_timestamp it, ss) @ samples_of sts)"
  using assms
proof (induction "length (it_data it)" arbitrary: it ss sts rule: less_induct)
  case less
  show ?case
  proof (cases ss)
    case (Cons s ss')
    obtain h d where s: "s = (h, d)" by fastforce
    have pos: "0 < samples_left it" using less.prems(4) Cons by (simp add: word_gt_0 flip: unat_eq_0)
    let ?it' = "it\<lparr>it_data := concat (map enc_sample ss') @ concat (map enc_stamp sts),
      samples_left := samples_left it - 1\<rparr>"
    have step: "iter_sample it =
        Ok (Some \<lparr>s_handle = h, s_timestamp = cur_timestamp it, s_data = d\<rparr>, ?it')"
      by (rule iter_sample_enc) (use less.prems Cons s in auto)
    have "samples_collect ?it' = Ok (stamp_samples (cur_timestamp ?it', ss') @ samples_of sts)"
      by (rule less.hyps) (use less.prems Cons s pos in \<open>auto simp: unat_dec\<close>)
    with step pos show ?thesis
      by (simp add: samples_collect.simps [of it] iter_next.simps [of it] Cons s)
  next
    case Nil
    then have none: "\<not> 0 < samples_left it" using less.prems(4) by (simp add: word_gt_0 unat_eq_0)
    show ?thesis
    proof (cases sts)
      case Nil
      then have "\<not> 0 < stamps_left it" using less.prems(5) by (simp add: word_gt_0 unat_eq_0)
      with none show ?thesis
        by (simp add: samples_collect.simps [of it] iter_next.simps [of it] \<open>ss = []\<close> Nil samples_of_def)
    next
      case (Cons st sts')
      obtain t ss' where st: "st = (t, ss')" by fastforce
      have pos: "0 < stamps_left it" using less.prems(5) Cons by (simp add: word_gt_0 flip: unat_eq_0)
      let ?it' = "it\<lparr>it_data := concat (map enc_sample ss') @ concat (map enc_stamp sts'),
        cur_timestamp := t, samples_left := of_nat (length ss'), stamps_left := stamps_left it - 1\<rparr>"
      have step: "iter_stamp it = Ok ?it'"
        by (rule iter_stamp_enc) (use less.prems \<open>ss = []\<close> Cons st in auto)
      have "samples_collect ?it' = Ok (stamp_samples (cur_timestamp ?it', ss') @ samples_of sts')"
        by (rule less.hyps) (use less.prems \<open>ss = []\<close> Cons st pos in \<open>auto simp: unat_dec\<close>)
      moreover have "samples_collect it = samples_collect ?it'"
        using step pos none
        by (simp add: samples_collect.simps [of it] samples_collect.simps [of ?it'] iter_next.simps [of it])
      ultimately show ?thesis by (simp add: \<open>ss = []\<close> Cons st samples_of_def)
    qed
  qed
qed

lemma notification_new_eq_Ok:
  "notification_new data = Ok n \<longleftrightarrow>
     (\<exists>sts. list_all wf_stamp sts \<and> length sts = unat (nstamps n) \<and> n_data n = data \<and>
        46 \<le> length data \<and>
        drop 42 data = u32_le (nstamps n) @ concat (map enc_stamp sts))" (is "_ \<longleftrightarrow> ?R")
proof
  assume "notification_new data = Ok n"
  then obtain k s1 us where len: "46 \<le> length data" and k: "rd_u32 notif_ctx (drop 42 data) = Ok (k, s1)"
    and us: "ptimes (unat k) skip_stamp s1 = Ok (us, [])" and n: "n = \<lparr>n_data = data, nstamps = k\<rparr>"
    by (auto simp: notification_new_def pbind_eq_Ok header_sizes split: if_splits)
  obtain sts where "list_all wf_stamp sts" "length sts = unat k" "s1 = concat (map enc_stamp sts)"
    using stampc.ptimes_sound [OF us] by auto
  with u32c.enc_dec [OF k] n len show ?R by auto
next
  assume ?R
  then obtain sts where sts: "list_all wf_stamp sts" "length sts = unat (nstamps n)" "n_data n = data"
    "46 \<le> length data" "drop 42 data = u32_le (nstamps n) @ concat (map enc_stamp sts)" by blast
  have "ptimes (unat (nstamps n)) skip_stamp (concat (map enc_stamp sts)) =
      Ok (replicate (unat (nstamps n)) (), [])"
    using stampc.ptimes_accept [of sts "unat (nstamps n)" "[]"] sts by simp
  with sts show "notification_new data = Ok n"
    by (simp add: notification_new_def pbind_def header_sizes)
qed

lemma notification_new_enc:
  assumes "list_all wf_stamp sts" and "length hdr = 42" and "length sts < 4294967296"
  shows "notification_new (hdr @ u32_le (of_nat (length sts)) @ concat (map enc_stamp sts)) =
    Ok \<lparr>n_data = hdr @ u32_le (of_nat (length sts)) @ concat (map enc_stamp sts),
        nstamps = of_nat (length sts)\<rparr>"
  using assms by (auto simp: notification_new_eq_Ok intro!: exI [of _ sts])

lemma notification_collect:
  assumes "list_all wf_stamp sts" and "length sts = unat (nstamps n)"
    and "46 \<le> length (n_data n)" and "drop 46 (n_data n) = concat (map enc_stamp sts)"
  shows "rbind (notification_samples n) samples_collect = Ok (samples_of sts)"
  using assms samples_collect_enc [of "[]" sts "\<lparr>it_data = concat (map enc_stamp sts),
      cur_timestamp = 0, stamps_left = nstamps n, samples_left = 0\<rparr>"]
  by (simp add: notification_samples_def slice_of_from)

lemma notification_new_no_panic: "notification_new data \<noteq> Panic"
proof -
  have "skip_sample s \<noteq> Panic" for s
    by (simp add: skip_sample_def pbind_eq_Panic)
  then have ns: "ptimes k skip_sample s \<noteq> Panic" for k s
    by (induction k arbitrary: s) (simp_all add: pbind_eq_Panic)
  then have "skip_stamp s \<noteq> Panic" for s
    by (simp add: skip_stamp_def pbind_eq_Panic)
  then have "ptimes k skip_stamp s \<noteq> Panic" for k s
    by (induction k arbitrary: s) (simp_all add: pbind_eq_Panic)
  then show ?thesis
    by (auto simp: notification_new_def pbind_eq_Panic)
qed

section \<open>Properties\<close>

text \<open>
  C7. A message that \<open>Notification::new\<close> accepts is the encoding of a list of stamps, and
  draining its iterator returns exactly the samples of these stamps, in order, each with the
  time of its stamp; none of the \<open>expect\<close> and \<open>split_at\<close> calls of the iterator fails.
\<close>

theorem notification_samples_exact:
  assumes "notification_new data = Ok n"
  shows "\<exists>sts. list_all wf_stamp sts \<and> length sts = unat (nstamps n) \<and>
    drop 46 data = concat (map enc_stamp sts) \<and>
    rbind (notification_samples n) samples_collect = Ok (samples_of sts)"
proof -
  from assms obtain sts where sts: "list_all wf_stamp sts" "length sts = unat (nstamps n)"
    "n_data n = data" "46 \<le> length data" "drop 42 data = u32_le (nstamps n) @ concat (map enc_stamp sts)"
    by (auto simp: notification_new_eq_Ok)
  have "drop 46 data = drop 4 (drop 42 data)" by simp
  also have "\<dots> = concat (map enc_stamp sts)" by (simp add: sts(5))
  finally have d: "drop 46 data = concat (map enc_stamp sts)" .
  with sts show ?thesis by (intro exI [of _ sts]) (simp add: notification_collect)
qed

theorem notification_samples_exact_witness:
  "\<exists>sts. list_all wf_stamp sts \<and> length sts = 1 \<and>
    drop 46 (replicate 42 0 @ u32_le 1 @ enc_stamp (7, [(3, [5, 6])])) = concat (map enc_stamp sts) \<and>
    rbind (notification_samples
        \<lparr>n_data = replicate 42 0 @ u32_le 1 @ enc_stamp (7, [(3, [5, 6])]), nstamps = 1\<rparr>)
      samples_collect = Ok (samples_of sts)"
  using notification_samples_exact [of "replicate 42 0 @ u32_le 1 @ enc_stamp (7, [(3, [5, 6])])"
      "\<lparr>n_data = replicate 42 0 @ u32_le 1 @ enc_stamp (7, [(3, [5, 6])]), nstamps = 1\<rparr>"]
    notification_new_enc [of "[(7, [(3, [5, 6])])]" "replicate 42 0"]
  by simp

text \<open>
  Every well-formed message is accepted: for any list of stamps that fits the 32-bit
  counters, building the message and parsing it gives back the samples.
\<close>

theorem notification_roundtrip:
  assumes "list_all wf_stamp sts" and "length sts < 2 ^ 32" and "length hdr = 42"
  shows "rbind (notification_new (hdr @ u32_le (of_nat (length sts)) @ concat (map enc_stamp sts)))
      (\<lambda>n. rbind (notification_samples n) samples_collect) = Ok (samples_of sts)"
  using assms by (simp add: notification_new_enc notification_collect)

theorem notification_roundtrip_witness:
  "rbind (notification_new (replicate 42 0 @ u32_le (of_nat (length ([(7, [(3, [5, 6])]), (8, [])] :: raw_stamp list))) @
      concat (map enc_stamp [(7, [(3, [5, 6])]), (8, [])])))
    (\<lambda>n. rbind (notification_samples n) samples_collect) =
   Ok (samples_of [(7, [(3, [5, 6])]), (8, [])])"
  by (rule notification_roundtrip) simp_all

end
