(* ===== verification/Ads_Reader.thy ===== *)
theory Ads_Reader
  imports Ads_Notif
begin

text \<open>
  The reader thread (\<open>ClientReceiver\<close> in \<open>src/client.rs\<close>): one packet of the receive loop,
  the loop, and the closure of \<open>start\<close> that settles what is still pending when the loop ends.
  The socket is the finite sequence of bytes it will deliver and the I/O error that follows
  them (end of file, reset or timeout).
\<close>

section \<open>One packet\<close>

text \<open>\<open>read_exact\<close> on the socket, with the error the socket ends with.\<close>

definition sock_read :: "io_error \<Rightarrow> string \<Rightarrow> nat \<Rightarrow> bytes parser" where
  "sock_read fin c n s = (if n \<le> length s then Ok (take n s, drop n s) else Err (Io c fin))"

datatype packet =
    Skipped
  | ReplyPkt ads_header bytes
  | NotifPkt notification

abbreviation pkt_ctx :: string where
  "pkt_ctx \<equiv> ''interpreting received AMS packet''"

text \<open>The notification branch, from \<open>LE::read_u32(&payload_buf)\<close> on.\<close>

definition recv_notification :: "bytes \<Rightarrow> ads_header \<Rightarrow> bytes \<Rightarrow> packet res" where
  "recv_notification header_buf h payload =
     rbind (slice_of payload 0 4) (\<lambda>b.
     let notif_payload_len = le_u32 b in
     if state_flags h \<noteq> 4 \<or> error_code h \<noteq> 0 \<or> notif_payload_len \<noteq> data_length h - 4 \<or>
        notif_payload_len < 4
     then Ok Skipped
     else (case notification_new (header_buf @ payload) of
             Ok n \<Rightarrow> Ok (NotifPkt n) | Err _ \<Rightarrow> Ok Skipped | Panic \<Rightarrow> Panic))"

text \<open>What is done with a packet once its header and payload are read.\<close>

definition classify_packet :: "ams_addr \<Rightarrow> u32 \<Rightarrow> bytes \<Rightarrow> ads_header \<Rightarrow> bytes \<Rightarrow> packet res" where
  "classify_packet source packet_len header_buf h payload =
     (let cmd = le_u16 (take 2 header_buf) in
      if cmd \<noteq> 0 then
        if cmd = 1 \<or> (4096 \<le> cmd \<and> cmd \<le> 4098) then Ok Skipped
        else Err (Reply pkt_ctx ''invalid packet'' (ucast cmd))
      else if data_length h \<noteq> packet_len - of_nat AMS_HEADER_SIZE then
        Err (Reply pkt_ctx ''AMS/TCP header and AMS header contain inconsistent data'' 0)
      else if (dest_netid h, dest_port h) \<noteq> (netid source, port source) then Ok Skipped
      else if hdr_command h \<noteq> command_code Notification then Ok (ReplyPkt h payload)
      else recv_notification header_buf h payload)"

definition recv_packet :: "io_error \<Rightarrow> ams_addr \<Rightarrow> packet parser" where
  "recv_packet fin source =
     pbind (sock_read fin ''receiving AMS/TCP header'' 6) (\<lambda>tcp_hdr.
     let packet_len = le_u32 (take 4 (drop 2 tcp_hdr)) in
     if packet_len \<le> 31 then
       pbind (sock_read fin ''discarding bad data'' (unat packet_len)) (\<lambda>_. pret Skipped)
     else
       pbind (sock_read fin ''receiving AMS header'' 32) (\<lambda>ams_hdr.
       let header_buf = tcp_hdr @ ams_hdr in
       case ads_header_read header_buf of
         None \<Rightarrow> pfail (Io ''decoding AMS header'' (io_of_kind InvalidData))
       | Some h \<Rightarrow>
           pbind (sock_read fin ''receiving Ads data payload'' (unat (data_length h))) (\<lambda>payload.
           plift (classify_packet source packet_len header_buf h payload))))"

section \<open>The loop\<close>

text \<open>
  The pending map sends an invoke ID to the sending end of a one-shot channel; of the sender
  only one thing matters here, whether the receiving end still exists. \<open>rx_settled\<close> and
  \<open>rx_notifs\<close> record what was sent over the channels, in order.
\<close>

record rx_state =
  rx_pending :: "u32 \<rightharpoonup> bool"
  rx_settled :: "(u32 \<times> (ads_header \<times> bytes) res) list"
  rx_notifs :: "notification list"

abbreviation settle_ctx :: string where
  "settle_ctx \<equiv> ''settling pending request''"

definition settle :: "ads_header \<Rightarrow> bytes \<Rightarrow> rx_state \<Rightarrow> unit res \<times> rx_state" where
  "settle h payload st =
     (let i = hdr_invoke_id h; st' = st\<lparr>rx_pending := (rx_pending st)(i := None)\<rparr> in
      case rx_pending st i of
        Some alive \<Rightarrow>
          if alive then (Ok (), st'\<lparr>rx_settled := rx_settled st @ [(i, Ok (h, payload))]\<rparr>)
          else (Err (IoSync settle_ctx ''channel closed, couldn't dispatch response'' i), st')
      | None \<Rightarrow>
          (Err (Reply settle_ctx ''invalid invoke id received from server, aborting connection'' i),
           st'))"

definition dispatch :: "packet \<Rightarrow> rx_state \<Rightarrow> unit res \<times> rx_state" where
  "dispatch p st =
     (case p of
        Skipped \<Rightarrow> (Ok (), st)
      | ReplyPkt h payload \<Rightarrow> settle h payload st
      | NotifPkt n \<Rightarrow> (Ok (), st\<lparr>rx_notifs := rx_notifs st @ [n]\<rparr>))"

lemma recv_packet_progress: "recv_packet fin source s = Ok (p, t) \<Longrightarrow> length t + 6 \<le> length s"
  by (auto simp: recv_packet_def pbind_eq_Ok sock_read_def Let_def plift_def
      split: if_splits option.splits)

text \<open>The loop ends by an error or a panic; every turn of it takes at least six bytes.\<close>

function reader_work :: "io_error \<Rightarrow> ams_addr \<Rightarrow> bytes \<Rightarrow> rx_state \<Rightarrow> unit res \<times> rx_state" where
  "reader_work fin source s st =
     (case recv_packet fin source s of
        Err e \<Rightarrow> (Err e, st)
      | Panic \<Rightarrow> (Panic, st)
      | Ok (p, t) \<Rightarrow>
          (case dispatch p st of
             (Ok _, st') \<Rightarrow> reader_work fin source t st'
           | (Err e, st') \<Rightarrow> (Err e, st')
           | (Panic, st') \<Rightarrow> (Panic, st')))"
  by pat_completeness auto
termination
  by (relation "measure (\<lambda>(fin, source, s, st). length s)") (auto dest!: recv_packet_progress)

declare reader_work.simps [simp del]

section \<open>The end of the thread\<close>

text \<open>
  The closure of \<open>start\<close>: settle every pending request with the error the loop ended with
  (a send whose receiver is gone is ignored). A panic unwinds past it. The keys of the
  \<open>BTreeMap\<close> come in ascending order.
\<close>

definition shutdown_error :: "unit res \<Rightarrow> error" where
  "shutdown_error result =
     (case result of
        Err e \<Rightarrow> error_clone e
      | _ \<Rightarrow> Reply ''handling clean shutdown'' ''pending request at client shutdown'' 0)"

primrec drain :: "error \<Rightarrow> u32 list \<Rightarrow> rx_state \<Rightarrow> rx_state" where
  "drain e [] st = st"
| "drain e (i # is) st =
     drain e is
       (case rx_pending st i of
          None \<Rightarrow> st
        | Some alive \<Rightarrow>
            st\<lparr>rx_pending := (rx_pending st)(i := None),
               rx_settled := (if alive then rx_settled st @ [(i, Err e)] else rx_settled st)\<rparr>)"

definition pending_keys :: "rx_state \<Rightarrow> u32 list" where
  "pending_keys st = sorted_list_of_set (dom (rx_pending st))"

definition reader_thread ::
  "io_error \<Rightarrow> ams_addr \<Rightarrow> bytes \<Rightarrow> rx_state \<Rightarrow> unit res \<times> rx_state" where
  "reader_thread fin source s st =
     (case reader_work fin source s st of
        (Panic, st') \<Rightarrow> (Panic, st')
      | (result, st') \<Rightarrow> (result, drain (shutdown_error result) (pending_keys st') st'))"

section \<open>Framing\<close>

text \<open>A packet as a router sends it to the client at \<open>source\<close>.\<close>

definition frame :: "ads_header \<times> bytes \<Rightarrow> bytes" where
  "frame hp = ads_header_bytes (fst hp) @ snd hp"

definition wf_frame :: "ams_addr \<Rightarrow> ads_header \<times> bytes \<Rightarrow> bool" where
  "wf_frame source hp \<longleftrightarrow>
     length (snd hp) + 32 < 4294967296 \<and>
     ams_cmd (fst hp) = 0 \<and>
     hdr_length (fst hp) = of_nat (length (snd hp) + 32) \<and>
     data_length (fst hp) = of_nat (length (snd hp)) \<and>
     dest_netid (fst hp) = netid source \<and> dest_port (fst hp) = port source"

lemma header_prefix:
  "take 2 (ads_header_bytes h) = u16_le (ams_cmd h)"
  "take 4 (drop 2 (ads_header_bytes h)) = u32_le (hdr_length h)"
  by (simp_all add: ads_header_bytes_def)

lemma recv_packet_classified:
  assumes "length payload + 32 < 4294967296" and "hdr_length h = of_nat (length payload + 32)"
    and "data_length h = of_nat (length payload)"
  shows "recv_packet fin source (frame (h, payload) @ s) =
    plift (classify_packet source (hdr_length h) (ads_header_bytes h) h payload) s"
proof -
  let ?b = "ads_header_bytes h"
  have un: "unat (hdr_length h) = length payload + 32" "unat (data_length h) = length payload"
    using assms(1) by (simp_all add: assms(2,3) del: of_nat_add)
  have big: "\<not> hdr_length h \<le> 31" using un(1) by (simp add: word_le_nat_alt)
  have split: "frame (h, payload) @ s = take 6 ?b @ drop 6 ?b @ payload @ s"
    by (simp add: frame_def flip: append_assoc)
  have r1: "sock_read fin c 6 (frame (h, payload) @ s) = Ok (take 6 ?b, drop 6 ?b @ payload @ s)" for c
    by (simp add: split sock_read_def)
  have r2: "sock_read fin c 32 (drop 6 ?b @ payload @ s) = Ok (drop 6 ?b, payload @ s)" for c
    by (simp add: sock_read_def)
  have r3: "sock_read fin c (length payload) (payload @ s) = Ok (payload, s)" for c
    by (simp add: sock_read_def)
  have plen: "le_u32 (drop 2 (take 6 ?b)) = hdr_length h"
    using header_prefix(2) [of h] by (simp add: drop_take)
  show ?thesis using big by (simp add: recv_packet_def pbind_def r1 r2 r3 plen Let_def un)
qed

lemma recv_packet_frame:
  assumes "wf_frame source (h, payload)"
  shows "recv_packet fin source (frame (h, payload) @ s) =
    rmap (\<lambda>p. (p, s))
      (if hdr_command h \<noteq> command_code Notification then Ok (ReplyPkt h payload)
       else recv_notification (ads_header_bytes h) h payload)"
proof -
  have h: "length payload + 32 < 4294967296" "hdr_length h = of_nat (length payload + 32)"
    "data_length h = of_nat (length payload)"
    using assms by (simp_all add: wf_frame_def)
  then have "data_length h = hdr_length h - 32" by simp
  then have "classify_packet source (hdr_length h) (ads_header_bytes h) h payload =
      (if hdr_command h \<noteq> command_code Notification then Ok (ReplyPkt h payload)
       else recv_notification (ads_header_bytes h) h payload)"
    using assms by (simp add: classify_packet_def header_prefix wf_frame_def Let_def del: command_code.simps)
  then show ?thesis using recv_packet_classified [OF h] by (simp add: plift_def)
qed

lemma reader_work_reply:
  assumes "wf_frame source (h, payload)" "hdr_command h \<noteq> command_code Notification"
    and "rx_pending st (hdr_invoke_id h) = Some True"
  shows "reader_work fin source (frame (h, payload) @ s) st =
    reader_work fin source s
      (st\<lparr>rx_pending := (rx_pending st)(hdr_invoke_id h := None),
          rx_settled := rx_settled st @ [(hdr_invoke_id h, Ok (h, payload))]\<rparr>)"
  using assms
  by (subst reader_work.simps)
    (simp add: recv_packet_frame dispatch_def settle_def Let_def del: command_code.simps)

text \<open>Replies to distinct live requests are handed over one by one, in the order they arrive.\<close>

lemma reader_work_replies:
  assumes "list_all (wf_frame source) fs"
    and "list_all (\<lambda>f. hdr_command (fst f) \<noteq> command_code Notification) fs"
    and "distinct (map (hdr_invoke_id \<circ> fst) fs)"
    and "list_all (\<lambda>f. rx_pending st (hdr_invoke_id (fst f)) = Some True) fs"
  shows "reader_work fin source (concat (map frame fs) @ s) st =
    reader_work fin source s
      (st\<lparr>rx_pending := rx_pending st |` (- set (map (hdr_invoke_id \<circ> fst) fs)),
          rx_settled := rx_settled st @ map (\<lambda>f. (hdr_invoke_id (fst f), Ok f)) fs\<rparr>)"
  using assms
proof (induction fs arbitrary: st)
  case Nil
  have "UNIV = - ({} :: u32 set)" by simp
  then show ?case by (simp add: restrict_map_def)
next
  case (Cons f fs)
  obtain h p where f: "f = (h, p)" by fastforce
  let ?st = "st\<lparr>rx_pending := (rx_pending st)(hdr_invoke_id h := None),
      rx_settled := rx_settled st @ [(hdr_invoke_id h, Ok (h, p))]\<rparr>"
  have "reader_work fin source (concat (map frame (f # fs)) @ s) st =
      reader_work fin source (concat (map frame fs) @ s) ?st"
    using Cons.prems f by (simp add: reader_work_reply del: command_code.simps)
  also have "\<dots> = reader_work fin source s
      (?st\<lparr>rx_pending := rx_pending ?st |` (- set (map (hdr_invoke_id \<circ> fst) fs)),
           rx_settled := rx_settled ?st @ map (\<lambda>f. (hdr_invoke_id (fst f), Ok f)) fs\<rparr>)"
    by (rule Cons.IH)
      (use Cons.prems f in \<open>fastforce simp: list_all_iff image_iff simp del: command_code.simps\<close>)+
  also have "rx_pending ?st |` (- set (map (hdr_invoke_id \<circ> fst) fs)) =
      rx_pending st |` (- set (map (hdr_invoke_id \<circ> fst) (f # fs)))"
    by (auto simp: f restrict_map_def fun_eq_iff)
  finally show ?case by (simp add: f)
qed

section \<open>Every live request is answered once\<close>

definition answers_to :: "u32 \<Rightarrow> rx_state \<Rightarrow> (ads_header \<times> bytes) res list" where
  "answers_to i st = map snd (filter (\<lambda>x. fst x = i) (rx_settled st))"

text \<open>The conserved quantity: answers sent so far, plus one while the request is pending.\<close>

definition tally :: "u32 \<Rightarrow> rx_state \<Rightarrow> nat" where
  "tally i st = length (answers_to i st) + (if rx_pending st i = Some True then 1 else 0)"

definition own_replies :: "rx_state \<Rightarrow> bool" where
  "own_replies st \<longleftrightarrow>
     list_all (\<lambda>(i, r). case r of Ok (h, _) \<Rightarrow> hdr_invoke_id h = i | _ \<Rightarrow> True) (rx_settled st)"

lemma settle_inv:
  assumes "settle h p st = (r, st')"
  shows "tally i st' = tally i st" "own_replies st \<Longrightarrow> own_replies st'"
    "dom (rx_pending st') \<subseteq> dom (rx_pending st)"
  using assms
  by (auto simp: settle_def Let_def tally_def answers_to_def own_replies_def
      split: option.splits if_splits)

lemma dispatch_inv:
  assumes "dispatch p st = (r, st')"
  shows "tally i st' = tally i st" "own_replies st \<Longrightarrow> own_replies st'"
    "dom (rx_pending st') \<subseteq> dom (rx_pending st)"
proof -
  have "tally i st' = tally i st \<and> (own_replies st \<longrightarrow> own_replies st') \<and>
      dom (rx_pending st') \<subseteq> dom (rx_pending st)"
  proof (cases p)
    case (ReplyPkt h payload)
    with assms have "settle h payload st = (r, st')" by (simp add: dispatch_def)
    from settle_inv [OF this] show ?thesis by simp
  qed (use assms in \<open>auto simp: dispatch_def tally_def answers_to_def own_replies_def\<close>)
  then show "tally i st' = tally i st" "own_replies st \<Longrightarrow> own_replies st'"
    "dom (rx_pending st') \<subseteq> dom (rx_pending st)" by auto
qed

lemma reader_work_inv:
  assumes "reader_work fin source s st = (r, st')"
  shows "tally i st' = tally i st \<and> (own_replies st \<longrightarrow> own_replies st') \<and>
    dom (rx_pending st') \<subseteq> dom (rx_pending st)"
  using assms
proof (induction fin source s st rule: reader_work.induct)
  case (1 fin source s st)
  show ?case
  proof (cases "recv_packet fin source s")
    case (Ok pt)
    obtain p t where pt: "pt = (p, t)" by fastforce
    obtain q st1 where d: "dispatch p st = (q, st1)" by fastforce
    note inv = dispatch_inv [OF d]
    show ?thesis
    proof (cases q)
      case Ok': (Ok u)
      then have "reader_work fin source t st1 = (r, st')"
        using "1.prems" Ok pt d by (simp add: reader_work.simps [of fin source s st])
      from "1.IH" [OF Ok pt [symmetric] d [symmetric] Ok' this] inv show ?thesis
        by (metis subset_trans)
    qed (use "1.prems" Ok pt d inv in \<open>auto simp: reader_work.simps [of fin source s st]\<close>)
  qed (use "1.prems" in \<open>auto simp: reader_work.simps [of fin source s st]\<close>)
qed

lemma reader_work_ends: "fst (reader_work fin source s st) \<noteq> Ok ()"
proof (induction fin source s st rule: reader_work.induct)
  case (1 fin source s st)
  then show ?case
    by (subst reader_work.simps) (auto split: outcome.split prod.split)
qed

lemma drain_inv:
  "tally i (drain e is st) = tally i st \<and> (own_replies st \<longrightarrow> own_replies (drain e is st))"
proof (induction "is" arbitrary: st)
  case (Cons j js)
  show ?case
    using Cons.IH
    by (auto simp: tally_def answers_to_def own_replies_def split: option.splits)
qed simp

lemma drain_pending: "rx_pending (drain e is st) = rx_pending st |` (- set is)"
proof (induction "is" arbitrary: st)
  case Nil
  then show ?case by (auto simp: restrict_map_def)
next
  case (Cons j js)
  then show ?case by (auto simp: restrict_map_def fun_eq_iff split: option.split)
qed

lemma reader_thread_drains:
  assumes "reader_thread fin source s st = (r, st')" and "r \<noteq> Panic" and "finite (dom (rx_pending st))"
  shows "rx_pending st' = Map.empty" "tally i st' = tally i st" "own_replies st \<Longrightarrow> own_replies st'"
    "\<exists>e. r = Err e"
proof -
  obtain q st1 where w: "reader_work fin source s st = (q, st1)" by fastforce
  note inv = reader_work_inv [OF w]
  have fin: "finite (dom (rx_pending st1))" using inv assms(3) finite_subset by blast
  have d: "st' = drain (shutdown_error q) (pending_keys st1) st1" "r = q" "q \<noteq> Panic"
    using assms(1,2) w by (auto simp: reader_thread_def split: outcome.splits)
  show "rx_pending st' = Map.empty"
    using fin by (auto simp: d drain_pending pending_keys_def restrict_map_def fun_eq_iff dom_def)
  show "tally i st' = tally i st"
    using inv drain_inv [of i "shutdown_error q" "pending_keys st1" st1] by (simp add: d)
  show "own_replies st \<Longrightarrow> own_replies st'"
    using inv drain_inv [of i "shutdown_error q" "pending_keys st1" st1] by (simp add: d)
  show "\<exists>e. r = Err e"
    using reader_work_ends [of fin source s st] w d by (cases q) auto
qed

section \<open>Properties\<close>

text \<open>
  C6. When the reader thread ends without a panic, it ends with an error, nothing is left in
  the pending map, and every request that was pending with a live receiver has been answered
  exactly once, the others not at all; an answer that carries a reply carries the one with
  the request's own invoke ID.
\<close>

theorem reader_answers_once:
  assumes "reader_thread fin source s st = (r, st')" and "r \<noteq> Panic"
    and "finite (dom (rx_pending st))" and "rx_settled st = []"
  shows "(\<exists>e. r = Err e) \<and> rx_pending st' = Map.empty \<and>
    length (answers_to i st') = (if rx_pending st i = Some True then 1 else 0) \<and>
    (\<forall>h p. Ok (h, p) \<in> set (answers_to i st') \<longrightarrow> hdr_invoke_id h = i)"
proof -
  note d = reader_thread_drains [OF assms(1-3)]
  have "length (answers_to i st') = tally i st'" by (simp add: tally_def d(1))
  also have "\<dots> = tally i st" by (rule d(2))
  also have "\<dots> = (if rx_pending st i = Some True then 1 else 0)"
    using assms(4) by (simp add: tally_def answers_to_def)
  finally have n: "length (answers_to i st') = (if rx_pending st i = Some True then 1 else 0)" .
  have "own_replies st'" by (rule d(3)) (simp add: own_replies_def assms(4))
  then have "\<forall>h p. Ok (h, p) \<in> set (answers_to i st') \<longrightarrow> hdr_invoke_id h = i"
    by (fastforce simp: own_replies_def answers_to_def list_all_iff)
  with n d(1,4) show ?thesis by blast
qed

definition rx_one :: "u32 \<Rightarrow> rx_state" where
  "rx_one i = \<lparr>rx_pending = [i \<mapsto> True], rx_settled = [], rx_notifs = []\<rparr>"

theorem reader_answers_once_witness:
  "length (answers_to 5 (snd (reader_thread (io_of_kind UnexpectedEof) (AmsAddr netid_local 99) []
     (rx_one 5)))) = 1"
proof -
  let ?t = "reader_thread (io_of_kind UnexpectedEof) (AmsAddr netid_local 99) [] (rx_one 5)"
  have "fst ?t \<noteq> Panic"
    by (simp add: reader_thread_def reader_work.simps [of _ _ "[]"] recv_packet_def pbind_def sock_read_def)
  moreover have "?t = (fst ?t, snd ?t)" by simp
  moreover have "finite (dom (rx_pending (rx_one 5)))" "rx_settled (rx_one 5) = []"
    "rx_pending (rx_one 5) 5 = Some True" by (simp_all add: rx_one_def)
  ultimately show ?thesis
    using reader_answers_once [of "io_of_kind UnexpectedEof" "AmsAddr netid_local 99" "[]" "rx_one 5"
        "fst ?t" "snd ?t" 5] by simp
qed

text \<open>
  C27. Replies that arrive for distinct live requests are handed over one by one, unchanged and
  in the order of arrival, whatever follows them on the stream.
\<close>

theorem reader_delivers_in_order:
  assumes "list_all (wf_frame source) fs"
    and "list_all (\<lambda>f. hdr_command (fst f) \<noteq> command_code Notification) fs"
    and "distinct (map (hdr_invoke_id \<circ> fst) fs)"
    and "list_all (\<lambda>f. rx_pending st (hdr_invoke_id (fst f)) = Some True) fs"
  shows "reader_work fin source (concat (map frame fs) @ s) st =
    reader_work fin source s
      (st\<lparr>rx_pending := rx_pending st |` (- set (map (hdr_invoke_id \<circ> fst) fs)),
          rx_settled := rx_settled st @ map (\<lambda>f. (hdr_invoke_id (fst f), Ok f)) fs\<rparr>)"
  by (rule reader_work_replies [OF assms])

definition sample_reply :: "ams_addr \<Rightarrow> u16 \<Rightarrow> u32 \<Rightarrow> bytes \<Rightarrow> ads_header" where
  "sample_reply a cmd i p =
     \<lparr>ams_cmd = 0, hdr_length = of_nat (length p + 32), dest_netid = netid a, dest_port = port a,
      src_netid = netid_local, src_port = 851, hdr_command = cmd, state_flags = 5,
      data_length = of_nat (length p), error_code = 0, hdr_invoke_id = i\<rparr>"

theorem reader_delivers_in_order_witness:
  "fst (reader_work (io_of_kind UnexpectedEof) (AmsAddr netid_local 99)
      (frame (sample_reply (AmsAddr netid_local 99) 2 5 [0, 0, 0, 0], [0, 0, 0, 0])) (rx_one 5)) =
   Err (Io ''receiving AMS/TCP header'' (io_of_kind UnexpectedEof))"
  using reader_delivers_in_order [of "AmsAddr netid_local 99"
      "[(sample_reply (AmsAddr netid_local 99) 2 5 [0, 0, 0, 0], [0, 0, 0, 0])]" "rx_one 5"
      "io_of_kind UnexpectedEof" "[]"]
  by (simp add: wf_frame_def sample_reply_def rx_one_def reader_work.simps [of _ _ "[]"] recv_packet_def
      pbind_def sock_read_def)

text \<open>
  A notification packet addressed to the client whose payload has fewer than four bytes
  makes the reader thread panic; the requests that are pending then stay pending and are never
  answered.
\<close>

theorem reader_panics_on_short_notification:
  assumes "wf_frame source (h, p)" and "hdr_command h = command_code Notification" and "length p < 4"
  shows "reader_thread fin source (frame (h, p) @ s) st = (Panic, st)"
proof -
  have "recv_packet fin source (frame (h, p) @ s) = Panic"
    using assms by (simp add: recv_packet_frame recv_notification_def slice_of_def del: command_code.simps)
  then show ?thesis by (simp add: reader_thread_def reader_work.simps [of fin source _ st])
qed

theorem reader_panics_on_short_notification_witness:
  "reader_thread (io_of_kind UnexpectedEof) (AmsAddr netid_local 99)
     (frame (sample_reply (AmsAddr netid_local 99) 8 5 [], []) @ []) (rx_one 5) = (Panic, rx_one 5)"
  by (rule reader_panics_on_short_notification) (simp_all add: wf_frame_def sample_reply_def)

end
