(* ===== verification/Ads_Fixup.thy ===== *)
theory Ads_Fixup
  imports Ads_Wire
begin

text \<open>
  Scattering a reply over the caller's buffers (the end of \<open>Client::communicate\<close>) and the
  repair of the buffers of a sum-up write/read (\<open>fixup_write_read_return_buffers\<close>). A device
  answers such a request with the returned bytes packed one after another, while the scatter
  fills every buffer to its full length; the repair moves each request's bytes to the start of
  its own buffer, in place and in reverse order. The main lemma says that it does, and that
  none of its slice accesses can fail.
\<close>

section \<open>Scattering the reply\<close>

text \<open>The distribution loop, with its two counters and its early exit.\<close>

fun distribute :: "bytes \<Rightarrow> nat \<Rightarrow> nat \<Rightarrow> bytes list \<Rightarrow> bytes list res" where
  "distribute resp_buf taken rest_len [] = Ok []"
| "distribute resp_buf taken rest_len (buf # bufs) =
     (let n = min (length buf) rest_len in
      rbind (slice_of resp_buf taken (length resp_buf)) (\<lambda>tail.
      rbind (slice_of tail 0 n) (\<lambda>b.
      let buf' = b @ drop n buf in
      if rest_len - n = 0 then Ok (buf' # bufs)
      else rmap (\<lambda>bs. buf' # bs) (distribute resp_buf (taken + n) (rest_len - n) bufs))))"

text \<open>Reference: cut the data along the buffers; the part of a buffer not reached is kept.\<close>

primrec scatter :: "bytes list \<Rightarrow> bytes \<Rightarrow> bytes list" where
  "scatter [] s = []"
| "scatter (buf # bufs) s =
     (take (length buf) s @ drop (length s) buf) # scatter bufs (drop (length buf) s)"

lemma scatter_Nil [simp]: "scatter bufs [] = bufs"
  by (induction bufs) auto

lemma length_scatter [simp]: "length (scatter bufs s) = length bufs"
  by (induction bufs arbitrary: s) auto

lemma scatter_lengths [simp]: "map length (scatter bufs s) = map length bufs"
  by (induction bufs arbitrary: s) auto

lemma concat_scatter:
  "concat (scatter bufs s) = take (length (concat bufs)) s @ drop (length s) (concat bufs)"
proof (induction bufs arbitrary: s)
  case Nil
  then show ?case by simp
next
  case (Cons b bufs)
  show ?case
  proof (cases "length b \<le> length s")
    case True
    then show ?thesis
      by (simp add: Cons.IH take_add flip: append_assoc)
  next
    case False
    then show ?thesis by simp
  qed
qed

lemma distribute_scatter:
  "taken + rest_len = length resp_buf \<Longrightarrow>
     distribute resp_buf taken rest_len bufs = Ok (scatter bufs (drop taken resp_buf))"
proof (induction bufs arbitrary: taken rest_len)
  case Nil
  then show ?case by simp
next
  case (Cons b bufs)
  let ?n = "min (length b) rest_len"
  have len: "length resp_buf - taken = rest_len" using Cons.prems by linarith
  have sl: "slice_of resp_buf taken (length resp_buf) = (Ok (drop taken resp_buf) :: bytes res)"
    using Cons.prems by (simp add: slice_of_def)
  have sl2: "slice_of (drop taken resp_buf) 0 ?n = (Ok (take ?n (drop taken resp_buf)) :: bytes res)"
    by (simp add: slice_of_def len)
  have tk: "take ?n (drop taken resp_buf) = take (length b) (drop taken resp_buf)"
    by (simp add: len min_def)
  have dr: "drop ?n b = drop (length (drop taken resp_buf)) b"
    by (simp add: len min_def)
  show ?case
  proof (cases "rest_len \<le> length b")
    case True
    then have "drop (length b) (drop taken resp_buf) = []" using Cons.prems by simp
    with True show ?thesis
      using sl sl2 tk dr by (simp add: Let_def len del: drop_drop)
  next
    case False
    then have "distribute resp_buf (taken + length b) (rest_len - length b) bufs =
        Ok (scatter bufs (drop (taken + length b) resp_buf))"
      using Cons.prems by (intro Cons.IH) simp
    with False show ?thesis
      using sl sl2 tk dr by (simp add: Let_def len add.commute)
  qed
qed

section \<open>The sum-up write/read request\<close>

record write_read_request =
  wrr_req :: index_length_rw
  wrr_res :: result_length
  wrr_wbuf :: bytes
  wrr_rbuf :: bytes

text \<open>\<open>rbuf.len()\<close> and \<open>res.length\<close> of a request.\<close>

definition wrr_init :: "write_read_request \<Rightarrow> nat" where
  "wrr_init r = length (wrr_rbuf r)"

definition wrr_act :: "write_read_request \<Rightarrow> nat" where
  "wrr_act r = unat (rl_length (wrr_res r))"

section \<open>The repair, as the code does it\<close>

type_synonym offset = "nat \<times> nat \<times> nat \<times> nat"

text \<open>The \<open>scan\<close>: (initial offset, actual offset, buffer length, returned length).\<close>

fun fixup_offsets :: "nat \<Rightarrow> nat \<Rightarrow> write_read_request list \<Rightarrow> offset list res" where
  "fixup_offsets init_cum act_cum [] = Ok []"
| "fixup_offsets init_cum act_cum (r # rs) =
     (let init = wrr_init r; act = wrr_act r in
      if init \<ge> act
      then rmap (\<lambda>os. (init_cum, act_cum, init, act) # os)
             (fixup_offsets (init_cum + init) (act_cum + act) rs)
      else Panic)"

text \<open>\<open>Iterator::rposition\<close> on the first \<open>n\<close> elements.\<close>

fun rposition :: "('x \<Rightarrow> bool) \<Rightarrow> 'x list \<Rightarrow> nat \<Rightarrow> nat option" where
  "rposition P xs 0 = None"
| "rposition P xs (Suc n) = (if P (xs ! n) then Some n else rposition P xs n)"

text \<open>Write \<open>src\<close> into \<open>b\<close> from position \<open>d\<close>; a range that does not fit panics.\<close>

definition copy_at :: "bytes \<Rightarrow> nat \<Rightarrow> bytes \<Rightarrow> bytes res" where
  "copy_at b d src =
     (if d + length src \<le> length b then Ok (take d b @ src @ drop (d + length src) b) else Panic)"

text \<open>
  The inner \<open>loop\<close>: copy the last \<open>n\<close> bytes of buffer \<open>j\<close> up to \<open>j_end\<close> to the end of the
  part of buffer \<open>i\<close> that is still missing, then go on with the buffer before. Going below
  buffer 0 would underflow \<open>j\<close> and panic.
\<close>

fun fixup_copy :: "offset list \<Rightarrow> nat \<Rightarrow> nat \<Rightarrow> nat \<Rightarrow> nat \<Rightarrow> bytes list \<Rightarrow> bytes list res" where
  "fixup_copy offs i j j_end sz bufs =
     (let n = min j_end sz; sz' = sz - n in
      rbind (if i = j
             then rbind (slice_of (bufs ! i) (j_end - n) j_end) (\<lambda>src. copy_at (bufs ! i) sz' src)
             else rbind (slice_of (bufs ! j) (j_end - n) j_end) (\<lambda>src. copy_at (bufs ! i) sz' src))
       (\<lambda>b. let bufs' = bufs[i := b] in
            if sz' = 0 then Ok bufs'
            else if j = 0 then Panic
            else fixup_copy offs i (j - 1) (fst (snd (snd (offs ! (j - 1))))) sz' bufs'))"

declare fixup_copy.simps [simp del]

text \<open>The outer loop, \<open>for i in (0..len).rev()\<close>, with its \<open>continue\<close> and its \<open>break\<close>.\<close>

fun fixup_loop :: "offset list \<Rightarrow> nat \<Rightarrow> bytes list \<Rightarrow> bytes list res" where
  "fixup_loop offs 0 bufs = Ok bufs"
| "fixup_loop offs (Suc i) bufs =
     (case offs ! i of (my_initial, my_actual, _, sz) \<Rightarrow>
        if sz = 0 then fixup_loop offs i bufs
        else if my_initial = my_actual then Ok bufs
        else (case rposition (\<lambda>r. fst r < my_actual + sz) offs (Suc i) of
                None \<Rightarrow> Panic
              | Some j \<Rightarrow>
                  rbind (fixup_copy offs i j (my_actual + sz - fst (offs ! j)) sz bufs)
                    (\<lambda>bufs'. fixup_loop offs i bufs')))"

definition fixup_write_read_return_buffers ::
  "write_read_request list \<Rightarrow> write_read_request list res" where
  "fixup_write_read_return_buffers requests =
     rbind (fixup_offsets 0 0 requests) (\<lambda>offs.
     rmap (\<lambda>bufs. map2 (\<lambda>r b. r\<lparr>wrr_rbuf := b\<rparr>) requests bufs)
       (fixup_loop offs (length requests) (map wrr_rbuf requests)))"

section \<open>Correctness of the repair\<close>

text \<open>\<open>start_of bs k\<close> is where buffer \<open>k\<close> starts in the buffers laid end to end.\<close>

definition start_of :: "'b list list \<Rightarrow> nat \<Rightarrow> nat" where
  "start_of bs k = length (concat (take k bs))"

lemma start_of_0 [simp]: "start_of bs 0 = 0"
  by (simp add: start_of_def)

lemma start_of_Suc: "k < length bs \<Longrightarrow> start_of bs (Suc k) = start_of bs k + length (bs ! k)"
  by (simp add: start_of_def take_Suc_conv_app_nth)

lemma start_of_le: "k \<le> length bs \<Longrightarrow> start_of bs k \<le> length (concat bs)"
  by (metis append_take_drop_id concat_append length_append le_add1 start_of_def)

lemma start_of_mono: "k \<le> m \<Longrightarrow> start_of bs k \<le> start_of bs m"
proof -
  assume "k \<le> m"
  then have "take m bs = take k bs @ take (m - k) (drop k bs)"
    by (metis le_add_diff_inverse take_add)
  then show ?thesis by (simp add: start_of_def)
qed

lemma nth_buffer_in_concat:
  assumes "k < length bs" and "p + n \<le> length (bs ! k)"
  shows "take n (drop (start_of bs k + p) (concat bs)) = take n (drop p (bs ! k))"
proof -
  have "concat bs = concat (take k bs) @ bs ! k @ concat (drop (Suc k) bs)"
    using id_take_nth_drop [OF assms(1)] by (metis concat.simps(2) concat_append)
  with assms(2) show ?thesis by (simp add: start_of_def)
qed

lemma fixup_copy_correct:
  assumes "i < length bs" and "length cur = length bs"
    and "\<And>k. k < i \<Longrightarrow> cur ! k = bs ! k"
    and "length (cur ! i) = length (bs ! i)"
    and "\<And>k. k < length bs \<Longrightarrow> fst (snd (snd (offs ! k))) = length (bs ! k)"
    and "j \<le> i" and "j = i \<Longrightarrow> cur ! i = bs ! i"
    and "start_of bs j + j_end = act + sz" and "j_end \<le> length (bs ! j)"
    and "sz \<le> length (bs ! i)"
  shows "fixup_copy offs i j j_end sz cur =
    Ok (cur[i := take sz (drop act (concat bs)) @ drop sz (cur ! i)])"
  using assms
proof (induction j arbitrary: j_end sz cur)
  case (0 j_end sz cur)
  let ?n = "min j_end sz"
  let ?src = "take ?n (drop (j_end - ?n) (bs ! 0))"
  have szle: "sz \<le> j_end" using "0.prems"(8) by simp
  then have n: "?n = sz" by simp
  have cur0: "cur ! 0 = bs ! 0"
    using "0.prems"(1,7) "0.prems"(3) [of 0] by (cases "i = 0"; cases bs) auto
  have sl: "slice_of (bs ! 0) (j_end - ?n) j_end = (Ok ?src :: bytes res)"
    using "0.prems"(9) szle by (simp add: slice_of_def n)
  have src: "?src = take sz (drop act (concat bs))"
    using nth_buffer_in_concat [of 0 bs "j_end - sz" sz] "0.prems"(1,8,9) szle n by fastforce
  have len: "length ?src = sz" using "0.prems"(9) szle n by simp
  show ?case
    using sl cur0 "0.prems" n len
    by (subst fixup_copy.simps) (simp add: Let_def copy_at_def flip: src)
next
  case (Suc j j_end sz cur)
  let ?n = "min j_end sz"
  let ?src = "take ?n (drop (j_end - ?n) (bs ! Suc j))"
  let ?b = "take (sz - ?n) (cur ! i) @ ?src @ drop sz (cur ! i)"
  have j: "Suc j < length bs" using Suc.prems by simp
  have curj: "cur ! Suc j = bs ! Suc j"
    using Suc.prems(6,7) Suc.prems(3) [of "Suc j"] by (cases "i = Suc j") auto
  have len: "length ?src = ?n" using Suc.prems(9) by simp
  have sl: "slice_of (bs ! Suc j) (j_end - ?n) j_end = (Ok ?src :: bytes res)"
    using Suc.prems(9) by (simp add: slice_of_def)
  have cp: "copy_at (cur ! i) (sz - ?n) ?src = Ok ?b"
    using Suc.prems len by (simp add: copy_at_def)
  have src: "?src = take ?n (drop (act + sz - ?n) (concat bs))"
    using nth_buffer_in_concat [OF j, of "j_end - ?n" ?n] Suc.prems(8,9) by simp
  have whole: "take (sz - ?n) (drop act (concat bs)) @ ?src = take sz (drop act (concat bs))"
    using take_add [of "sz - ?n" ?n "drop act (concat bs)"] src by (simp add: add.commute)
  have step: "fixup_copy offs i (Suc j) j_end sz cur =
      (if sz - ?n = 0 then Ok (cur[i := ?b])
       else fixup_copy offs i j (length (bs ! j)) (sz - ?n) (cur[i := ?b]))"
    using sl cp curj Suc.prems(5) [of j] j
    by (subst fixup_copy.simps) (auto simp: Let_def)
  show ?case
  proof (cases "sz - ?n = 0")
    case True
    then show ?thesis using step whole by simp
  next
    case False
    have "fixup_copy offs i j (length (bs ! j)) (sz - ?n) (cur[i := ?b]) =
        Ok (cur[i := ?b, i := take (sz - ?n) (drop act (concat bs)) @ drop (sz - ?n) (cur[i := ?b] ! i)])"
    proof (rule Suc.IH)
      show "start_of bs j + length (bs ! j) = act + (sz - ?n)"
        using Suc.prems(8) False start_of_Suc [of j bs] j by simp
    qed (use Suc.prems False len j in auto)
    moreover have "drop (sz - ?n) (cur[i := ?b] ! i) = ?src @ drop sz (cur ! i)"
      using Suc.prems by simp
    ultimately show ?thesis using step False whole by (simp flip: append_assoc)
  qed
qed

text \<open>Reference: buffer \<open>k\<close> starts with its own share of the packed data.\<close>

fun unpack :: "bytes \<Rightarrow> nat list \<Rightarrow> bytes list \<Rightarrow> bytes list" where
  "unpack s (a # as) (b # bs) = (take a s @ drop a b) # unpack (drop a s) as bs"
| "unpack s _ _ = []"

lemma length_unpack [simp]: "length (unpack s as bs) = min (length as) (length bs)"
  by (induction s as bs rule: unpack.induct) auto

lemma nth_unpack:
  "k < length as \<Longrightarrow> k < length bs \<Longrightarrow>
     unpack s as bs ! k = take (as ! k) (drop (sum_list (take k as)) s) @ drop (as ! k) (bs ! k)"
proof (induction s as bs arbitrary: k rule: unpack.induct)
  case (1 s a as b bs)
  then show ?case by (cases k) (simp_all add: add.commute)
qed simp_all

lemma rposition_Some:
  "rposition P xs n = Some j \<Longrightarrow> j < n \<and> P (xs ! j) \<and> (\<forall>m. j < m \<and> m < n \<longrightarrow> \<not> P (xs ! m))"
  by (induction n) (auto split: if_splits simp: less_Suc_eq)

lemma rposition_exists: "m < n \<Longrightarrow> P (xs ! m) \<Longrightarrow> \<exists>j. rposition P xs n = Some j"
  by (induction n) (auto simp: less_Suc_eq)

text \<open>The offsets the scan computes, for buffers \<open>bs\<close> and returned lengths \<open>as\<close>.\<close>

definition offsets_of :: "bytes list \<Rightarrow> nat list \<Rightarrow> nat \<Rightarrow> offset" where
  "offsets_of bs as k = (start_of bs k, sum_list (take k as), length (bs ! k), as ! k)"

lemma act_le_start:
  assumes "length as = length bs" and "\<And>k. k < length bs \<Longrightarrow> as ! k \<le> length (bs ! k)"
  shows "k \<le> length bs \<Longrightarrow> sum_list (take k as) \<le> start_of bs k"
proof (induction k)
  case 0
  then show ?case by simp
next
  case (Suc k)
  then show ?case
    using assms(2) [of k] assms(1) by (simp add: start_of_Suc take_Suc_conv_app_nth)
qed

text \<open>Where the offsets agree, every buffer before was filled completely.\<close>

lemma act_eq_start:
  assumes "length as = length bs" and "\<And>k. k < length bs \<Longrightarrow> as ! k \<le> length (bs ! k)"
  shows "i \<le> length bs \<Longrightarrow> sum_list (take i as) = start_of bs i \<Longrightarrow> k \<le> i \<Longrightarrow>
    sum_list (take k as) = start_of bs k \<and> (k < i \<longrightarrow> as ! k = length (bs ! k))"
proof (induction i arbitrary: k)
  case 0
  then show ?case by simp
next
  case (Suc i)
  have i: "i < length bs" using Suc.prems by simp
  have "sum_list (take i as) + as ! i = start_of bs i + length (bs ! i)"
    using Suc.prems(2) i assms(1) by (simp add: start_of_Suc take_Suc_conv_app_nth)
  moreover have "sum_list (take i as) \<le> start_of bs i"
    using act_le_start [OF assms, of i] i by simp
  ultimately have eq: "sum_list (take i as) = start_of bs i" "as ! i = length (bs ! i)"
    using assms(2) [OF i] by linarith+
  show ?case
  proof (cases "k = Suc i")
    case True
    with Suc.prems show ?thesis by simp
  next
    case False
    with Suc.prems have "k \<le> i" by simp
    with Suc.IH [OF _ eq(1) this] eq i show ?thesis by (cases "k = i") auto
  qed
qed

lemma unpack_nth_full:
  assumes "length as = length bs" "k < length bs" "as ! k \<le> length (bs ! k)"
    and "sum_list (take k as) = start_of bs k"
  shows "unpack (concat bs) as bs ! k = bs ! k"
  using nth_buffer_in_concat [of k bs 0 "as ! k"] assms by (simp add: nth_unpack)

lemma fixup_loop_correct:
  assumes "length as = length bs" and le: "\<And>k. k < length bs \<Longrightarrow> as ! k \<le> length (bs ! k)"
    and "\<And>k. k < length bs \<Longrightarrow> offs ! k = offsets_of bs as k"
  shows "i \<le> length bs \<Longrightarrow> length cur = length bs \<Longrightarrow> (\<And>k. k < i \<Longrightarrow> cur ! k = bs ! k) \<Longrightarrow>
    fixup_loop offs i cur = Ok (take i (unpack (concat bs) as bs) @ drop i cur)"
proof (induction i arbitrary: cur)
  case 0
  then show ?case by simp
next
  case (Suc i)
  let ?D = "concat bs" and ?act = "sum_list (take i as)"
  have i: "i < length bs" using Suc.prems by simp
  have offs: "offs ! i = (start_of bs i, ?act, length (bs ! i), as ! i)"
    using assms(3) [OF i] by (simp add: offsets_of_def)
  have act: "?act \<le> start_of bs i" using act_le_start [OF assms(1) le] i by simp
  have goal: "take (Suc i) (unpack ?D as bs) @ drop (Suc i) cur =
      take i (unpack ?D as bs) @ (unpack ?D as bs ! i) # drop (Suc i) cur"
    using i assms(1) by (simp add: take_Suc_conv_app_nth)
  have rest: "fixup_loop offs i cur' = Ok (take (Suc i) (unpack ?D as bs) @ drop (Suc i) cur)"
    if "cur' = cur[i := unpack ?D as bs ! i]" for cur'
    using Suc.IH [of cur'] Suc.prems that i by (simp add: goal Cons_nth_drop_Suc [symmetric])
  consider (empty) "as ! i = 0" | (full) "as ! i \<noteq> 0" "start_of bs i = ?act"
    | (move) "as ! i \<noteq> 0" "start_of bs i \<noteq> ?act" by blast
  then show ?case
  proof cases
    case empty
    then have "unpack ?D as bs ! i = cur ! i" using i assms(1) Suc.prems(3) by (simp add: nth_unpack)
    with empty rest [of cur] offs show ?thesis by simp
  next
    case full
    have same: "unpack ?D as bs ! k = cur ! k" if "k < Suc i" for k
      using act_eq_start [OF assms(1) le, of i k] full that i le [of k] assms(1) Suc.prems(3)
      by (auto simp: unpack_nth_full)
    have "take (Suc i) (unpack ?D as bs) = take (Suc i) cur"
      using same i assms(1) Suc.prems(2) by (intro nth_equalityI) auto
    with full offs show ?thesis by simp
  next
    case move
    let ?P = "\<lambda>r. fst r < ?act + as ! i"
    have st: "fst (offs ! k) = start_of bs k" if "k < length bs" for k
      using assms(3) [OF that] by (simp add: offsets_of_def)
    obtain j where rp: "rposition ?P offs (Suc i) = Some j"
      using rposition_exists [of 0 "Suc i" ?P offs] st [of 0] move i by fastforce
    have j: "j \<le> i" "start_of bs j < ?act + as ! i"
      using rposition_Some [OF rp] st [of j] i by auto
    have j_end: "?act + as ! i - start_of bs j \<le> length (bs ! j)"
    proof (cases "j = i")
      case True
      then show ?thesis using act le [OF i] by simp
    next
      case False
      then have "\<not> start_of bs (Suc j) < ?act + as ! i"
        using rposition_Some [OF rp] st [of "Suc j"] i j(1) by auto
      then show ?thesis using start_of_Suc [of j bs] i j by simp
    qed
    have "fixup_copy offs i j (?act + as ! i - start_of bs j) (as ! i) cur =
        Ok (cur[i := take (as ! i) (drop ?act ?D) @ drop (as ! i) (cur ! i)])"
      by (rule fixup_copy_correct [where bs = bs])
        (use Suc.prems i j j_end le [OF i] assms(3) in \<open>auto simp: offsets_of_def\<close>)
    then show ?thesis
      using rest [OF refl] offs move rp st [of j] i j(1) assms(1) Suc.prems(3)
      by (simp add: nth_unpack)
  qed
qed

lemma fixup_offsets_Ok:
  "list_all (\<lambda>r. wrr_act r \<le> wrr_init r) rs \<Longrightarrow>
     \<exists>offs. fixup_offsets a b rs = Ok offs \<and> (\<forall>k < length rs. offs ! k =
       (a + start_of (map wrr_rbuf rs) k, b + sum_list (take k (map wrr_act rs)),
        wrr_init (rs ! k), wrr_act (rs ! k)))"
proof (induction rs arbitrary: a b)
  case Nil
  then show ?case by simp
next
  case (Cons r rs)
  from Cons.IH [of "a + wrr_init r" "b + wrr_act r"] Cons.prems obtain offs where
    offs: "fixup_offsets (a + wrr_init r) (b + wrr_act r) rs = Ok offs"
    "\<And>k. k < length rs \<Longrightarrow> offs ! k =
       (a + wrr_init r + start_of (map wrr_rbuf rs) k,
        b + wrr_act r + sum_list (take k (map wrr_act rs)), wrr_init (rs ! k), wrr_act (rs ! k))"
    by auto
  have "((a, b, wrr_init r, wrr_act r) # offs) ! k =
      (a + start_of (map wrr_rbuf (r # rs)) k, b + sum_list (take k (map wrr_act (r # rs))),
       wrr_init ((r # rs) ! k), wrr_act ((r # rs) ! k))" if "k < Suc (length rs)" for k
    using that offs(2) by (cases k) (simp_all add: start_of_def wrr_init_def)
  then have "\<forall>k < length (r # rs). ((a, b, wrr_init r, wrr_act r) # offs) ! k =
      (a + start_of (map wrr_rbuf (r # rs)) k, b + sum_list (take k (map wrr_act (r # rs))),
       wrr_init ((r # rs) ! k), wrr_act ((r # rs) ! k))" by simp
  moreover have "fixup_offsets a b (r # rs) = Ok ((a, b, wrr_init r, wrr_act r) # offs)"
    using offs(1) Cons.prems by (simp add: Let_def)
  ultimately show ?case by blast
qed

lemma fixup_offsets_Panic:
  "\<not> list_all (\<lambda>r. wrr_act r \<le> wrr_init r) rs \<Longrightarrow> fixup_offsets a b rs = Panic"
  by (induction rs arbitrary: a b) (auto simp: Let_def)

lemma fixup_unpack:
  assumes "list_all (\<lambda>r. wrr_act r \<le> wrr_init r) rs"
  shows "fixup_write_read_return_buffers rs =
    Ok (map2 (\<lambda>r b. r\<lparr>wrr_rbuf := b\<rparr>) rs
          (unpack (concat (map wrr_rbuf rs)) (map wrr_act rs) (map wrr_rbuf rs)))"
proof -
  let ?bs = "map wrr_rbuf rs" and ?as = "map wrr_act rs"
  obtain offs where offs: "fixup_offsets 0 0 rs = Ok offs"
    "\<And>k. k < length rs \<Longrightarrow> offs ! k = offsets_of ?bs ?as k"
    using fixup_offsets_Ok [OF assms, of 0 0] by (auto simp: offsets_of_def wrr_init_def)
  have "fixup_loop offs (length ?bs) ?bs =
      Ok (take (length ?bs) (unpack (concat ?bs) ?as ?bs) @ drop (length ?bs) ?bs)"
    by (rule fixup_loop_correct)
      (use assms offs(2) in \<open>auto simp: list_all_length wrr_init_def\<close>)
  with offs(1) show ?thesis by (simp add: fixup_write_read_return_buffers_def)
qed

lemma fixup_panics:
  "\<not> list_all (\<lambda>r. wrr_act r \<le> wrr_init r) rs \<Longrightarrow> fixup_write_read_return_buffers rs = Panic"
  by (simp add: fixup_write_read_return_buffers_def fixup_offsets_Panic)

text \<open>Buffers that hold the packed pieces \<open>ds\<close> give every request its own piece.\<close>

lemma unpack_pieces:
  "list_all2 (\<lambda>d b. length d \<le> length b) ds bs \<Longrightarrow>
     unpack (concat ds @ junk) (map length ds) bs = map2 (\<lambda>d b. d @ drop (length d) b) ds bs"
  by (induction rule: list_all2_induct) auto

lemma list_all2_sum_le:
  "list_all2 (\<lambda>d b. length d \<le> length b) ds bs \<Longrightarrow> length (concat ds) \<le> length (concat bs)"
  by (induction rule: list_all2_induct) auto

text \<open>
  Scatter followed by repair: from buffers \<open>bs\<close> and the packed data \<open>concat ds\<close>, every buffer
  ends up starting with its own piece.
\<close>

lemma fixup_scatter:
  assumes "map wrr_rbuf rs = scatter bs (concat ds)" and "map wrr_act rs = map length ds"
    and "list_all2 (\<lambda>d b. length d \<le> length b) ds bs"
  obtains rs' where "fixup_write_read_return_buffers rs = Ok rs'"
    and "map wrr_res rs' = map wrr_res rs" and "map wrr_req rs' = map wrr_req rs"
    and "map wrr_wbuf rs' = map wrr_wbuf rs"
    and "map (\<lambda>r. take (wrr_act r) (wrr_rbuf r)) rs' = ds"
    and "map wrr_init rs' = map wrr_init rs"
proof -
  let ?bs = "map wrr_rbuf rs"
  let ?out = "map2 (\<lambda>d b. d @ drop (length d) b) ds ?bs"
  let ?rs' = "map2 (\<lambda>r b. r\<lparr>wrr_rbuf := b\<rparr>) rs ?out"
  have lens: "map length ?bs = map length bs" using assms(1) by simp
  have n: "length ds = length rs" using assms(2) by (metis length_map)
  have le: "length (ds ! k) \<le> length (wrr_rbuf (rs ! k))" if "k < length rs" for k
  proof -
    have "length (?bs ! k) = length (bs ! k)"
      using lens that by (metis length_map nth_map)
    with assms(3) n that show ?thesis by (simp add: list_all2_conv_all_nth)
  qed
  have act: "wrr_act (rs ! k) = length (ds ! k)" if "k < length rs" for k
    using arg_cong [OF assms(2), of "\<lambda>l. l ! k"] that n by simp
  have ok: "list_all (\<lambda>r. wrr_act r \<le> wrr_init r) rs"
    using le act by (simp add: list_all_length wrr_init_def)
  have "list_all2 (\<lambda>d b. length d \<le> length b) ds ?bs"
    using le n by (simp add: list_all2_conv_all_nth)
  moreover have "concat ?bs = concat ds @ drop (length (concat ds)) (concat bs)"
    using list_all2_sum_le [OF assms(3)] by (simp add: assms(1) concat_scatter)
  ultimately have "unpack (concat ?bs) (map wrr_act rs) ?bs = ?out"
    by (simp add: assms(2) unpack_pieces)
  then have "fixup_write_read_return_buffers rs = Ok ?rs'"
    using fixup_unpack [OF ok] by simp
  moreover have "map wrr_res ?rs' = map wrr_res rs" "map wrr_req ?rs' = map wrr_req rs"
    "map wrr_wbuf ?rs' = map wrr_wbuf rs" "map wrr_init ?rs' = map wrr_init rs"
    using n le by (auto intro!: nth_equalityI simp: wrr_init_def)
  moreover have "map (\<lambda>r. take (wrr_act r) (wrr_rbuf r)) ?rs' = ds"
    using n act by (auto intro!: nth_equalityI simp: wrr_act_def)
  ultimately show ?thesis using that by blast
qed

section \<open>Properties\<close>

text \<open>
  C2. The in-place repair of the buffers of a sum-up write/read equals the reference that cuts
  the packed data into pieces: when no returned length exceeds its buffer, the repair succeeds
  and buffer \<open>k\<close> starts with exactly the bytes the device returned for request \<open>k\<close>, although the
  copies overlap and read from buffers filled earlier.
\<close>

theorem fixup_refines_unpack:
  assumes "list_all (\<lambda>r. wrr_act r \<le> wrr_init r) rs"
  shows "fixup_write_read_return_buffers rs =
    Ok (map2 (\<lambda>r b. r\<lparr>wrr_rbuf := b\<rparr>) rs
          (unpack (concat (map wrr_rbuf rs)) (map wrr_act rs) (map wrr_rbuf rs)))"
  by (rule fixup_unpack [OF assms])

definition wrr_sample :: "bytes \<Rightarrow> u32 \<Rightarrow> write_read_request" where
  "wrr_sample b n =
     \<lparr>wrr_req = \<lparr>rw_index_group = 0, rw_index_offset = 0, rw_read_length = 0, rw_write_length = 0\<rparr>,
      wrr_res = \<lparr>rl_result = 0, rl_length = n\<rparr>, wrr_wbuf = [], wrr_rbuf = b\<rparr>"

theorem fixup_refines_unpack_witness:
  "fixup_write_read_return_buffers [wrr_sample [1, 2, 3] 2, wrr_sample [4, 0] 2] =
     Ok [wrr_sample [1, 2, 3] 2, wrr_sample [3, 4] 2]"
  using fixup_refines_unpack [of "[wrr_sample [1, 2, 3] 2, wrr_sample [4, 0] 2]"]
  by (simp add: wrr_sample_def wrr_act_def wrr_init_def)

text \<open>
  A device that reports a length beyond the buffer of a request makes the client panic: the
  \<open>assert!\<close> in the scan fails.
\<close>

theorem fixup_panics_on_overlong:
  assumes "\<not> list_all (\<lambda>r. wrr_act r \<le> wrr_init r) rs"
  shows "fixup_write_read_return_buffers rs = Panic"
  by (rule fixup_panics [OF assms])

theorem fixup_panics_on_overlong_witness:
  "fixup_write_read_return_buffers [wrr_sample [1, 2, 3] 4] = Panic"
  by (rule fixup_panics_on_overlong) (simp add: wrr_sample_def wrr_act_def wrr_init_def)

end
