(* ===== verification/Ads_Client.thy ===== *)
theory Ads_Client
  imports Ads_Reader Ads_Fixup
begin

text \<open>
  The client (\<open>Client\<close> in \<open>src/client.rs\<close>): its state, how a connection is set up, and
  \<open>communicate\<close>, through which every operation on a device goes. The operating system and the
  peer are parameters: \<open>net\<close> says what one write of a request leads to.
\<close>

section \<open>State\<close>

record timeouts =
  t_connect :: "duration option"
  t_read :: "duration option"
  t_write :: "duration option"

definition timeouts_new :: "duration \<Rightarrow> timeouts" where
  "timeouts_new d = \<lparr>t_connect = Some d, t_read = Some d, t_write = Some d\<rparr>"

definition timeouts_none :: timeouts where
  "timeouts_none = \<lparr>t_connect = None, t_read = None, t_write = None\<rparr>"

datatype source_spec = Auto | Addr ams_addr | Request

text \<open>
  The pending map as in the reader: an invoke ID leads to a sender, of which it matters
  whether its receiver still exists.
\<close>

record client =
  invoke_id :: u32
  read_timeout :: "duration option"
  source :: ams_addr
  pending :: "u32 \<rightharpoonup> bool"
  notif_handles :: "(ams_addr \<times> handle) set"
  source_port_opened :: bool

section \<open>Setting up a connection\<close>

datatype ip_addr = V4 u8 u8 u8 u8 | V6 bytes

text \<open>What the operating system answers to the calls of \<open>Client::new\<close>.\<close>

record 'sa os_env =
  os_resolve :: "('sa list, io_error) outcome"
  os_connect_timeout :: "'sa \<Rightarrow> duration \<Rightarrow> (unit, io_error) outcome"
  os_connect :: "'sa \<Rightarrow> (unit, io_error) outcome"
  os_set_nodelay :: "(unit, io_error) outcome"
  os_set_write_timeout :: "duration option \<Rightarrow> (unit, io_error) outcome"
  os_set_read_timeout :: "duration option \<Rightarrow> (unit, io_error) outcome"
  os_local_ip :: "(ip_addr, io_error) outcome"
  os_write_port_request :: "bytes \<Rightarrow> (unit, io_error) outcome"
  os_read_port_reply :: "nat \<Rightarrow> (bytes, io_error) outcome"
  os_try_clone :: "(unit, io_error) outcome"
  os_spawn :: "(unit, io_error) outcome"

definition request_port_msg :: bytes where
  "request_port_msg = [0, 16, 2, 0, 0, 0, 0, 0]"

definition close_port_msg :: "ams_addr \<Rightarrow> bytes" where
  "close_port_msg src = [1, 0, 2, 0, 0, 0] @ u16_le (port src)"

definition auto_source :: "ip_addr \<Rightarrow> ams_addr" where
  "auto_source ip =
     (case ip of
        V4 a b c d \<Rightarrow> AmsAddr (AmsNetId a b c d 1 1) 58913
      | V6 _ \<Rightarrow> AmsAddr (AmsNetId 127 0 0 1 1 1) 58913)"

text \<open>The reply to the port request; \<open>from_slice(..).expect("size")\<close> on six bytes.\<close>

definition decode_port_reply :: "bytes \<Rightarrow> ams_addr res" where
  "decode_port_reply reply =
     (if take 6 reply \<noteq> [0, 16, 8, 0, 0, 0]
      then Err (Reply ''requesting port'' ''unexpected reply header'' 0)
      else (case netid_from_slice (take 6 (drop 6 reply)) of
              Some n \<Rightarrow> Ok (AmsAddr n (le_u16 (take 2 (drop 12 reply))))
            | None \<Rightarrow> Panic))"

definition client_source :: "'sa os_env \<Rightarrow> source_spec \<Rightarrow> (ams_addr \<times> bool) res" where
  "client_source os src =
     (case src of
        Addr a \<Rightarrow> Ok (a, False)
      | Auto \<Rightarrow> rmap (\<lambda>ip. (auto_source ip, False)) (ctx (os_local_ip os) ''getting local socket address'')
      | Request \<Rightarrow>
          rbind (ctx (os_write_port_request os request_port_msg) ''requesting port from router'') (\<lambda>_.
          rbind (ctx (os_read_port_reply os 14) ''requesting port from router'') (\<lambda>reply.
          rmap (\<lambda>a. (a, True)) (decode_port_reply reply))))"

text \<open>
  The calling side of \<open>ClientReceiver::start\<close>: \<open>try_clone().expect(..)\<close>, and \<open>thread::spawn\<close>, which panics
  when the system cannot create a thread.
\<close>

definition start_reader :: "'sa os_env \<Rightarrow> unit res" where
  "start_reader os = (if is_ok (os_try_clone os) \<and> is_ok (os_spawn os) then Ok () else Panic)"

definition client_new :: "'sa os_env \<Rightarrow> timeouts \<Rightarrow> source_spec \<Rightarrow> client res" where
  "client_new os t src =
     rbind (ctx (os_resolve os) ''converting address to SocketAddr'') (\<lambda>addrs.
     case addrs of
       [] \<Rightarrow> Err (OtherError ''no destination address could be resolved'')
     | addr # _ \<Rightarrow>
         rbind (case t_connect t of
                  Some d \<Rightarrow> ctx (os_connect_timeout os addr d)
                    ''establishing connetion to remote ADS router (with timeout)''
                | None \<Rightarrow> ctx (os_connect os addr) ''establishing connection to remote ADS router'') (\<lambda>_.
         rbind (ctx (os_set_nodelay os) ''setting client socket NODELAY'') (\<lambda>_.
         rbind (ctx (os_set_write_timeout os (t_write t)) ''setting client socket write timeout'') (\<lambda>_.
         rbind (ctx (os_set_read_timeout os (t_read t)) ''setting client socket read timeout'') (\<lambda>_.
         rbind (client_source os src) (\<lambda>(a, opened).
         rbind (start_reader os) (\<lambda>_.
         Ok \<lparr>invoke_id = 1, read_timeout = t_read t, source = a, pending = Map.empty,
             notif_handles = {}, source_port_opened = opened\<rparr>)))))))"

lemma decode_port_reply_eq_Ok:
  assumes "length reply = 14"
  shows "decode_port_reply reply = Ok a \<longleftrightarrow> reply = [0, 16, 8, 0, 0, 0] @ addr_write_to a"
proof
  assume d: "decode_port_reply reply = Ok a"
  then obtain n where h: "take 6 reply = [0, 16, 8, 0, 0, 0]"
    and n: "netid_from_slice (take 6 (drop 6 reply)) = Some n"
    and a: "a = AmsAddr n (le_u16 (take 2 (drop 12 reply)))"
    by (auto simp: decode_port_reply_def split: if_splits option.splits)
  have "take 2 (drop 12 reply) = drop 12 reply" using assms by simp
  then have "reply = take 6 reply @ take 6 (drop 6 reply) @ take 2 (drop 12 reply)"
    using append_take_drop_id [of 6 reply] append_take_drop_id [of 6 "drop 6 reply"] by simp
  moreover have "take 6 (drop 6 reply) = netid_bytes n" using n by (simp add: netid_from_slice_eq_Some)
  moreover have "take 2 (drop 12 reply) = u16_le (le_u16 (take 2 (drop 12 reply)))"
    using assms by (simp add: u16_le_le_u16)
  ultimately show "reply = [0, 16, 8, 0, 0, 0] @ addr_write_to a"
    by (simp add: h a addr_write_to_def)
next
  assume "reply = [0, 16, 8, 0, 0, 0] @ addr_write_to a"
  then show "decode_port_reply reply = Ok a"
    by (cases a) (simp add: decode_port_reply_def addr_write_to_def)
qed

text \<open>\<open>Client::device\<close>: the address an operation on \<open>addr\<close> is sent to.\<close>

definition device_addr :: "client \<Rightarrow> ams_addr \<Rightarrow> ams_addr" where
  "device_addr cl addr =
     (if netid addr = netid_local then AmsAddr (netid (source cl)) (port addr) else addr)"

section \<open>One request\<close>

text \<open>What arrives on the receiving end of the one-shot channel.\<close>

datatype recv =
    RecvReply ads_header bytes
  | RecvErr error
  | RecvDisconnected
  | RecvTimeout

datatype exchange = WriteErr io_error | Sent recv

type_synonym 'w net = "'w \<Rightarrow> bytes \<Rightarrow> exchange \<times> 'w"
type_synonym 'w conn = "client \<times> 'w"

definition insert_pending_request :: "u32 \<Rightarrow> client \<Rightarrow> client" where
  "insert_pending_request i cl = cl\<lparr>pending := (pending cl)(i \<mapsto> True)\<rparr>"

definition discard_pending_request :: "u32 \<Rightarrow> client \<Rightarrow> client" where
  "discard_pending_request i cl = cl\<lparr>pending := (pending cl)(i := None)\<rparr>"

text \<open>The receiving end goes out of scope while its sender stays in the map.\<close>

definition drop_receiver :: "u32 \<Rightarrow> client \<Rightarrow> client" where
  "drop_receiver i cl = cl\<lparr>pending := (pending cl)(i \<mapsto> False)\<rparr>"

definition request_header :: "command \<Rightarrow> ams_addr \<Rightarrow> ams_addr \<Rightarrow> u32 \<Rightarrow> nat \<Rightarrow> ads_header res" where
  "request_header cmd target src i payload_len =
     rbind (try_u32 (AMS_HEADER_SIZE + payload_len)) (\<lambda>len.
     Ok \<lparr>ams_cmd = 0, hdr_length = len,
         dest_netid = netid target, dest_port = port target,
         src_netid = netid src, src_port = port src,
         hdr_command = command_code cmd, state_flags = 4,
         data_length = of_nat payload_len, error_code = 0, hdr_invoke_id = i\<rparr>)"

abbreviation wait_ctx :: string where
  "wait_ctx \<equiv> ''waiting for response to dispatched request''"

text \<open>The \<open>match\<close> on the read timeout and on what the channel gives.\<close>

definition await_response :: "u32 \<Rightarrow> recv \<Rightarrow> client \<Rightarrow> (ads_header \<times> bytes) res \<times> client" where
  "await_response i r cl =
     (let closed = IoSync wait_ctx ''response channel was closed'' i in
      case read_timeout cl of
        Some _ \<Rightarrow>
          (case r of
             RecvReply h payload \<Rightarrow> (Ok (h, payload), cl)
           | RecvErr e \<Rightarrow> (Err e, discard_pending_request i cl)
           | RecvDisconnected \<Rightarrow> (Err closed, discard_pending_request i cl)
           | RecvTimeout \<Rightarrow> (Err (Io wait_ctx (io_of_kind TimedOut)), discard_pending_request i cl))
      | None \<Rightarrow>
          (case r of
             RecvReply h payload \<Rightarrow> (Ok (h, payload), cl)
           | RecvErr e \<Rightarrow> (Err e, discard_pending_request i cl)
           | _ \<Rightarrow> (Err closed, discard_pending_request i cl)))"

text \<open>The checks on the reply and the distribution of its data.\<close>

definition check_reply ::
  "command \<Rightarrow> ams_addr \<Rightarrow> u32 \<Rightarrow> bytes list \<Rightarrow> ads_header \<Rightarrow> bytes \<Rightarrow> (nat \<times> bytes list) res" where
  "check_reply cmd target i result_bufs h resp_buf =
     (if (src_netid h, src_port h) \<noteq> (netid target, port target) then
        Err (Reply (action cmd) ''response wasn't from commanded target'' 0)
      else if hdr_command h \<noteq> command_code cmd then
        Err (Reply (action cmd) ''unexpected command'' (ucast (hdr_command h)))
      else if state_flags h \<noteq> 5 then
        Err (Reply (action cmd) ''unexpected state flags'' (ucast (state_flags h)))
      else if hdr_invoke_id h \<noteq> i then
        Err (Reply (action cmd) ''unexpected invoke ID'' (hdr_invoke_id h))
      else if error_code h \<noteq> 0 then ads_error (action cmd) (error_code h)
      else
        rbind (slice_of resp_buf 0 4) (\<lambda>b.
        let result = le_u32 b in
        if result \<noteq> 0 then ads_error (action cmd) result
        else if result_bufs = [] then Ok (0, [])
        else if length resp_buf < length (hd result_bufs) + 4 then
          Err (Reply (action cmd) ''got less data than expected'' (of_nat (length resp_buf)))
        else
          rbind (slice_of resp_buf 4 (length resp_buf)) (\<lambda>data.
          rmap (\<lambda>bs. (length data, bs)) (distribute data 0 (length data) result_bufs))))"

text \<open>
  The reader thread takes the entry out of the map before it sends a reply or an error, so
  the caller finds it gone.
\<close>

definition taken_by_reader :: "u32 \<Rightarrow> recv \<Rightarrow> client \<Rightarrow> client" where
  "taken_by_reader i r cl =
     (case r of
        RecvReply _ _ \<Rightarrow> discard_pending_request i cl
      | RecvErr _ \<Rightarrow> discard_pending_request i cl
      | _ \<Rightarrow> cl)"

definition communicate ::
  "'w net \<Rightarrow> command \<Rightarrow> ams_addr \<Rightarrow> bytes list \<Rightarrow> bytes list \<Rightarrow>
     ('w conn, nat \<times> bytes list, error) io" where
  "communicate net cmd target payload_bufs result_bufs s =
     (let (cl, w) = s;
          i = invoke_id cl;
          cl1 = cl\<lparr>invoke_id := i + 1\<rparr>;
          payload_len = sum_list (map length payload_bufs)
      in case request_header cmd target (source cl) i payload_len of
           Err e \<Rightarrow> (Err e, (cl1, w))
         | Panic \<Rightarrow> (Panic, (cl1, w))
         | Ok header \<Rightarrow>
             let request_buf = ads_header_bytes header @ concat payload_bufs;
                 cl2 = insert_pending_request i cl1
             in case net w request_buf of
                  (WriteErr e, w') \<Rightarrow>
                    (Err (Io ''dispatching assembled command payload'' e), (drop_receiver i cl2, w'))
                | (Sent r, w') \<Rightarrow>
                    (case await_response i r (taken_by_reader i r cl2) of
                       (Ok (h, resp_buf), cl3) \<Rightarrow>
                         (check_reply cmd target i result_bufs h resp_buf, (cl3, w'))
                     | (Err e, cl3) \<Rightarrow> (Err e, (cl3, w'))
                     | (Panic, cl3) \<Rightarrow> (Panic, (cl3, w'))))"

section \<open>Replies\<close>

text \<open>The header of a reply that answers request \<open>i\<close>.\<close>

definition reply_to :: "command \<Rightarrow> ams_addr \<Rightarrow> u32 \<Rightarrow> ads_header \<Rightarrow> bool" where
  "reply_to cmd target i h \<longleftrightarrow>
     src_netid h = netid target \<and> src_port h = port target \<and> hdr_command h = command_code cmd \<and>
     state_flags h = 5 \<and> hdr_invoke_id h = i \<and> error_code h = 0"

definition room_for :: "bytes list \<Rightarrow> bytes \<Rightarrow> bool" where
  "room_for bufs data \<longleftrightarrow> bufs = [] \<or> length (hd bufs) \<le> length data"

lemma check_reply_not_reply_to:
  "\<not> reply_to cmd target i h \<Longrightarrow> \<exists>e. check_reply cmd target i bufs h resp = Err e"
  by (auto simp: check_reply_def reply_to_def ads_error_map_of simp del: command_code.simps)

lemma check_reply_reply_to:
  assumes "reply_to cmd target i h"
  shows "check_reply cmd target i bufs h resp =
    (if length resp < 4 then Panic
     else if le_u32 (take 4 resp) \<noteq> 0 then ads_error (action cmd) (le_u32 (take 4 resp))
     else if bufs = [] then Ok (0, [])
     else if length resp < length (hd bufs) + 4
       then Err (Reply (action cmd) ''got less data than expected'' (of_nat (length resp)))
     else Ok (length resp - 4, scatter bufs (drop 4 resp)))"
  using assms
  by (simp add: check_reply_def reply_to_def slice_of_def Let_def distribute_scatter
      del: command_code.simps distribute.simps)

lemma check_reply_data:
  assumes "reply_to cmd target i h" and "room_for bufs data"
  shows "check_reply cmd target i bufs h (u32_le 0 @ data) =
    Ok (if bufs = [] then 0 else length data, scatter bufs data)"
  using assms by (auto simp: check_reply_reply_to room_for_def)

lemma u32_le_inj: "length b = 4 \<Longrightarrow> le_u32 b = w \<Longrightarrow> b = u32_le w"
  using u32_le_le_u32 by metis

lemma check_reply_eq_Ok:
  "check_reply cmd target i bufs h resp = Ok (n, bs) \<longleftrightarrow>
     reply_to cmd target i h \<and>
     (\<exists>data. resp = u32_le 0 @ data \<and> room_for bufs data \<and>
        n = (if bufs = [] then 0 else length data) \<and> bs = scatter bufs data)"
proof
  assume ok: "check_reply cmd target i bufs h resp = Ok (n, bs)"
  then have r: "reply_to cmd target i h"
    using check_reply_not_reply_to [of cmd target i h bufs resp] by (cases "reply_to cmd target i h") auto
  have len: "4 \<le> length resp" and zero: "le_u32 (take 4 resp) = 0"
    using ok by (auto simp: check_reply_reply_to [OF r] split: if_splits)
  then have "resp = u32_le 0 @ drop 4 resp"
    using u32_le_inj [of "take 4 resp" 0] by (metis append_take_drop_id length_take min.absorb2)
  moreover have "room_for bufs (drop 4 resp) \<and> n = (if bufs = [] then 0 else length (drop 4 resp)) \<and>
      bs = scatter bufs (drop 4 resp)"
    using ok by (auto simp: check_reply_reply_to [OF r] room_for_def split: if_splits)
  ultimately show "reply_to cmd target i h \<and> (\<exists>data. resp = u32_le 0 @ data \<and> room_for bufs data \<and>
      n = (if bufs = [] then 0 else length data) \<and> bs = scatter bufs data)"
    using r by blast
qed (auto simp: check_reply_data)

lemma check_reply_Panic:
  "check_reply cmd target i bufs h resp = Panic \<longleftrightarrow> reply_to cmd target i h \<and> length resp < 4"
proof (cases "reply_to cmd target i h")
  case True
  then show ?thesis by (simp add: check_reply_reply_to)
next
  case False
  with check_reply_not_reply_to [OF False, of bufs resp] show ?thesis by auto
qed

section \<open>The exchange as a whole\<close>

text \<open>The bytes of a request, as they are handed to the socket.\<close>

definition request_bytes :: "client \<Rightarrow> command \<Rightarrow> ams_addr \<Rightarrow> bytes list \<Rightarrow> bytes" where
  "request_bytes cl cmd target bufs =
     ads_header_bytes
       \<lparr>ams_cmd = 0, hdr_length = of_nat (32 + length (concat bufs)),
        dest_netid = netid target, dest_port = port target,
        src_netid = netid (source cl), src_port = port (source cl),
        hdr_command = command_code cmd, state_flags = 4,
        data_length = of_nat (length (concat bufs)), error_code = 0, hdr_invoke_id = invoke_id cl\<rparr>
     @ concat bufs"

abbreviation fits :: "bytes list \<Rightarrow> bool" where
  "fits bufs \<equiv> 32 + length (concat bufs) < 4294967296"

definition next_request :: "client \<Rightarrow> client" where
  "next_request cl = cl\<lparr>invoke_id := invoke_id cl + 1, pending := (pending cl)(invoke_id cl := None)\<rparr>"

lemma communicate_too_long:
  "\<not> fits ws \<Longrightarrow> communicate net cmd target ws rs (cl, w) =
     (Err Overflow, (cl\<lparr>invoke_id := invoke_id cl + 1\<rparr>, w))"
  by (simp add: communicate_def request_header_def try_u32_def length_concat Let_def)

lemma communicate_fits:
  assumes "fits ws"
  shows "communicate net cmd target ws rs (cl, w) =
    (case net w (request_bytes cl cmd target ws) of
       (WriteErr e, w') \<Rightarrow>
         (Err (Io ''dispatching assembled command payload'' e),
          (drop_receiver (invoke_id cl) (next_request cl), w'))
     | (Sent r, w') \<Rightarrow>
         (case r of
            RecvReply h resp \<Rightarrow> check_reply cmd target (invoke_id cl) rs h resp
          | RecvErr e \<Rightarrow> Err e
          | RecvDisconnected \<Rightarrow> Err (IoSync wait_ctx ''response channel was closed'' (invoke_id cl))
          | RecvTimeout \<Rightarrow>
              (if read_timeout cl = None
               then Err (IoSync wait_ctx ''response channel was closed'' (invoke_id cl))
               else Err (Io wait_ctx (io_of_kind TimedOut))),
          (next_request cl, w')))"
proof -
  have "request_header cmd target (source cl) (invoke_id cl) (sum_list (map length ws)) =
      Ok \<lparr>ams_cmd = 0, hdr_length = of_nat (32 + length (concat ws)),
        dest_netid = netid target, dest_port = port target,
        src_netid = netid (source cl), src_port = port (source cl),
        hdr_command = command_code cmd, state_flags = 4,
        data_length = of_nat (length (concat ws)), error_code = 0, hdr_invoke_id = invoke_id cl\<rparr>"
    using assms by (simp add: request_header_def try_u32_def length_concat)
  then show ?thesis
    by (simp add: communicate_def request_bytes_def Let_def await_response_def taken_by_reader_def
        insert_pending_request_def discard_pending_request_def drop_receiver_def next_request_def
        split: prod.split exchange.split recv.split option.split)
qed

lemma communicate_reply:
  assumes "fits ws" and "net w (request_bytes cl cmd target ws) = (Sent (RecvReply h (u32_le 0 @ data)), w')"
    and "reply_to cmd target (invoke_id cl) h" and "room_for rs data"
  shows "communicate net cmd target ws rs (cl, w) =
    (Ok (if rs = [] then 0 else length data, scatter rs data), (next_request cl, w'))"
  by (simp add: communicate_fits [OF assms(1)] assms(2) check_reply_data [OF assms(3,4)])

lemma communicate_eq_Ok:
  assumes "communicate net cmd target ws rs (cl, w) = (Ok (n, rs'), (cl', w'))"
  obtains h data where "fits ws"
    and "net w (request_bytes cl cmd target ws) = (Sent (RecvReply h (u32_le 0 @ data)), w')"
    and "reply_to cmd target (invoke_id cl) h" and "room_for rs data"
    and "n = (if rs = [] then 0 else length data)" and "rs' = scatter rs data"
    and "cl' = next_request cl"
proof -
  have f: "fits ws" using assms communicate_too_long [of ws net cmd target rs cl w] by auto
  obtain x w1 where x: "net w (request_bytes cl cmd target ws) = (x, w1)" by fastforce
  obtain h resp where h: "x = Sent (RecvReply h resp)" "w1 = w'"
    and ok: "check_reply cmd target (invoke_id cl) rs h resp = Ok (n, rs')" "cl' = next_request cl"
    using assms by (auto simp: communicate_fits [OF f] x split: exchange.splits recv.splits if_splits)
  from ok(1) obtain data where "reply_to cmd target (invoke_id cl) h" "resp = u32_le 0 @ data"
    "room_for rs data" "n = (if rs = [] then 0 else length data)" "rs' = scatter rs data"
    by (auto simp: check_reply_eq_Ok)
  with f x h ok(2) that show ?thesis by blast
qed

text \<open>What \<open>communicate\<close> leaves of the client, whatever the outcome.\<close>

lemma communicate_client:
  assumes "communicate net cmd target ws rs (cl, w) = (r, (cl', w'))"
  shows "invoke_id cl' = invoke_id cl + 1" "notif_handles cl' = notif_handles cl"
    "source cl' = source cl" "read_timeout cl' = read_timeout cl"
    "source_port_opened cl' = source_port_opened cl"
    "\<And>j. j \<noteq> invoke_id cl \<Longrightarrow> pending cl' j = pending cl j"
proof -
  have "invoke_id cl' = invoke_id cl + 1 \<and> notif_handles cl' = notif_handles cl \<and>
    source cl' = source cl \<and> read_timeout cl' = read_timeout cl \<and>
    source_port_opened cl' = source_port_opened cl \<and>
    (\<forall>j. j \<noteq> invoke_id cl \<longrightarrow> pending cl' j = pending cl j)"
  proof (cases "fits ws")
    case True
    then show ?thesis
      using assms
      by (auto simp: communicate_fits next_request_def drop_receiver_def split: prod.splits exchange.splits)
  next
    case False
    with assms show ?thesis by (auto simp: communicate_too_long)
  qed
  then show "invoke_id cl' = invoke_id cl + 1" "notif_handles cl' = notif_handles cl"
    "source cl' = source cl" "read_timeout cl' = read_timeout cl"
    "source_port_opened cl' = source_port_opened cl"
    "\<And>j. j \<noteq> invoke_id cl \<Longrightarrow> pending cl' j = pending cl j" by auto
qed

section \<open>The interface of the device operations\<close>

text \<open>
  What the operations of a device rely on: a successful exchange cuts some data along the
  result buffers, filling at least the first one, and nothing but the invoke ID and the
  pending map of the client changes.
\<close>

locale transport =
  fixes comm :: "command \<Rightarrow> ams_addr \<Rightarrow> bytes list \<Rightarrow> bytes list \<Rightarrow>
    ('w conn, nat \<times> bytes list, error) io"
  assumes delivers: "comm cmd target ws rs s = (Ok (n, rs'), s') \<Longrightarrow>
      \<exists>data. room_for rs data \<and> rs' = scatter rs data \<and> n = (if rs = [] then 0 else length data)"
    and keeps: "comm cmd target ws rs s = (r, s') \<Longrightarrow>
      notif_handles (fst s') = notif_handles (fst s) \<and> source (fst s') = source (fst s) \<and>
      source_port_opened (fst s') = source_port_opened (fst s)"
begin

lemma lengths: "comm cmd target ws rs s = (Ok (n, rs'), s') \<Longrightarrow> map length rs' = map length rs"
  using delivers by fastforce

lemma first_filled:
  "comm cmd target ws (b # bs) s = (Ok (n, rs'), s') \<Longrightarrow>
     \<exists>b' data. rs' = b' # scatter bs data \<and> length b' = length b"
  using delivers by (fastforce simp: room_for_def)

end

interpretation tcp: transport "communicate net" for net
proof unfold_locales
  fix cmd target ws rs s n rs' s'
  assume c: "communicate net cmd target ws rs s = (Ok (n, rs'), s')"
  obtain cl w cl' w' where "s = (cl, w)" "s' = (cl', w')" by fastforce
  with c show "\<exists>data. room_for rs data \<and> rs' = scatter rs data \<and> n = (if rs = [] then 0 else length data)"
    by (blast elim: communicate_eq_Ok)
next
  fix cmd target ws rs s r s'
  assume c: "communicate net cmd target ws rs s = (r, s')"
  obtain cl w cl' w' where "s = (cl, w)" "s' = (cl', w')" by fastforce
  with c show "notif_handles (fst s') = notif_handles (fst s) \<and> source (fst s') = source (fst s) \<and>
      source_port_opened (fst s') = source_port_opened (fst s)"
    using communicate_client [of net cmd target ws rs cl w r cl' w'] by simp
qed

section \<open>Properties\<close>

text \<open>A client and a peer for the examples: the peer answers every request the same way.\<close>

definition demo_client :: client where
  "demo_client = \<lparr>invoke_id = 1, read_timeout = None, source = AmsAddr netid_local 58913,
     pending = Map.empty, notif_handles = {}, source_port_opened = False\<rparr>"

definition demo_addr :: ams_addr where
  "demo_addr = AmsAddr (AmsNetId 5 6 7 8 1 1) 851"

definition demo_header :: "command \<Rightarrow> ads_header" where
  "demo_header cmd = \<lparr>ams_cmd = 0, hdr_length = 0, dest_netid = netid_local, dest_port = 58913,
     src_netid = AmsNetId 5 6 7 8 1 1, src_port = 851, hdr_command = command_code cmd,
     state_flags = 5, data_length = 0, error_code = 0, hdr_invoke_id = 1\<rparr>"

definition demo_net :: "command \<Rightarrow> bytes \<Rightarrow> unit net" where
  "demo_net cmd resp w req = (Sent (RecvReply (demo_header cmd) resp), w)"

lemma demo_reply: "reply_to cmd demo_addr (invoke_id demo_client) (demo_header cmd)"
  by (simp add: reply_to_def demo_addr_def demo_client_def demo_header_def)

text \<open>A peer that answers any request with the same data.\<close>

definition echo_net :: "bytes \<Rightarrow> unit net" where
  "echo_net resp w req =
     (case ads_header_read (take 38 req) of
        Some h \<Rightarrow>
          (Sent (RecvReply (h\<lparr>src_netid := dest_netid h, src_port := dest_port h, state_flags := 5\<rparr>) resp), w)
      | None \<Rightarrow> (Sent RecvDisconnected, w))"

lemma echo_communicate:
  assumes "fits ws" and "room_for rs data"
  shows "communicate (echo_net (u32_le 0 @ data)) cmd target ws rs (cl, w) =
    (Ok (if rs = [] then 0 else length data, scatter rs data), (next_request cl, w))"
proof -
  obtain h where h: "ads_header_read (take 38 (request_bytes cl cmd target ws)) = Some h"
    "dest_netid h = netid target" "dest_port h = port target" "hdr_command h = command_code cmd"
    "hdr_invoke_id h = invoke_id cl" "error_code h = 0"
    by (simp add: request_bytes_def)
  show ?thesis
  proof (rule communicate_reply [OF assms(1) _ _ assms(2)])
    show "echo_net (u32_le 0 @ data) w (request_bytes cl cmd target ws) =
      (Sent (RecvReply (h\<lparr>src_netid := dest_netid h, src_port := dest_port h, state_flags := 5\<rparr>)
        (u32_le 0 @ data)), w)" using h(1) by (simp add: echo_net_def)
    show "reply_to cmd target (invoke_id cl)
      (h\<lparr>src_netid := dest_netid h, src_port := dest_port h, state_flags := 5\<rparr>)"
      using h by (simp add: reply_to_def)
  qed
qed

text \<open>A peer that answers one request after another from a list of payloads.\<close>

definition replay_net :: "bytes list net" where
  "replay_net w req = (fst (echo_net (hd w) () req), tl w)"

lemma replay_communicate:
  assumes "fits ws"
  shows "communicate replay_net cmd target ws rs (cl, resp # w) =
    (if length resp < 4 then Panic
     else if le_u32 (take 4 resp) \<noteq> 0 then ads_error (action cmd) (le_u32 (take 4 resp))
     else if rs = [] then Ok (0, [])
     else if length resp < length (hd rs) + 4
       then Err (Reply (action cmd) ''got less data than expected'' (of_nat (length resp)))
     else Ok (length resp - 4, scatter rs (drop 4 resp)), (next_request cl, w))"
proof -
  obtain h where h: "ads_header_read (take 38 (request_bytes cl cmd target ws)) = Some h"
    "dest_netid h = netid target" "dest_port h = port target" "hdr_command h = command_code cmd"
    "hdr_invoke_id h = invoke_id cl" "error_code h = 0"
    by (simp add: request_bytes_def)
  then have "reply_to cmd target (invoke_id cl)
      (h\<lparr>src_netid := dest_netid h, src_port := dest_port h, state_flags := 5\<rparr>)"
    by (simp add: reply_to_def)
  with h(1) show ?thesis
    by (simp add: communicate_fits [OF assms] replay_net_def echo_net_def check_reply_reply_to)
qed

text \<open>
  C9. A successful \<open>communicate\<close> means that the peer's answer to exactly the request bytes came
  from the commanded target with the same command and invoke ID, without error in header or
  result field, and that the caller's buffers hold the answer's data cut along their lengths,
  with at least the first buffer full.
\<close>

theorem communicate_sound:
  assumes "communicate net cmd target ws rs (cl, w) = (Ok (n, rs'), (cl', w'))"
  shows "\<exists>h data. net w (request_bytes cl cmd target ws) = (Sent (RecvReply h (u32_le 0 @ data)), w') \<and>
    reply_to cmd target (invoke_id cl) h \<and> room_for rs data \<and>
    n = (if rs = [] then 0 else length data) \<and> rs' = scatter rs data"
  using assms by (blast elim: communicate_eq_Ok)

theorem communicate_sound_witness:
  "fst (communicate (demo_net Read (u32_le 0 @ [9, 8])) Read demo_addr [] [[0], [0, 0]] (demo_client, ())) =
     Ok (2, [[9], [8, 0]]) \<and>
   (\<exists>h data. demo_net Read (u32_le 0 @ [9, 8]) () (request_bytes demo_client Read demo_addr []) =
        (Sent (RecvReply h (u32_le 0 @ data)), ()) \<and>
      reply_to Read demo_addr (invoke_id demo_client) h \<and> room_for [[0], [0, 0]] data \<and>
      2 = (if [[0], [0, 0]] = ([] :: bytes list) then 0 else length data) \<and>
      [[9], [8, 0]] = scatter [[0], [0, 0]] data)"
proof -
  have c: "communicate (demo_net Read (u32_le 0 @ [9, 8])) Read demo_addr [] [[0], [0, 0]] (demo_client, ()) =
      (Ok (2, [[9], [8, 0]]), (next_request demo_client, ()))"
    using communicate_reply [of "[]" "demo_net Read (u32_le 0 @ [9, 8])" "()" demo_client Read demo_addr
        "demo_header Read" "[9, 8]" "()" "[[0], [0, 0]]"] demo_reply
    by (simp add: demo_net_def room_for_def)
  show ?thesis using communicate_sound [OF c] c by simp
qed

text \<open>
  C28. \<open>communicate\<close> panics in exactly one situation: the peer answers with a matching header
  that reports no error, but with a payload too short for the result field.
\<close>

theorem communicate_panic_iff:
  "fst (communicate net cmd target ws rs (cl, w)) = Panic \<longleftrightarrow>
     32 + length (concat ws) < 2 ^ 32 \<and>
     (\<exists>h resp w'. net w (request_bytes cl cmd target ws) = (Sent (RecvReply h resp), w') \<and>
        reply_to cmd target (invoke_id cl) h \<and> length resp < 4)"
proof (cases "fits ws")
  case True
  then show ?thesis
    by (auto simp: communicate_fits check_reply_Panic split: prod.splits exchange.splits recv.splits)
next
  case False
  then show ?thesis by (simp add: communicate_too_long)
qed

text \<open>
  C31. After \<open>communicate\<close>, for a payload that fits a frame, the request is out of the pending map, whatever the outcome, with one
  exception: when the write to the socket fails, its entry stays behind although nobody waits
  for it. All other entries are kept and the invoke ID counter has advanced by one.
\<close>

theorem communicate_pending:
  assumes "communicate net cmd target ws rs (cl, w) = (r, (cl', w'))"
    and "32 + length (concat ws) < 2 ^ 32"
  shows "invoke_id cl' = invoke_id cl + 1 \<and>
    pending cl' = (pending cl)(invoke_id cl :=
      (case fst (net w (request_bytes cl cmd target ws)) of WriteErr e \<Rightarrow> Some False | Sent x \<Rightarrow> None))"
  using assms
  by (auto simp: communicate_fits next_request_def drop_receiver_def split: prod.splits exchange.splits)

theorem communicate_pending_witness:
  "pending (fst (snd (communicate (\<lambda>w b. (WriteErr (io_of_kind TimedOut), w)) Read demo_addr [] []
     (demo_client, ())))) 1 = Some False"
proof -
  let ?c = "communicate (\<lambda>w b. (WriteErr (io_of_kind TimedOut), w)) Read demo_addr [] [] (demo_client, ())"
  have "?c = (fst ?c, (fst (snd ?c), snd (snd ?c)))" by (simp only: prod.collapse)
  from communicate_pending [OF this] show ?thesis by (simp add: demo_client_def)
qed

text \<open>A network that also keeps the messages it is handed, each \<open>write_all\<close> on the socket as one.\<close>

definition recording :: "'w net \<Rightarrow> ('w \<times> bytes list) net" where
  "recording net s req = (case s of (w, log) \<Rightarrow> case net w req of (x, w') \<Rightarrow> (x, (w', log @ [req])))"

text \<open>
  C33. A call of \<open>communicate\<close> whose payload fits a frame writes to the socket exactly once, whatever the
  network answers: one well-formed frame with the payload buffers joined, from the client's own
  address to the target, with consistent length fields, the command, the state flags and error
  code of a request and the current invoke ID, so that the other end reads this header back. For a
  payload that does not fit, nothing is written and the call reports the overflow.
\<close>

theorem request_is_frame:
  assumes "communicate (recording net) cmd target ws rs (cl, (w, log)) = (r, (cl', (w', log')))"
  shows "if 32 + length (concat ws) < 2 ^ 32
    then \<exists>h. log' = log @ [ads_header_bytes h @ concat ws] \<and> wf_frame target (h, concat ws) \<and>
      ads_header_read (ads_header_bytes h) = Some h \<and>
      AmsAddr (src_netid h) (src_port h) = source cl \<and> hdr_command h = command_code cmd \<and>
      state_flags h = 4 \<and> error_code h = 0 \<and> hdr_invoke_id h = invoke_id cl
    else r = Err Overflow \<and> log' = log \<and> w' = w"
proof (cases "fits ws")
  case True
  let ?h = "\<lparr>ams_cmd = 0, hdr_length = of_nat (32 + length (concat ws)),
    dest_netid = netid target, dest_port = port target, src_netid = netid (source cl), src_port = port (source cl),
    hdr_command = command_code cmd, state_flags = 4, data_length = of_nat (length (concat ws)), error_code = 0,
    hdr_invoke_id = invoke_id cl\<rparr>"
  have "log' = log @ [request_bytes cl cmd target ws]"
    using assms by (auto simp: communicate_fits [OF True] recording_def split: prod.splits exchange.splits)
  moreover have "request_bytes cl cmd target ws = ads_header_bytes ?h @ concat ws" by (simp add: request_bytes_def)
  moreover have "wf_frame target (?h, concat ws)" using True by (simp add: wf_frame_def add.commute)
  ultimately show ?thesis using True by (cases "source cl") (auto intro!: exI [of _ ?h])
next
  case False
  with assms show ?thesis by (auto simp: communicate_too_long)
qed

theorem request_is_frame_witness:
  "\<exists>h r cl'. communicate (recording (echo_net (u32_le 0))) Write demo_addr [[1, 2], [3]] [] (demo_client, ((), [])) =
      (r, (cl', ((), [ads_header_bytes h @ [1, 2, 3]]))) \<and>
    wf_frame demo_addr (h, [1, 2, 3]) \<and> hdr_command h = command_code Write \<and> hdr_invoke_id h = 1"
proof -
  let ?c = "communicate (recording (echo_net (u32_le 0))) Write demo_addr [[1, 2], [3]] [] (demo_client, ((), []))"
  obtain r cl' log where c: "?c = (r, (cl', ((), log)))" by (metis prod_cases4 unit.exhaust)
  with request_is_frame [OF c] show ?thesis by (auto simp: demo_client_def)
qed

text \<open>
  A connection that asks the router for a port uses the address of the router's reply, and
  remembers to give the port back; a reply with another header is refused.
\<close>

theorem client_source_request:
  assumes "os_write_port_request os request_port_msg = Ok ()" and "os_read_port_reply os 14 = Ok reply"
    and "length reply = 14"
  shows "client_source os Request = Ok (a, True) \<longleftrightarrow> reply = [0, 16, 8, 0, 0, 0] @ addr_write_to a"
proof -
  have "client_source os Request = rmap (\<lambda>a. (a, True)) (decode_port_reply reply)"
    using assms by (simp add: client_source_def)
  with decode_port_reply_eq_Ok [OF assms(3)] show ?thesis by simp
qed

definition demo_os :: "unit os_env" where
  "demo_os = \<lparr>os_resolve = Ok [()], os_connect_timeout = (\<lambda>_ _. Ok ()), os_connect = (\<lambda>_. Ok ()),
     os_set_nodelay = Ok (), os_set_write_timeout = (\<lambda>_. Ok ()), os_set_read_timeout = (\<lambda>_. Ok ()),
     os_local_ip = Ok (V4 10 0 0 1), os_write_port_request = (\<lambda>_. Ok ()),
     os_read_port_reply = (\<lambda>_. Ok ([0, 16, 8, 0, 0, 0] @ addr_write_to demo_addr)),
     os_try_clone = Ok (), os_spawn = Ok ()\<rparr>"

theorem client_source_request_witness:
  "client_source demo_os Request = Ok (demo_addr, True)"
  using client_source_request [of demo_os "[0, 16, 8, 0, 0, 0] @ addr_write_to demo_addr" demo_addr]
  by (simp add: demo_os_def addr_write_to_def)

end
