(* ===== verification/Ads_Session.thy ===== *)
theory Ads_Session
  imports Ads_Client
begin

text \<open>
  The client as a concurrent system: any number of calls of \<open>communicate\<close>, the reader thread
  and the network take turns. One step is one access to what they share, the invoke ID
  counter, the pending map, a one-shot channel or the socket. The reader takes its packets
  with \<^const>\<open>recv_packet\<close>, as in the sequential model.
\<close>

section \<open>States\<close>

text \<open>A one-shot channel: nothing sent yet, a message, or a sender that was dropped.\<close>

datatype chan = Empty | Full "(ads_header \<times> bytes) res" | Closed

text \<open>
  How far one call of \<open>communicate\<close> is: before it, with its invoke ID, after
  \<open>insert_pending_request\<close>, after the write, on its way out through
  \<open>discard_pending_request\<close>, and the ways it ends.
\<close>

datatype phase =
    Fresh
  | Numbered u32
  | Registered u32
  | Waiting u32
  | Discarding u32 error
  | Replied u32 ads_header bytes
  | Failed error
  | WriteFailed u32 io_error

text \<open>
  The reader thread: in its loop, after the loop has returned an error, after the shutdown of
  the socket, at its end, or unwound by a panic.
\<close>

datatype reader = Running | Ended error | Shut error | Stopped | Panicked

record session =
  s_next :: u32
  s_pending :: "u32 \<rightharpoonup> nat"
  s_phase :: "nat \<Rightarrow> phase"
  s_chan :: "nat \<Rightarrow> chan"
  s_reader :: reader
  s_input :: bytes

definition session_init :: "session \<Rightarrow> bool" where
  "session_init s \<longleftrightarrow>
     s_next s = 1 \<and> s_pending s = Map.empty \<and> (\<forall>c. s_phase s c = Fresh \<and> s_chan s c = Empty) \<and>
     s_reader s = Running \<and> s_input s = []"

text \<open>The receiving end lives until \<open>communicate\<close> returns.\<close>

fun receiver_lives :: "phase \<Rightarrow> bool" where
  "receiver_lives (Registered _) = True"
| "receiver_lives (Waiting _) = True"
| "receiver_lives (Discarding _ _) = True"
| "receiver_lives _ = False"

text \<open>Dropping the sender that \<open>i\<close> leads to, if there is one.\<close>

definition close_sender :: "session \<Rightarrow> u32 \<Rightarrow> nat \<Rightarrow> chan" where
  "close_sender s i =
     (case s_pending s i of
        None \<Rightarrow> s_chan s
      | Some c \<Rightarrow> (s_chan s)(c := (if s_chan s c = Empty then Closed else s_chan s c)))"

section \<open>Steps\<close>

inductive session_step :: "ams_addr \<Rightarrow> bool \<Rightarrow> session \<Rightarrow> session \<Rightarrow> bool"
  for src :: ams_addr and timeout :: bool
where
  take_id: "s_phase s c = Fresh \<Longrightarrow>
    session_step src timeout s
      (s\<lparr>s_next := s_next s + 1, s_phase := (s_phase s)(c := Numbered (s_next s))\<rparr>)"
| register: "s_phase s c = Numbered i \<Longrightarrow>
    session_step src timeout s
      (s\<lparr>s_pending := (s_pending s)(i \<mapsto> c), s_phase := (s_phase s)(c := Registered i),
         s_chan := (close_sender s i)(c := Empty)\<rparr>)"
| write_ok: "s_phase s c = Registered i \<Longrightarrow> \<forall>e. s_reader s \<noteq> Shut e \<Longrightarrow> s_reader s \<noteq> Stopped \<Longrightarrow>
    session_step src timeout s (s\<lparr>s_phase := (s_phase s)(c := Waiting i)\<rparr>)"
| write_err: "s_phase s c = Registered i \<Longrightarrow>
    session_step src timeout s (s\<lparr>s_phase := (s_phase s)(c := WriteFailed i e)\<rparr>)"
| arrive: "session_step src timeout s (s\<lparr>s_input := s_input s @ bs\<rparr>)"
| read_reply: "s_reader s = Running \<Longrightarrow> recv_packet fin src (s_input s) = Ok (ReplyPkt h p, rest) \<Longrightarrow>
    s_pending s (hdr_invoke_id h) = Some c \<Longrightarrow> receiver_lives (s_phase s c) \<Longrightarrow>
    session_step src timeout s
      (s\<lparr>s_pending := (s_pending s)(hdr_invoke_id h := None),
         s_chan := (s_chan s)(c := Full (Ok (h, p))), s_input := rest\<rparr>)"
| read_dead: "s_reader s = Running \<Longrightarrow> recv_packet fin src (s_input s) = Ok (ReplyPkt h p, rest) \<Longrightarrow>
    s_pending s (hdr_invoke_id h) = Some c \<Longrightarrow> \<not> receiver_lives (s_phase s c) \<Longrightarrow>
    session_step src timeout s
      (s\<lparr>s_pending := (s_pending s)(hdr_invoke_id h := None),
         s_reader := Ended (IoSync settle_ctx ''channel closed, couldn't dispatch response''
           (hdr_invoke_id h)), s_input := rest\<rparr>)"
| read_unknown: "s_reader s = Running \<Longrightarrow> recv_packet fin src (s_input s) = Ok (ReplyPkt h p, rest) \<Longrightarrow>
    s_pending s (hdr_invoke_id h) = None \<Longrightarrow>
    session_step src timeout s
      (s\<lparr>s_reader := Ended (Reply settle_ctx
           ''invalid invoke id received from server, aborting connection'' (hdr_invoke_id h)),
         s_input := rest\<rparr>)"
| read_skipped: "s_reader s = Running \<Longrightarrow> recv_packet fin src (s_input s) = Ok (Skipped, rest) \<Longrightarrow>
    session_step src timeout s (s\<lparr>s_input := rest\<rparr>)"
| read_notif: "s_reader s = Running \<Longrightarrow> recv_packet fin src (s_input s) = Ok (NotifPkt n, rest) \<Longrightarrow>
    session_step src timeout s (s\<lparr>s_input := rest\<rparr>)"
| read_error: "s_reader s = Running \<Longrightarrow> recv_packet fin src (s_input s) = Err e \<Longrightarrow>
    session_step src timeout s (s\<lparr>s_reader := Ended e\<rparr>)"
| read_panic: "s_reader s = Running \<Longrightarrow> recv_packet fin src (s_input s) = Panic \<Longrightarrow>
    session_step src timeout s (s\<lparr>s_reader := Panicked\<rparr>)"
| shut: "s_reader s = Ended e \<Longrightarrow> session_step src timeout s (s\<lparr>s_reader := Shut e\<rparr>)"
| drain_all: "s_reader s = Shut e \<Longrightarrow>
    session_step src timeout s
      (s\<lparr>s_reader := Stopped, s_pending := Map.empty,
         s_chan := (\<lambda>c. if c \<in> ran (s_pending s) \<and> receiver_lives (s_phase s c)
                        then Full (Err (error_clone e)) else s_chan s c)\<rparr>)"
| receive_reply: "s_phase s c = Waiting i \<Longrightarrow> s_chan s c = Full (Ok (h, p)) \<Longrightarrow>
    session_step src timeout s (s\<lparr>s_phase := (s_phase s)(c := Replied i h p)\<rparr>)"
| receive_err: "s_phase s c = Waiting i \<Longrightarrow> s_chan s c = Full (Err e) \<Longrightarrow>
    session_step src timeout s (s\<lparr>s_phase := (s_phase s)(c := Discarding i e)\<rparr>)"
| receive_closed: "s_phase s c = Waiting i \<Longrightarrow> s_chan s c = Closed \<Longrightarrow>
    session_step src timeout s
      (s\<lparr>s_phase := (s_phase s)(c := Discarding i (IoSync wait_ctx ''response channel was closed'' i))\<rparr>)"
| receive_timeout: "s_phase s c = Waiting i \<Longrightarrow> s_chan s c = Empty \<Longrightarrow> timeout \<Longrightarrow>
    session_step src timeout s
      (s\<lparr>s_phase := (s_phase s)(c := Discarding i (Io wait_ctx (io_of_kind TimedOut)))\<rparr>)"
| discard: "s_phase s c = Discarding i e \<Longrightarrow>
    session_step src timeout s
      (s\<lparr>s_pending := (s_pending s)(i := None), s_phase := (s_phase s)(c := Failed e),
         s_chan := close_sender s i\<rparr>)"

section \<open>The invariant\<close>

text \<open>The invoke ID under which a call may still stand in the map.\<close>

fun call_id :: "phase \<Rightarrow> u32 option" where
  "call_id (Registered i) = Some i"
| "call_id (Waiting i) = Some i"
| "call_id (Discarding i _) = Some i"
| "call_id (WriteFailed i _) = Some i"
| "call_id _ = None"

definition entries_owned :: "session \<Rightarrow> bool" where
  "entries_owned s \<longleftrightarrow>
     (\<forall>i c. s_pending s i = Some c \<longrightarrow> call_id (s_phase s c) = Some i \<and> s_chan s c = Empty)"

definition not_stranded :: "session \<Rightarrow> bool" where
  "not_stranded s \<longleftrightarrow>
     (\<forall>c i. s_chan s c = Empty \<longrightarrow>
        (s_phase s c = Registered i \<longrightarrow> s_pending s i = Some c) \<and>
        (s_phase s c = Waiting i \<longrightarrow> s_pending s i = Some c \<and> s_reader s \<noteq> Stopped))"

definition own_reply :: "session \<Rightarrow> bool" where
  "own_reply s \<longleftrightarrow>
     (\<forall>c i h p. (s_chan s c = Full (Ok (h, p)) \<and> call_id (s_phase s c) = Some i \<longrightarrow> hdr_invoke_id h = i) \<and>
        (s_phase s c = Replied i h p \<longrightarrow> hdr_invoke_id h = i))"

definition session_inv :: "session \<Rightarrow> bool" where
  "session_inv s \<longleftrightarrow> entries_owned s \<and> not_stranded s \<and> own_reply s"

lemma close_sender_cases:
  "close_sender s i c = s_chan s c \<or>
     (s_pending s i = Some c \<and> s_chan s c = Empty \<and> close_sender s i c = Closed)"
  by (auto simp: close_sender_def split: option.split)

lemma close_sender_eq [simp]:
  "close_sender s i c = Empty \<longleftrightarrow> s_chan s c = Empty \<and> s_pending s i \<noteq> Some c"
  "close_sender s i c = Full r \<longleftrightarrow> s_chan s c = Full r"
  by (auto simp: close_sender_def split: option.split)

lemma entries_ownedD:
  "entries_owned s \<Longrightarrow> s_pending s i = Some c \<Longrightarrow> call_id (s_phase s c) = Some i"
  "entries_owned s \<Longrightarrow> s_pending s i = Some c \<Longrightarrow> s_chan s c = Empty"
  by (auto simp: entries_owned_def)

lemma entries_owned_inj:
  "entries_owned s \<Longrightarrow> s_pending s i = Some c \<Longrightarrow> s_pending s j = Some c \<Longrightarrow> i = j"
  by (metis entries_ownedD(1) option.inject)

lemma step_entries_owned:
  assumes "session_step src timeout s s'" and "entries_owned s"
  shows "entries_owned s'"
  using assms
proof cases
  case (register c i)
  then show ?thesis
    using assms(2) entries_owned_inj [OF assms(2)]
    by (fastforce simp: entries_owned_def)
next
  case (discard c i e)
  then show ?thesis
    using assms(2) entries_owned_inj [OF assms(2)]
    by (fastforce simp: entries_owned_def)
next
  case (read_reply fin h p rest c)
  then show ?thesis
    using assms(2) entries_owned_inj [OF assms(2)]
    by (fastforce simp: entries_owned_def)
qed (use assms(2) in \<open>fastforce simp: entries_owned_def\<close>)+

lemma step_not_stranded:
  assumes step: "session_step src timeout s s'" and owned: "entries_owned s" and "not_stranded s"
  shows "not_stranded s'"
  unfolding not_stranded_def
proof (intro allI impI)
  fix d j
  assume empty: "s_chan s' d = Empty"
  have old: "s_chan s d = Empty \<Longrightarrow> (s_phase s d = Registered j \<longrightarrow> s_pending s j = Some d) \<and>
      (s_phase s d = Waiting j \<longrightarrow> s_pending s j = Some d \<and> s_reader s \<noteq> Stopped)"
    using assms(3) by (auto simp: not_stranded_def)
  show "(s_phase s' d = Registered j \<longrightarrow> s_pending s' j = Some d) \<and>
      (s_phase s' d = Waiting j \<longrightarrow> s_pending s' j = Some d \<and> s_reader s' \<noteq> Stopped)"
    using step
  proof cases
    case (drain_all e)
    then show ?thesis using old empty by (auto simp: ran_def split: if_splits)
  next
    case (read_reply fin h p rest c)
    then show ?thesis using old empty by (auto split: if_splits)
  next
    case (read_dead fin h p rest c)
    then show ?thesis using old empty by (auto split: if_splits)
  qed (use old empty in \<open>auto split: if_splits\<close>)
qed

lemma step_own_reply:
  assumes step: "session_step src timeout s s'" and owned: "entries_owned s" and "own_reply s"
  shows "own_reply s'"
  unfolding own_reply_def
proof (intro allI)
  fix d j h p
  have old: "s_chan s d = Full (Ok (h, p)) \<Longrightarrow> call_id (s_phase s d) = Some i \<Longrightarrow> hdr_invoke_id h = i"
      "s_phase s d = Replied i h p \<Longrightarrow> hdr_invoke_id h = i" for i
    using assms(3) by (auto simp: own_reply_def)
  show "(s_chan s' d = Full (Ok (h, p)) \<and> call_id (s_phase s' d) = Some j \<longrightarrow> hdr_invoke_id h = j) \<and>
      (s_phase s' d = Replied j h p \<longrightarrow> hdr_invoke_id h = j)"
    using step
  proof cases
    case (read_reply fin h' p' rest c)
    then show ?thesis using old entries_ownedD(1) [OF owned read_reply(4)] by (auto split: if_splits)
  qed (use old in \<open>auto split: if_splits\<close>)
qed

interpretation sys: transition_system session_init "session_step src timeout" session_inv
  for src timeout
proof unfold_locales
  show "session_inv s" if "session_init s" for s
    using that
    by (simp add: session_init_def session_inv_def entries_owned_def not_stranded_def own_reply_def)
  show "session_inv s'" if "session_step src timeout s s'" "session_inv s" for s s'
    using that step_entries_owned step_not_stranded step_own_reply
    unfolding session_inv_def by blast
qed

definition session_reachable :: "ams_addr \<Rightarrow> bool \<Rightarrow> session \<Rightarrow> bool" where
  "session_reachable src timeout s \<longleftrightarrow>
     (\<exists>s0. session_init s0 \<and> (session_step src timeout)\<^sup>*\<^sup>* s0 s)"

lemma reachable_inv: "session_reachable src timeout s \<Longrightarrow> session_inv s"
  using sys.inv_reachable unfolding session_reachable_def by blast

lemma reachable_step:
  "session_reachable src timeout s \<Longrightarrow> session_step src timeout s s' \<Longrightarrow> session_reachable src timeout s'"
  unfolding session_reachable_def by (meson rtranclp.rtrancl_into_rtrancl)

text \<open>The last steps of the thread, from a state in which a call waits.\<close>

lemma shut_drains:
  assumes "session_inv s" and "s_reader s = Shut e"
    and "s_phase s c = Waiting i" and "s_chan s c = Empty"
  shows "\<exists>s'. session_step src timeout s s' \<and> s_phase s' = s_phase s \<and>
    s_chan s' c = Full (Err (error_clone e)) \<and> s_reader s' = Stopped"
proof -
  have "s_pending s i = Some c" using assms by (simp add: session_inv_def not_stranded_def)
  then have "c \<in> ran (s_pending s) \<and> receiver_lives (s_phase s c)"
    using assms(3) by (auto simp: ran_def)
  with session_step.drain_all [OF assms(2), of src timeout] show ?thesis by fastforce
qed

lemma ended_drains:
  assumes "session_inv s" and "s_reader s = Ended e"
    and "s_phase s c = Waiting i" and "s_chan s c = Empty"
  shows "\<exists>s'. (session_step src timeout)\<^sup>*\<^sup>* s s' \<and> s_phase s' = s_phase s \<and>
    s_chan s' c = Full (Err (error_clone e)) \<and> s_reader s' = Stopped"
proof -
  let ?t = "s\<lparr>s_reader := Shut e\<rparr>"
  have t: "session_step src timeout s ?t" by (rule session_step.shut [OF assms(2)])
  then have "session_inv ?t" using assms(1) sys.inv_step by blast
  then obtain s' where "session_step src timeout ?t s'" "s_phase s' = s_phase s"
    "s_chan s' c = Full (Err (error_clone e))" "s_reader s' = Stopped"
    using shut_drains [of ?t e c i src timeout] assms(3,4) by auto
  with t show ?thesis by (meson converse_rtranclp_into_rtranclp r_into_rtranclp)
qed

section \<open>A run\<close>

text \<open>
  One call that registers and writes its request before the connection breaks: the state in
  which it waits, the one after the loop has ended, and the one after the thread has.
\<close>

definition demo_start :: session where
  "demo_start = \<lparr>s_next = 1, s_pending = Map.empty, s_phase = (\<lambda>_. Fresh), s_chan = (\<lambda>_. Empty),
     s_reader = Running, s_input = []\<rparr>"

definition demo_waiting :: session where
  "demo_waiting = demo_start\<lparr>s_next := 2, s_pending := [1 \<mapsto> 0], s_phase := (\<lambda>_. Fresh)(0 := Waiting 1)\<rparr>"

definition demo_error :: error where
  "demo_error = Io ''receiving AMS/TCP header'' (io_of_kind UnexpectedEof)"

definition demo_stopped :: session where
  "demo_stopped = demo_waiting\<lparr>s_reader := Stopped, s_pending := Map.empty,
     s_chan := (\<lambda>_. Empty)(0 := Full (Err demo_error))\<rparr>"

lemma demo_waiting_reachable: "session_reachable src timeout demo_waiting"
proof -
  let ?a = "demo_start\<lparr>s_next := 2, s_phase := (\<lambda>_. Fresh)(0 := Numbered 1)\<rparr>"
  let ?b = "?a\<lparr>s_pending := [1 \<mapsto> 0], s_phase := (\<lambda>_. Fresh)(0 := Registered 1)\<rparr>"
  have "session_reachable src timeout demo_start"
    unfolding session_reachable_def
    by (rule exI [of _ demo_start]) (simp add: session_init_def demo_start_def)
  moreover have "session_step src timeout demo_start ?a"
    using session_step.take_id [of demo_start 0 src timeout] by (simp add: demo_start_def)
  moreover have "session_step src timeout ?a ?b"
    using session_step.register [of ?a 0 1 src timeout]
    by (simp add: demo_start_def close_sender_def fun_upd_idem)
  moreover have "session_step src timeout ?b demo_waiting"
    using session_step.write_ok [of ?b 0 1 src timeout] by (simp add: demo_start_def demo_waiting_def)
  ultimately show ?thesis by (meson reachable_step)
qed

lemma demo_ended_reachable: "session_reachable src timeout (demo_waiting\<lparr>s_reader := Ended demo_error\<rparr>)"
proof (rule reachable_step [OF demo_waiting_reachable session_step.read_error])
  show "recv_packet (io_of_kind UnexpectedEof) src (s_input demo_waiting) = Err demo_error"
    by (simp add: demo_waiting_def demo_start_def recv_packet_def pbind_def sock_read_def demo_error_def)
qed (simp add: demo_waiting_def demo_start_def)

lemma demo_stopped_reachable: "session_reachable src timeout demo_stopped"
proof -
  let ?s = "demo_waiting\<lparr>s_reader := Shut demo_error\<rparr>"
  have "session_step src timeout (demo_waiting\<lparr>s_reader := Ended demo_error\<rparr>) ?s"
    using session_step.shut [of "demo_waiting\<lparr>s_reader := Ended demo_error\<rparr>" demo_error src timeout] by simp
  moreover have "(\<lambda>c. if c \<in> ran (s_pending ?s) \<and> receiver_lives (s_phase ?s c)
      then Full (Err (error_clone demo_error)) else s_chan ?s c) = (\<lambda>_. Empty)(0 := Full (Err demo_error))"
    by (auto simp: demo_waiting_def demo_start_def demo_error_def fun_eq_iff)
  then have "session_step src timeout ?s demo_stopped"
    using session_step.drain_all [of ?s demo_error src timeout] by (simp add: demo_stopped_def)
  ultimately show ?thesis using demo_ended_reachable by (meson reachable_step)
qed

section \<open>Properties\<close>

text \<open>
  C5. No call is left waiting for ever by the end of the reader thread: in every reachable state
  in which the thread has run to its end, a call that waits has a message or a closed channel
  to wake up on.
\<close>

theorem no_call_stranded:
  assumes "session_reachable src timeout s" and "s_reader s = Stopped" and "s_phase s c = Waiting i"
  shows "s_chan s c \<noteq> Empty"
  using reachable_inv [OF assms(1)] assms(2,3) by (auto simp: session_inv_def not_stranded_def)

theorem no_call_stranded_witness: "s_chan demo_stopped 0 \<noteq> Empty"
  by (rule no_call_stranded [OF demo_stopped_reachable [of "AmsAddr netid_local 1" False], of 0 1])
    (simp_all add: demo_stopped_def demo_waiting_def)

text \<open>
  C25. Once the loop of the reader has returned an error, a call that waits with an empty channel
  is sent that error by the remaining steps of the thread, whatever the other calls did before.
\<close>

theorem ended_reader_settles:
  assumes "session_reachable src timeout s" and "s_reader s = Ended e"
    and "s_phase s c = Waiting i" and "s_chan s c = Empty"
  shows "\<exists>s'. (session_step src timeout)\<^sup>*\<^sup>* s s' \<and> s_phase s' = s_phase s \<and>
    s_chan s' c = Full (Err (error_clone e)) \<and> s_reader s' = Stopped"
  by (rule ended_drains [OF reachable_inv [OF assms(1)] assms(2-4)])

theorem ended_reader_settles_witness:
  "\<exists>s'. (session_step (AmsAddr netid_local 1) False)\<^sup>*\<^sup>* (demo_waiting\<lparr>s_reader := Ended demo_error\<rparr>) s' \<and>
     s_phase s' = s_phase demo_waiting \<and> s_chan s' 0 = Full (Err demo_error) \<and> s_reader s' = Stopped"
  using ended_reader_settles [OF demo_ended_reachable [of "AmsAddr netid_local 1" False], of demo_error 0 1]
  by (simp add: demo_waiting_def demo_start_def demo_error_def)

text \<open>
  C24. In every interleaving a call only ever receives the reply that carries its own invoke ID,
  so that the check of the invoke ID in \<open>communicate\<close> cannot fail.
\<close>

theorem calls_get_own_reply:
  assumes "session_reachable src timeout s" and "s_phase s c = Replied i h p"
  shows "hdr_invoke_id h = i"
  using reachable_inv [OF assms(1)] assms(2) by (auto simp: session_inv_def own_reply_def)


definition demo_reply_pkt :: "ads_header \<times> bytes" where
  "demo_reply_pkt = (sample_reply (AmsAddr netid_local 1) 2 1 [0, 0, 0, 0], [0, 0, 0, 0])"

definition demo_replied :: session where
  "demo_replied = demo_waiting\<lparr>s_pending := Map.empty, s_chan := (\<lambda>_. Empty)(0 := Full (Ok demo_reply_pkt)),
     s_phase := (\<lambda>_. Fresh)(0 := Replied 1 (fst demo_reply_pkt) (snd demo_reply_pkt))\<rparr>"

lemma demo_replied_reachable: "session_reachable (AmsAddr netid_local 1) timeout demo_replied"
proof -
  let ?src = "AmsAddr netid_local 1" and ?h = "fst demo_reply_pkt" and ?p = "snd demo_reply_pkt"
  let ?a = "demo_waiting\<lparr>s_input := frame demo_reply_pkt\<rparr>"
  let ?b = "demo_waiting\<lparr>s_pending := Map.empty, s_chan := (\<lambda>_. Empty)(0 := Full (Ok demo_reply_pkt))\<rparr>"
  have "session_step ?src timeout demo_waiting ?a"
    using session_step.arrive [of ?src timeout demo_waiting "frame demo_reply_pkt"]
    by (simp add: demo_waiting_def demo_start_def)
  moreover have "session_step ?src timeout ?a ?b"
  proof -
    have "wf_frame ?src (?h, ?p)" "hdr_command ?h \<noteq> command_code Notification" "hdr_invoke_id ?h = 1"
      by (simp_all add: wf_frame_def demo_reply_pkt_def sample_reply_def)
    moreover from this have "recv_packet (io_of_kind UnexpectedEof) ?src (s_input ?a) = Ok (ReplyPkt ?h ?p, [])"
      using recv_packet_frame [of ?src ?h ?p "io_of_kind UnexpectedEof" "[]"]
      by (simp add: demo_reply_pkt_def sample_reply_def)
    ultimately show ?thesis
      using session_step.read_reply [of ?a "io_of_kind UnexpectedEof" ?src ?h ?p "[]" 0 timeout]
      by (simp add: demo_waiting_def demo_start_def)
  qed
  moreover have "session_step ?src timeout ?b demo_replied"
    using session_step.receive_reply [of ?b 0 1 ?h ?p ?src timeout]
    by (simp add: demo_replied_def demo_waiting_def)
  ultimately show ?thesis using demo_waiting_reachable by (meson reachable_step)
qed

theorem calls_get_own_reply_witness: "hdr_invoke_id (fst demo_reply_pkt) = 1"
  by (rule calls_get_own_reply [OF demo_replied_reachable [of False], of 0 1 _ "snd demo_reply_pkt"])
    (simp add: demo_replied_def)

end
