(* ===== verification/Ads_Index.thy ===== *)
theory Ads_Index
  imports Ads_Wire
begin

text \<open>
  The index groups (\<open>src/index.rs\<close>), the well-known ports (\<open>src/ports.rs\<close>) and the default ports
  of the connections (\<open>src/lib.rs\<close>).
\<close>

section \<open>Ports\<close>

definition AMS_ROUTER :: u16 where "AMS_ROUTER = 1"
definition AMS_DEBUGGER :: u16 where "AMS_DEBUGGER = 2"
definition TCOM_SERVER :: u16 where "TCOM_SERVER = 10"
definition TCOM_SERVER_TASK :: u16 where "TCOM_SERVER_TASK = 11"
definition TCOM_SERVER_PASSIVE :: u16 where "TCOM_SERVER_PASSIVE = 12"
definition TCAT_DEBUGGER :: u16 where "TCAT_DEBUGGER = 20"
definition TCAT_DEBUGGER_TASK :: u16 where "TCAT_DEBUGGER_TASK = 21"
definition LICENSE_SERVER :: u16 where "LICENSE_SERVER = 30"
definition LOGGER :: u16 where "LOGGER = 100"
definition EVENT_LOGGER :: u16 where "EVENT_LOGGER = 110"
definition APPLICATION :: u16 where "APPLICATION = 120"
definition EVENT_LOGGER_USER :: u16 where "EVENT_LOGGER_USER = 130"
definition EVENT_LOGGER_REALTIME :: u16 where "EVENT_LOGGER_REALTIME = 131"
definition EVENT_LOGGER_PUBLISHER :: u16 where "EVENT_LOGGER_PUBLISHER = 132"
definition RING0_REALTIME :: u16 where "RING0_REALTIME = 200"
definition RING0_TRACE :: u16 where "RING0_TRACE = 290"
definition RING0_IO :: u16 where "RING0_IO = 300"
definition RING0_PLC :: u16 where "RING0_PLC = 400"
definition RING0_NC :: u16 where "RING0_NC = 500"
definition RING0_NC_SAF :: u16 where "RING0_NC_SAF = 501"
definition RING0_NC_SVB :: u16 where "RING0_NC_SVB = 511"
definition NC_INSTANCE :: u16 where "NC_INSTANCE = 520"
definition RING_ISG :: u16 where "RING_ISG = 550"
definition RING0_CNC :: u16 where "RING0_CNC = 600"
definition RING0_LINE :: u16 where "RING0_LINE = 700"
definition RING0_TC2_PLC :: u16 where "RING0_TC2_PLC = 800"
definition TC2_PLC_SYSTEM1 :: u16 where "TC2_PLC_SYSTEM1 = 801"
definition TC2_PLC_SYSTEM2 :: u16 where "TC2_PLC_SYSTEM2 = 811"
definition TC2_PLC_SYSTEM3 :: u16 where "TC2_PLC_SYSTEM3 = 821"
definition TC2_PLC_SYSTEM4 :: u16 where "TC2_PLC_SYSTEM4 = 831"
definition RING0_TC3_PLC :: u16 where "RING0_TC3_PLC = 850"
definition TC3_PLC_SYSTEM1 :: u16 where "TC3_PLC_SYSTEM1 = 851"
definition TC3_PLC_SYSTEM2 :: u16 where "TC3_PLC_SYSTEM2 = 852"
definition TC3_PLC_SYSTEM3 :: u16 where "TC3_PLC_SYSTEM3 = 853"
definition TC3_PLC_SYSTEM4 :: u16 where "TC3_PLC_SYSTEM4 = 854"
definition CAMSHAFT_CONTROLLER :: u16 where "CAMSHAFT_CONTROLLER = 900"
definition CAM_TOOL :: u16 where "CAM_TOOL = 950"
definition RING0_IO_PORTS :: u16 where "RING0_IO_PORTS = 1000"
definition RING0_USER :: u16 where "RING0_USER = 2000"
definition CRESTRON_SERVER :: u16 where "CRESTRON_SERVER = 2500"
definition SYSTEM_SERVICE :: u16 where "SYSTEM_SERVICE = 10000"
definition TCPIP_SERVER :: u16 where "TCPIP_SERVER = 10201"
definition SYSTEM_MANAGER :: u16 where "SYSTEM_MANAGER = 10300"
definition SMS_SERVER :: u16 where "SMS_SERVER = 10400"
definition MODBUS_SERVER :: u16 where "MODBUS_SERVER = 10500"
definition AMS_LOGGER :: u16 where "AMS_LOGGER = 10502"
definition XML_DATA_SERVER :: u16 where "XML_DATA_SERVER = 10600"
definition AUTO_CONFIG :: u16 where "AUTO_CONFIG = 10700"
definition PLC_CONTROL :: u16 where "PLC_CONTROL = 10800"
definition FTP_CLIENT :: u16 where "FTP_CLIENT = 10900"
definition NC_CONTROL :: u16 where "NC_CONTROL = 11000"
definition NC_INTERPRETER :: u16 where "NC_INTERPRETER = 11500"
definition GST_INTERPRETER :: u16 where "GST_INTERPRETER = 11600"
definition STRECKE_CONTROL :: u16 where "STRECKE_CONTROL = 12000"
definition CAM_CONTROL :: u16 where "CAM_CONTROL = 13000"
definition SCOPE_SERVER :: u16 where "SCOPE_SERVER = 14000"
definition COND_MONITORING :: u16 where "COND_MONITORING = 14100"
definition SINE_CH1 :: u16 where "SINE_CH1 = 15000"
definition CONTROL_NET :: u16 where "CONTROL_NET = 16000"
definition OPC_SERVER :: u16 where "OPC_SERVER = 17000"
definition OPC_CLIENT :: u16 where "OPC_CLIENT = 17500"
definition MAIL_SERVER :: u16 where "MAIL_SERVER = 18000"
definition VIRTUAL_COM :: u16 where "VIRTUAL_COM = 19000"
definition MGMT_SERVER :: u16 where "MGMT_SERVER = 19100"
definition MIELE_HOME_SERVER :: u16 where "MIELE_HOME_SERVER = 19200"
definition CP_LINK3 :: u16 where "CP_LINK3 = 19300"
definition VISION_SERVICE :: u16 where "VISION_SERVICE = 19500"
definition MULTIUSER :: u16 where "MULTIUSER = 19600"
definition DATABASE_SERVER :: u16 where "DATABASE_SERVER = 21372"
definition FIAS_SERVER :: u16 where "FIAS_SERVER = 25013"
definition BANG_OLUFSEN_SERVER :: u16 where "BANG_OLUFSEN_SERVER = 25015"

definition PORT :: u16 where "PORT = 0xBF02"
definition UDP_PORT :: u16 where "UDP_PORT = 0xBF03"

section \<open>Index groups\<close>

definition PLC_RW_M :: u32 where "PLC_RW_M = 0x4020"
definition PLC_RW_MX :: u32 where "PLC_RW_MX = 0x4021"
definition PLC_SIZE_M :: u32 where "PLC_SIZE_M = 0x4025"
definition PLC_RW_RB :: u32 where "PLC_RW_RB = 0x4030"
definition PLC_SIZE_RB :: u32 where "PLC_SIZE_RB = 0x4035"
definition PLC_RW_DB :: u32 where "PLC_RW_DB = 0x4040"
definition PLC_SIZE_DB :: u32 where "PLC_SIZE_DB = 0x4045"
definition GET_SYMHANDLE_BYNAME :: u32 where "GET_SYMHANDLE_BYNAME = 0xF003"
definition RW_SYMVAL_BYHANDLE :: u32 where "RW_SYMVAL_BYHANDLE = 0xF005"
definition RELEASE_SYMHANDLE :: u32 where "RELEASE_SYMHANDLE = 0xF006"
definition SYMTAB :: u32 where "SYMTAB = 0xF000"
definition SYMNAME :: u32 where "SYMNAME = 0xF001"
definition SYMVAL :: u32 where "SYMVAL = 0xF002"
definition GET_SYMVAL_BYNAME :: u32 where "GET_SYMVAL_BYNAME = 0xF004"
definition GET_SYMINFO_BYNAME :: u32 where "GET_SYMINFO_BYNAME = 0xF007"
definition GET_SYMVERSION :: u32 where "GET_SYMVERSION = 0xF008"
definition GET_SYMINFO_BYNAME_EX :: u32 where "GET_SYMINFO_BYNAME_EX = 0xF009"
definition SYM_DOWNLOAD :: u32 where "SYM_DOWNLOAD = 0xF00A"
definition SYM_UPLOAD :: u32 where "SYM_UPLOAD = 0xF00B"
definition SYM_UPLOAD_INFO :: u32 where "SYM_UPLOAD_INFO = 0xF00C"
definition SYM_DOWNLOAD2 :: u32 where "SYM_DOWNLOAD2 = 0xF00D"
definition SYM_DT_UPLOAD :: u32 where "SYM_DT_UPLOAD = 0xF00E"
definition SYM_UPLOAD_INFO2 :: u32 where "SYM_UPLOAD_INFO2 = 0xF00F"
definition SYM_NOTE :: u32 where "SYM_NOTE = 0xF010"
definition GET_TYPEINFO_BYNAME_EX :: u32 where "GET_TYPEINFO_BYNAME_EX = 0xF011"
definition IO_RW_I :: u32 where "IO_RW_I = 0xF020"
definition IO_RW_IX :: u32 where "IO_RW_IX = 0xF021"
definition IO_SIZE_I :: u32 where "IO_SIZE_I = 0xF025"
definition IO_RW_Q :: u32 where "IO_RW_Q = 0xF030"
definition IO_RW_QX :: u32 where "IO_RW_QX = 0xF031"
definition IO_SIZE_Q :: u32 where "IO_SIZE_Q = 0xF035"
definition IO_CLEAR_I :: u32 where "IO_CLEAR_I = 0xF040"
definition IO_CLEAR_O :: u32 where "IO_CLEAR_O = 0xF050"
definition IO_RW_IOB :: u32 where "IO_RW_IOB = 0xF060"
definition SUMUP_READ :: u32 where "SUMUP_READ = 0xF080"
definition SUMUP_WRITE :: u32 where "SUMUP_WRITE = 0xF081"
definition SUMUP_READWRITE :: u32 where "SUMUP_READWRITE = 0xF082"
definition SUMUP_READ_EX :: u32 where "SUMUP_READ_EX = 0xF083"
definition SUMUP_READ_EX_2 :: u32 where "SUMUP_READ_EX_2 = 0xF084"
definition SUMUP_ADDDEVNOTE :: u32 where "SUMUP_ADDDEVNOTE = 0xF085"
definition SUMUP_DELDEVNOTE :: u32 where "SUMUP_DELDEVNOTE = 0xF086"
definition DEVICE_DATA :: u32 where "DEVICE_DATA = 0xF100"
definition FILE_OPEN :: u32 where "FILE_OPEN = 120"
definition FILE_CLOSE :: u32 where "FILE_CLOSE = 121"
definition FILE_READ :: u32 where "FILE_READ = 122"
definition FILE_WRITE :: u32 where "FILE_WRITE = 123"
definition FILE_DELETE :: u32 where "FILE_DELETE = 131"
definition FILE_BROWSE :: u32 where "FILE_BROWSE = 133"
definition TARGET_DESC :: u32 where "TARGET_DESC = 0x2BC"
definition LICENSE :: u32 where "LICENSE = 0x1010004"
definition LICENSE_MODULES :: u32 where "LICENSE_MODULES = 0x1010006"
definition WIN_REGISTRY :: u32 where "WIN_REGISTRY = 200"
definition EXECUTE :: u32 where "EXECUTE = 500"
definition TC_TARGET_XML :: u32 where "TC_TARGET_XML = 700"
definition ROUTE_ADD :: u32 where "ROUTE_ADD = 801"
definition ROUTE_REMOVE :: u32 where "ROUTE_REMOVE = 802"
definition ROUTE_LIST :: u32 where "ROUTE_LIST = 803"

lemmas sumup_groups = SUMUP_WRITE_def SUMUP_READWRITE_def SUMUP_READ_EX_def SUMUP_ADDDEVNOTE_def
  SUMUP_DELDEVNOTE_def

text \<open>A device tells the requests of a group apart by these numbers.\<close>

lemma sumup_groups_distinct:
  "distinct [SUMUP_WRITE, SUMUP_READWRITE, SUMUP_READ_EX, SUMUP_ADDDEVNOTE, SUMUP_DELDEVNOTE]"
  by (simp add: sumup_groups)

end
