(* ===== verification/Ads_Device.thy ===== *)
theory Ads_Device
  imports Ads_Client Ads_Index "HOL-Library.Product_Lexorder"
begin

text \<open>
  The operations on one device (\<open>Device\<close> in \<open>src/client.rs\<close>), the structures of the sum-up
  requests, and the end of a client (\<open>Drop for Client\<close>). Every operation takes the function
  it communicates with; the model of the crate is its instance at \<^const>\<open>communicate\<close>.
  An operation that fills a buffer of the caller returns the new contents of the buffer.
\<close>

type_synonym 'w comm = "command \<Rightarrow> ams_addr \<Rightarrow> bytes list \<Rightarrow> bytes list \<Rightarrow>
  ('w conn, nat \<times> bytes list, error) io"
type_synonym ('w, 'a) op = "('w conn, 'a, error) io"

section \<open>Single requests\<close>

record device_info =
  di_name :: rstring
  di_major :: u8
  di_minor :: u8
  di_version :: u16

text \<open>\<open>ch as char\<close> for a byte, collected into a \<open>String\<close>.\<close>

definition utf8_of_byte :: "u8 \<Rightarrow> bytes" where
  "utf8_of_byte b = (if unat b < 128 then [b] else [0xC0 OR drop_bit 6 b, 0x80 OR (b AND 0x3F)])"

definition get_info :: "'w comm \<Rightarrow> ams_addr \<Rightarrow> ('w, device_info) op" where
  "get_info comm addr =
     ibind (comm DevInfo addr [] [replicate size_DeviceInfoRaw 0]) (\<lambda>(_, bufs).
     let data = device_info_raw_read (bufs ! 0);
         name = concat (map utf8_of_byte (takeWhile (\<lambda>ch. ch > 0) (raw_name data)))
     in iret \<lparr>di_name = name, di_major = raw_major data, di_minor = raw_minor data,
              di_version = raw_version data\<rparr>)"

definition dev_read :: "'w comm \<Rightarrow> ams_addr \<Rightarrow> u32 \<Rightarrow> u32 \<Rightarrow> bytes \<Rightarrow> ('w, nat \<times> bytes) op" where
  "dev_read comm addr grp offset data =
     ibind (ilift (try_u32 (length data))) (\<lambda>len.
     ibind (comm Read addr
         [index_length_bytes \<lparr>index_group = grp, index_offset = offset, il_length = len\<rparr>]
         [u32_le 0, data]) (\<lambda>(_, bufs).
     iret (unat (le_u32 (bufs ! 0)), bufs ! 1)))"

definition read_exact :: "'w comm \<Rightarrow> ams_addr \<Rightarrow> u32 \<Rightarrow> u32 \<Rightarrow> bytes \<Rightarrow> ('w, bytes) op" where
  "read_exact comm addr grp offset data =
     ibind (dev_read comm addr grp offset data) (\<lambda>(len, data').
     if len \<noteq> length data'
     then ilift (Err (Reply ''read data'' ''got less data than expected'' (of_nat len)))
     else iret data')"

definition dev_write :: "'w comm \<Rightarrow> ams_addr \<Rightarrow> u32 \<Rightarrow> u32 \<Rightarrow> bytes \<Rightarrow> ('w, unit) op" where
  "dev_write comm addr grp offset data =
     ibind (ilift (try_u32 (length data))) (\<lambda>len.
     ibind (comm Write addr
         [index_length_bytes \<lparr>index_group = grp, index_offset = offset, il_length = len\<rparr>, data] [])
       (\<lambda>_. iret ()))"

definition write_read ::
  "'w comm \<Rightarrow> ams_addr \<Rightarrow> u32 \<Rightarrow> u32 \<Rightarrow> bytes \<Rightarrow> bytes \<Rightarrow> ('w, nat \<times> bytes) op" where
  "write_read comm addr grp offset write_data read_data =
     ibind (ilift (try_u32 (length read_data))) (\<lambda>rlen.
     ibind (ilift (try_u32 (length write_data))) (\<lambda>wlen.
     ibind (comm ReadWrite addr
         [index_length_rw_bytes
            \<lparr>rw_index_group = grp, rw_index_offset = offset,
             rw_read_length = rlen, rw_write_length = wlen\<rparr>, write_data]
         [u32_le 0, read_data]) (\<lambda>(_, bufs).
     iret (unat (le_u32 (bufs ! 0)), bufs ! 1))))"

definition write_read_exact ::
  "'w comm \<Rightarrow> ams_addr \<Rightarrow> u32 \<Rightarrow> u32 \<Rightarrow> bytes \<Rightarrow> bytes \<Rightarrow> ('w, bytes) op" where
  "write_read_exact comm addr grp offset write_data read_data =
     ibind (write_read comm addr grp offset write_data read_data) (\<lambda>(len, read_data').
     if len \<noteq> length read_data'
     then ilift (Err (Reply ''write/read data'' ''got less data than expected'' (of_nat len)))
     else iret read_data')"

text \<open>
  Values of a type \<open>T\<close> are read into and written from their bytes; of \<open>T\<close> it matters what the bytes of
  its default are and how bytes become a value and back.
\<close>

definition read_value :: "bytes \<Rightarrow> (bytes \<Rightarrow> 'a) \<Rightarrow> 'w comm \<Rightarrow> ams_addr \<Rightarrow> u32 \<Rightarrow> u32 \<Rightarrow> ('w, 'a) op" where
  "read_value dflt from_bytes comm addr grp offset =
     ibind (read_exact comm addr grp offset dflt) (\<lambda>buf. iret (from_bytes buf))"

definition write_value :: "('a \<Rightarrow> bytes) \<Rightarrow> 'w comm \<Rightarrow> ams_addr \<Rightarrow> u32 \<Rightarrow> u32 \<Rightarrow> 'a \<Rightarrow> ('w, unit) op" where
  "write_value as_bytes comm addr grp offset v = dev_write comm addr grp offset (as_bytes v)"

definition get_state :: "'w comm \<Rightarrow> ams_addr \<Rightarrow> ('w, ads_state \<times> u16) op" where
  "get_state comm addr =
     ibind (comm ReadState addr [] [replicate size_ReadState 0]) (\<lambda>(_, bufs).
     let state = read_state_read (bufs ! 0) in
     case ads_state_try_from (rs_ads_state state) of
       Ok s \<Rightarrow> iret (s, rs_dev_state state)
     | Err e \<Rightarrow> ilift (Err (Reply ''read state'' e (ucast (rs_ads_state state))))
     | Panic \<Rightarrow> ilift Panic)"

definition write_control :: "'w comm \<Rightarrow> ams_addr \<Rightarrow> ads_state \<Rightarrow> u16 \<Rightarrow> ('w, unit) op" where
  "write_control comm addr st dev_state =
     ibind (comm WriteControl addr
         [write_control_bytes
            \<lparr>wc_ads_state = ads_state_code st, wc_dev_state = dev_state, wc_data_length = 0\<rparr>] [])
       (\<lambda>_. iret ())"

section \<open>Notifications\<close>

definition insert_handle :: "ams_addr \<Rightarrow> handle \<Rightarrow> ('w, unit) op" where
  "insert_handle addr h = (\<lambda>(cl, w). (Ok (), (cl\<lparr>notif_handles := insert (addr, h) (notif_handles cl)\<rparr>, w)))"

definition remove_handle :: "ams_addr \<Rightarrow> handle \<Rightarrow> ('w, unit) op" where
  "remove_handle addr h = (\<lambda>(cl, w). (Ok (), (cl\<lparr>notif_handles := notif_handles cl - {(addr, h)}\<rparr>, w)))"

definition add_notification ::
  "'w comm \<Rightarrow> ams_addr \<Rightarrow> u32 \<Rightarrow> u32 \<Rightarrow> attributes \<Rightarrow> ('w, handle) op" where
  "add_notification comm addr grp offset attr =
     ibind (ilift (try_u32 (at_length attr))) (\<lambda>len.
     ibind (ilift (try_u32 (as_millis (at_max_delay attr)))) (\<lambda>max_delay.
     ibind (ilift (try_u32 (as_millis (at_cycle_time attr)))) (\<lambda>cycle_time.
     ibind (comm AddNotification addr
         [add_notif_bytes
            \<lparr>an_index_group = grp, an_index_offset = offset, an_length = len,
             an_trans_mode = transmission_mode_code (at_trans_mode attr),
             an_max_delay = max_delay, an_cycle_time = cycle_time,
             an_reserved = replicate 16 0\<rparr>]
         [u32_le 0]) (\<lambda>(_, bufs).
     let h = le_u32 (bufs ! 0) in
     ibind (insert_handle addr h) (\<lambda>_. iret h)))))"

definition delete_notification :: "'w comm \<Rightarrow> ams_addr \<Rightarrow> handle \<Rightarrow> ('w, unit) op" where
  "delete_notification comm addr h =
     ibind (comm DeleteNotification addr [u32_le h] []) (\<lambda>_. remove_handle addr h)"

section \<open>Sum-up requests\<close>

record read_request =
  rr_req :: index_length
  rr_res :: result_length
  rr_rbuf :: bytes

record write_request =
  wr_req :: index_length
  wr_res :: u32
  wr_wbuf :: bytes

record 'id add_notif_request =
  anr_req :: add_notif
  anr_res :: result_length
  anr_id :: 'id

record del_notif_request =
  dnr_req :: u32
  dnr_res :: u32

definition read_request_new :: "u32 \<Rightarrow> u32 \<Rightarrow> bytes \<Rightarrow> read_request" where
  "read_request_new grp offset buffer =
     \<lparr>rr_req = \<lparr>index_group = grp, index_offset = offset, il_length = of_nat (length buffer)\<rparr>,
      rr_res = result_length_zeroed, rr_rbuf = buffer\<rparr>"

definition read_request_data :: "read_request \<Rightarrow> bytes res" where
  "read_request_data r =
     (if rl_result (rr_res r) \<noteq> 0 then ads_error ''multi-read data'' (rl_result (rr_res r))
      else slice_of (rr_rbuf r) 0 (unat (rl_length (rr_res r))))"

definition write_request_new :: "u32 \<Rightarrow> u32 \<Rightarrow> bytes \<Rightarrow> write_request" where
  "write_request_new grp offset buffer =
     \<lparr>wr_req = \<lparr>index_group = grp, index_offset = offset, il_length = of_nat (length buffer)\<rparr>,
      wr_res = 0, wr_wbuf = buffer\<rparr>"

definition write_request_ensure :: "write_request \<Rightarrow> unit res" where
  "write_request_ensure r =
     (if wr_res r \<noteq> 0 then ads_error ''multi-write data'' (wr_res r) else Ok ())"

definition write_read_request_new :: "u32 \<Rightarrow> u32 \<Rightarrow> bytes \<Rightarrow> bytes \<Rightarrow> write_read_request" where
  "write_read_request_new grp offset write_buffer read_buffer =
     \<lparr>wrr_req = \<lparr>rw_index_group = grp, rw_index_offset = offset,
                 rw_read_length = of_nat (length read_buffer),
                 rw_write_length = of_nat (length write_buffer)\<rparr>,
      wrr_res = result_length_zeroed, wrr_wbuf = write_buffer, wrr_rbuf = read_buffer\<rparr>"

definition write_read_request_data :: "write_read_request \<Rightarrow> bytes res" where
  "write_read_request_data r =
     (if rl_result (wrr_res r) \<noteq> 0 then ads_error ''multi-read/write data'' (rl_result (wrr_res r))
      else slice_of (wrr_rbuf r) 0 (unat (rl_length (wrr_res r))))"

definition add_notif_request_new :: "u32 \<Rightarrow> u32 \<Rightarrow> attributes \<Rightarrow> unit add_notif_request" where
  "add_notif_request_new grp offset attr =
     \<lparr>anr_req = \<lparr>an_index_group = grp, an_index_offset = offset,
                 an_length = of_nat (at_length attr),
                 an_trans_mode = transmission_mode_code (at_trans_mode attr),
                 an_max_delay = of_nat (as_millis (at_max_delay attr)),
                 an_cycle_time = of_nat (as_millis (at_cycle_time attr)),
                 an_reserved = replicate 16 0\<rparr>,
      anr_res = result_length_zeroed, anr_id = ()\<rparr>"

definition with_id :: "'a add_notif_request \<Rightarrow> 'b \<Rightarrow> 'b add_notif_request" where
  "with_id r i = \<lparr>anr_req = anr_req r, anr_res = anr_res r, anr_id = i\<rparr>"

definition add_notif_request_handle :: "'id add_notif_request \<Rightarrow> handle res" where
  "add_notif_request_handle r =
     (if rl_result (anr_res r) \<noteq> 0 then ads_error ''multi-read/write data'' (rl_result (anr_res r))
      else Ok (rl_length (anr_res r)))"

definition into_id_handle :: "'id add_notif_request \<Rightarrow> 'id \<times> handle res" where
  "into_id_handle r = (let h = add_notif_request_handle r in (anr_id r, h))"

definition del_notif_request_new :: "handle \<Rightarrow> del_notif_request" where
  "del_notif_request_new h = \<lparr>dnr_req = h, dnr_res = 0\<rparr>"

definition del_notif_request_ensure :: "del_notif_request \<Rightarrow> unit res" where
  "del_notif_request_ensure r =
     (if dnr_res r \<noteq> 0 then ads_error ''multi-read/write data'' (dnr_res r) else Ok ())"

text \<open>
  The header that starts the payload of every sum-up request. The lengths are checked in the
  order the structure literal evaluates them; the number of requests is truncated.
\<close>

definition sumup_header :: "u32 \<Rightarrow> nat \<Rightarrow> nat \<Rightarrow> nat \<Rightarrow> bytes res" where
  "sumup_header grp nreq rlen wlen =
     rbind (try_u32 rlen) (\<lambda>r.
     rbind (try_u32 wlen) (\<lambda>w.
     Ok (index_length_rw_bytes
       \<lparr>rw_index_group = grp, rw_index_offset = of_nat nreq,
        rw_read_length = r, rw_write_length = w\<rparr>)))"

text \<open>The result buffers of requests that return data: results first, then the data.\<close>

definition result_bufs_of :: "('r \<Rightarrow> result_length) \<Rightarrow> ('r \<Rightarrow> bytes) \<Rightarrow> 'r list \<Rightarrow> bytes list" where
  "result_bufs_of res rbuf reqs =
     u32_le 0 # map (\<lambda>r. result_length_bytes (res r)) reqs @ map rbuf reqs"

definition put_results ::
  "('r \<Rightarrow> result_length \<Rightarrow> bytes \<Rightarrow> 'r) \<Rightarrow> bytes list \<Rightarrow> 'r list \<Rightarrow> 'r list" where
  "put_results upd bufs reqs =
     (let n = length reqs in
      map2 (\<lambda>r (b, d). upd r (result_length_read b) d) reqs
        (zip (take n (drop 1 bufs)) (drop (1 + n) bufs)))"

definition read_multi :: "'w comm \<Rightarrow> ams_addr \<Rightarrow> read_request list \<Rightarrow> ('w, read_request list) op" where
  "read_multi comm addr requests =
     ibind (ilift (sumup_header SUMUP_READ_EX (length requests)
         (sum_list (map (\<lambda>r. size_ResultLength + length (rr_rbuf r)) requests))
         (size_IndexLength * length requests))) (\<lambda>header.
     ibind (comm ReadWrite addr
         (header # map (\<lambda>r. index_length_bytes (rr_req r)) requests)
         (result_bufs_of rr_res rr_rbuf requests)) (\<lambda>(_, bufs).
     iret (put_results (\<lambda>r x d. r\<lparr>rr_res := x, rr_rbuf := d\<rparr>) bufs requests)))"

definition write_multi :: "'w comm \<Rightarrow> ams_addr \<Rightarrow> write_request list \<Rightarrow> ('w, write_request list) op" where
  "write_multi comm addr requests =
     ibind (ilift (sumup_header SUMUP_WRITE (length requests)
         (4 * length requests)
         (sum_list (map (\<lambda>r. size_IndexLength + length (wr_wbuf r)) requests)))) (\<lambda>header.
     ibind (comm ReadWrite addr
         (header # map (\<lambda>r. index_length_bytes (wr_req r)) requests @ map wr_wbuf requests)
         (u32_le 0 # map (\<lambda>r. u32_le (wr_res r)) requests)) (\<lambda>(_, bufs).
     iret (map2 (\<lambda>r b. r\<lparr>wr_res := le_u32 b\<rparr>) requests (drop 1 bufs))))"

definition write_read_multi ::
  "'w comm \<Rightarrow> ams_addr \<Rightarrow> write_read_request list \<Rightarrow> ('w, write_read_request list) op" where
  "write_read_multi comm addr requests =
     ibind (ilift (sumup_header SUMUP_READWRITE (length requests)
         (sum_list (map (\<lambda>r. size_ResultLength + length (wrr_rbuf r)) requests))
         (sum_list (map (\<lambda>r. size_IndexLengthRW + length (wrr_wbuf r)) requests)))) (\<lambda>header.
     ibind (comm ReadWrite addr
         (header # map (\<lambda>r. index_length_rw_bytes (wrr_req r)) requests @ map wrr_wbuf requests)
         (result_bufs_of wrr_res wrr_rbuf requests)) (\<lambda>(_, bufs).
     ilift (fixup_write_read_return_buffers
       (put_results (\<lambda>r x d. r\<lparr>wrr_res := x, wrr_rbuf := d\<rparr>) bufs requests))))"

text \<open>The loops that record or forget the handles of the requests that succeeded.\<close>

primrec insert_handles :: "ams_addr \<Rightarrow> 'id add_notif_request list \<Rightarrow> ('w, unit) op" where
  "insert_handles addr [] = iret ()"
| "insert_handles addr (r # rs) =
     (case add_notif_request_handle r of
        Ok h \<Rightarrow> ibind (insert_handle addr h) (\<lambda>_. insert_handles addr rs)
      | _ \<Rightarrow> insert_handles addr rs)"

primrec remove_handles :: "ams_addr \<Rightarrow> del_notif_request list \<Rightarrow> ('w, unit) op" where
  "remove_handles addr [] = iret ()"
| "remove_handles addr (r # rs) =
     (if is_ok (del_notif_request_ensure r)
      then ibind (remove_handle addr (dnr_req r)) (\<lambda>_. remove_handles addr rs)
      else remove_handles addr rs)"

definition add_notification_multi ::
  "'w comm \<Rightarrow> ams_addr \<Rightarrow> 'id add_notif_request list \<Rightarrow> ('w, 'id add_notif_request list) op" where
  "add_notification_multi comm addr requests =
     ibind (ilift (sumup_header SUMUP_ADDDEVNOTE (length requests)
         (size_ResultLength * length requests) (size_AddNotif * length requests))) (\<lambda>header.
     ibind (comm ReadWrite addr
         (header # map (\<lambda>r. add_notif_bytes (anr_req r)) requests)
         (u32_le 0 # map (\<lambda>r. result_length_bytes (anr_res r)) requests)) (\<lambda>(_, bufs).
     let requests' = map2 (\<lambda>r b. r\<lparr>anr_res := result_length_read b\<rparr>) requests (drop 1 bufs) in
     ibind (insert_handles addr requests') (\<lambda>_. iret requests')))"

definition delete_notification_multi ::
  "'w comm \<Rightarrow> ams_addr \<Rightarrow> del_notif_request list \<Rightarrow> ('w, del_notif_request list) op" where
  "delete_notification_multi comm addr requests =
     ibind (ilift (sumup_header SUMUP_DELDEVNOTE (length requests)
         (4 * length requests) (4 * length requests))) (\<lambda>header.
     ibind (comm ReadWrite addr
         (header # map (\<lambda>r. u32_le (dnr_req r)) requests)
         (u32_le 0 # map (\<lambda>r. u32_le (dnr_res r)) requests)) (\<lambda>(_, bufs).
     let requests' = map2 (\<lambda>r b. r\<lparr>dnr_res := le_u32 b\<rparr>) requests (drop 1 bufs) in
     ibind (remove_handles addr requests') (\<lambda>_. iret requests')))"

section \<open>The end of a client\<close>

text \<open>\<open>let _ = self.device(addr).delete_notification(handle);\<close> for the handles in order.\<close>

primrec drop_handles :: "'w comm \<Rightarrow> (ams_addr \<times> handle) list \<Rightarrow> ('w, unit) op" where
  "drop_handles comm [] = iret ()"
| "drop_handles comm (ah # ahs) =
     (\<lambda>s. icatch (delete_notification comm (device_addr (fst s) (fst ah)) (snd ah))
            (\<lambda>_. drop_handles comm ahs) s)"

text \<open>
  \<open>drop\<close>: the set is taken out and its handles are deleted, then the port is given back;
  the value is what is written to the socket last.
\<close>

definition client_drop :: "'w comm \<Rightarrow> ('w, bytes option) op" where
  "client_drop comm = (\<lambda>(cl, w).
     ibind (drop_handles comm (sorted_list_of_set (notif_handles cl)))
       (\<lambda>_ s'. (Ok (if source_port_opened cl then Some (close_port_msg (source cl)) else None), s'))
       (cl\<lparr>notif_handles := {}\<rparr>, w))"

section \<open>Replies cut along the buffers\<close>

lemma scatter_append:
  "map length ds = map length bs \<Longrightarrow> scatter (bs @ cs) (concat ds @ rest) = ds @ scatter cs rest"
proof (induction bs arbitrary: ds)
  case (Cons b bs)
  then show ?case by (cases ds) auto
qed simp

lemma scatter_exact: "map length ds = map length bs \<Longrightarrow> scatter bs (concat ds) = ds"
  using scatter_append [of ds bs "[]" "[]"] by simp

lemma scatter_Cons: "length d = length b \<Longrightarrow> scatter (b # bs) (d @ rest) = d # scatter bs rest"
  by simp

lemma put_results_eq:
  assumes "length bs = length reqs" "length ds = length reqs"
  shows "put_results upd (h # bs @ ds) reqs = map2 (\<lambda>r (b, d). upd r (result_length_read b) d) reqs (zip bs ds)"
  using assms by (simp add: put_results_def Let_def)

lemma put_results_scatter:
  assumes "length xs = length reqs"
  shows "put_results upd
      (scatter (result_bufs_of res rbuf reqs) (u32_le n @ concat (map result_length_bytes xs) @ data)) reqs =
    map2 (\<lambda>r (x, d). upd r x d) reqs (zip xs (scatter (map rbuf reqs) data))"
proof -
  have "scatter (result_bufs_of res rbuf reqs) (u32_le n @ concat (map result_length_bytes xs) @ data) =
      u32_le n # map result_length_bytes xs @ scatter (map rbuf reqs) data"
    using assms scatter_append [of "map result_length_bytes xs" "map (\<lambda>r. result_length_bytes (res r)) reqs"
        "map rbuf reqs" data]
    by (simp add: result_bufs_of_def comp_def map_replicate_const)
  then show ?thesis
    using assms
    by (simp add: put_results_eq) (auto intro!: nth_equalityI)
qed

section \<open>What a device answers to a sum-up request\<close>

text \<open>An answer is a result code and the data returned for one request.\<close>

type_synonym answer = "u32 \<times> bytes"

definition answer_result :: "answer \<Rightarrow> result_length" where
  "answer_result a = \<lparr>rl_result = fst a, rl_length = of_nat (length (snd a))\<rparr>"

text \<open>The reply to \<open>SUMUP_READWRITE\<close>: the results, then the returned bytes without gaps.\<close>

definition sumup_rw_reply :: "u32 \<Rightarrow> answer list \<Rightarrow> bytes" where
  "sumup_rw_reply n as =
     u32_le n @ concat (map (\<lambda>a. result_length_bytes (answer_result a)) as) @ concat (map snd as)"

text \<open>The reply to \<open>SUMUP_READ_EX\<close>: every piece of data fills the length that was requested.\<close>

definition sumup_read_reply :: "u32 \<Rightarrow> answer list \<Rightarrow> bytes list \<Rightarrow> bytes" where
  "sumup_read_reply n as pads =
     u32_le n @ concat (map (\<lambda>a. result_length_bytes (answer_result a)) as) @
     concat (map2 (\<lambda>a pad. snd a @ pad) as pads)"

text \<open>What a caller should get from a request.\<close>

definition answer_data :: "string \<Rightarrow> answer \<Rightarrow> bytes res" where
  "answer_data act a = (if fst a \<noteq> 0 then ads_error act (fst a) else Ok (snd a))"

lemma write_read_request_data_answer:
  assumes "wrr_res r = answer_result a" "length (snd a) < 4294967296"
    and "take (length (snd a)) (wrr_rbuf r) = snd a" "length (snd a) \<le> length (wrr_rbuf r)"
  shows "write_read_request_data r = answer_data ''multi-read/write data'' a"
  using assms by (simp add: write_read_request_data_def answer_data_def answer_result_def slice_of_def)

lemma read_request_data_answer:
  assumes "rr_res r = answer_result a" "length (snd a) < 4294967296"
    and "take (length (snd a)) (rr_rbuf r) = snd a" "length (snd a) \<le> length (rr_rbuf r)"
  shows "read_request_data r = answer_data ''multi-read data'' a"
  using assms by (simp add: read_request_data_def answer_data_def answer_result_def slice_of_def)

text \<open>The requests after the scatter of such a reply, before the repair.\<close>

lemma map2_fields:
  assumes "length xs = length rs" "length ds = length rs"
  shows "map wrr_rbuf (map2 (\<lambda>r (x, d). r\<lparr>wrr_res := x, wrr_rbuf := d\<rparr>) rs (zip xs ds)) = ds"
    "map wrr_res (map2 (\<lambda>r (x, d). r\<lparr>wrr_res := x, wrr_rbuf := d\<rparr>) rs (zip xs ds)) = xs"
  using assms by (auto intro!: nth_equalityI)

lemma repair_answers:
  assumes "list_all2 (\<lambda>a r. length (snd a) \<le> length (wrr_rbuf r)) as rs"
    and small: "list_all (\<lambda>r. length (wrr_rbuf r) < 4294967296) rs"
  shows "\<exists>rs'. fixup_write_read_return_buffers
        (map2 (\<lambda>r (x, d). r\<lparr>wrr_res := x, wrr_rbuf := d\<rparr>) rs
          (zip (map answer_result as) (scatter (map wrr_rbuf rs) (concat (map snd as))))) = Ok rs' \<and>
      map write_read_request_data rs' = map (answer_data ''multi-read/write data'') as"
proof -
  let ?rs = "map2 (\<lambda>r (x, d). r\<lparr>wrr_res := x, wrr_rbuf := d\<rparr>) rs
      (zip (map answer_result as) (scatter (map wrr_rbuf rs) (concat (map snd as))))"
  have len: "length as = length rs" using assms(1) list_all2_lengthD by blast
  have lt: "length (snd (as ! k)) < 4294967296" if "k < length rs" for k
    using assms that len by (fastforce simp: list_all2_conv_all_nth list_all_length)
  have res: "map wrr_res ?rs = map answer_result as"
    by (rule map2_fields(2)) (use len in simp_all)
  have rbuf: "map wrr_rbuf ?rs = scatter (map wrr_rbuf rs) (concat (map snd as))"
    by (rule map2_fields(1)) (use len in simp_all)
  have act: "map wrr_act ?rs = map length (map snd as)"
    using len lt by (auto intro!: nth_equalityI simp: wrr_act_def answer_result_def)
  obtain rs' where fx: "fixup_write_read_return_buffers ?rs = Ok rs'"
    and r1: "map wrr_res rs' = map wrr_res ?rs"
    and r2: "map (\<lambda>r. take (wrr_act r) (wrr_rbuf r)) rs' = map snd as"
    and r3: "map wrr_init rs' = map wrr_init ?rs"
    by (rule fixup_scatter [OF rbuf act])
      (use assms(1) len in \<open>auto simp: list_all2_conv_all_nth\<close>)
  have len': "length rs' = length rs" using r1 len by (metis length_map res)
  have "write_read_request_data (rs' ! k) = answer_data ''multi-read/write data'' (as ! k)"
    if k: "k < length rs" for k
  proof (rule write_read_request_data_answer)
    show x: "wrr_res (rs' ! k) = answer_result (as ! k)"
      using r1 res k len len' by (metis nth_map)
    show "length (snd (as ! k)) < 4294967296" using lt k .
    have act': "wrr_act (rs' ! k) = length (snd (as ! k))"
      using x lt [OF k] by (simp add: wrr_act_def answer_result_def)
    show "take (length (snd (as ! k))) (wrr_rbuf (rs' ! k)) = snd (as ! k)"
      using arg_cong [OF r2, of "\<lambda>l. l ! k"] k len len' act' by simp
    then show "length (snd (as ! k)) \<le> length (wrr_rbuf (rs' ! k))"
      by (metis length_take min.cobounded1)
  qed
  then have "map write_read_request_data rs' = map (answer_data ''multi-read/write data'') as"
    using len len' by (intro nth_equalityI) auto
  with fx show ?thesis by blast
qed

lemma read_answers:
  assumes "list_all2 (\<lambda>(a, pad) r. length (snd a) + length pad = length (rr_rbuf r)) (zip as pads) rs"
    and "length pads = length as" and "list_all (\<lambda>r. length (rr_rbuf r) < 4294967296) rs"
  shows "map read_request_data
      (map2 (\<lambda>r (x, d). r\<lparr>rr_res := x, rr_rbuf := d\<rparr>) rs
        (zip (map answer_result as) (scatter (map rr_rbuf rs) (concat (map2 (\<lambda>a pad. snd a @ pad) as pads))))) =
    map (answer_data ''multi-read data'') as"
proof -
  have len: "length as = length rs" using assms(1,2) list_all2_lengthD by fastforce
  have each: "length (snd (as ! k)) + length (pads ! k) = length (rr_rbuf (rs ! k))"
    if "k < length rs" for k
    using assms(1,2) that len by (simp add: list_all2_conv_all_nth)
  have "map length (map2 (\<lambda>a pad. snd a @ pad) as pads) = map length (map rr_rbuf rs)"
    using each len assms(2) by (intro nth_equalityI) auto
  then have sc: "scatter (map rr_rbuf rs) (concat (map2 (\<lambda>a pad. snd a @ pad) as pads)) =
      map2 (\<lambda>a pad. snd a @ pad) as pads"
    by (rule scatter_exact)
  show ?thesis
    unfolding sc
    using each len assms(2,3)
    by (auto intro!: nth_equalityI read_request_data_answer simp: list_all_length)
      (metis add_lessD1, metis le_add1)
qed

lemma sumup_header_Ok:
  "rlen < 4294967296 \<Longrightarrow> wlen < 4294967296 \<Longrightarrow>
     sumup_header grp nreq rlen wlen =
       Ok (index_length_rw_bytes \<lparr>rw_index_group = grp, rw_index_offset = of_nat nreq,
             rw_read_length = of_nat rlen, rw_write_length = of_nat wlen\<rparr>)"
  by (simp add: sumup_header_def)

text \<open>The payloads of the sum-up requests.\<close>

definition rw_payload :: "write_read_request list \<Rightarrow> bytes list" where
  "rw_payload rs =
     index_length_rw_bytes
       \<lparr>rw_index_group = SUMUP_READWRITE, rw_index_offset = of_nat (length rs),
        rw_read_length = of_nat (sum_list (map (\<lambda>r. 8 + length (wrr_rbuf r)) rs)),
        rw_write_length = of_nat (sum_list (map (\<lambda>r. 16 + length (wrr_wbuf r)) rs))\<rparr>
     # map (\<lambda>r. index_length_rw_bytes (wrr_req r)) rs @ map wrr_wbuf rs"

definition read_payload :: "read_request list \<Rightarrow> bytes list" where
  "read_payload rs =
     index_length_rw_bytes
       \<lparr>rw_index_group = SUMUP_READ_EX, rw_index_offset = of_nat (length rs),
        rw_read_length = of_nat (sum_list (map (\<lambda>r. 8 + length (rr_rbuf r)) rs)),
        rw_write_length = of_nat (12 * length rs)\<rparr>
     # map (\<lambda>r. index_length_bytes (rr_req r)) rs"

lemma sum_list_member_le: "x \<in> set xs \<Longrightarrow> f x \<le> sum_list (map f xs)" for f :: "'b \<Rightarrow> nat"
  by (induction xs) auto

text \<open>A sum-up write/read over any transport that delivers such a reply.\<close>

lemma write_read_multi_answers:
  assumes "comm ReadWrite addr (rw_payload rs) (result_bufs_of wrr_res wrr_rbuf rs) s =
      (Ok (m, scatter (result_bufs_of wrr_res wrr_rbuf rs) (sumup_rw_reply n as)), s')"
    and "list_all2 (\<lambda>a r. length (snd a) \<le> length (wrr_rbuf r)) as rs"
    and rl: "sum_list (map (\<lambda>r. 8 + length (wrr_rbuf r)) rs) < 4294967296"
    and "sum_list (map (\<lambda>r. 16 + length (wrr_wbuf r)) rs) < 4294967296"
  shows "\<exists>rs'. write_read_multi comm addr rs s = (Ok rs', s') \<and>
    map write_read_request_data rs' = map (answer_data ''multi-read/write data'') as"
proof -
  have "length (wrr_rbuf r) < 4294967296" if "r \<in> set rs" for r
    using sum_list_member_le [OF that, of "\<lambda>r. 8 + length (wrr_rbuf r)"] rl by linarith
  then have small: "list_all (\<lambda>r. length (wrr_rbuf r) < 4294967296) rs" by (simp add: list_all_iff)
  have len: "length as = length rs" using assms(2) list_all2_lengthD by blast
  obtain rs' where "fixup_write_read_return_buffers
        (map2 (\<lambda>r (x, d). r\<lparr>wrr_res := x, wrr_rbuf := d\<rparr>) rs
          (zip (map answer_result as) (scatter (map wrr_rbuf rs) (concat (map snd as))))) = Ok rs'"
      "map write_read_request_data rs' = map (answer_data ''multi-read/write data'') as"
    using repair_answers [OF assms(2) small] by blast
  moreover have "write_read_multi comm addr rs s =
      (fixup_write_read_return_buffers (put_results (\<lambda>r x d. r\<lparr>wrr_res := x, wrr_rbuf := d\<rparr>)
         (scatter (result_bufs_of wrr_res wrr_rbuf rs) (sumup_rw_reply n as)) rs), s')"
    using assms(1,3,4)
    by (simp add: write_read_multi_def ibind_def sumup_header_Ok struct_sizes rw_payload_def)
  moreover have "put_results (\<lambda>r x d. r\<lparr>wrr_res := x, wrr_rbuf := d\<rparr>)
      (scatter (result_bufs_of wrr_res wrr_rbuf rs) (sumup_rw_reply n as)) rs =
    map2 (\<lambda>r (x, d). r\<lparr>wrr_res := x, wrr_rbuf := d\<rparr>) rs
      (zip (map answer_result as) (scatter (map wrr_rbuf rs) (concat (map snd as))))"
    using put_results_scatter [of "map answer_result as" rs] len
    by (simp add: sumup_rw_reply_def comp_def)
  ultimately show ?thesis by simp
qed

lemma read_multi_answers:
  assumes "comm ReadWrite addr (read_payload rs) (result_bufs_of rr_res rr_rbuf rs) s =
      (Ok (m, scatter (result_bufs_of rr_res rr_rbuf rs) (sumup_read_reply n as pads)), s')"
    and "list_all2 (\<lambda>(a, pad) r. length (snd a) + length pad = length (rr_rbuf r)) (zip as pads) rs"
    and "length pads = length as"
    and rl: "sum_list (map (\<lambda>r. 8 + length (rr_rbuf r)) rs) < 4294967296"
    and "12 * length rs < 4294967296"
  shows "\<exists>rs'. read_multi comm addr rs s = (Ok rs', s') \<and>
    map read_request_data rs' = map (answer_data ''multi-read data'') as"
proof -
  have "length (rr_rbuf r) < 4294967296" if "r \<in> set rs" for r
    using sum_list_member_le [OF that, of "\<lambda>r. 8 + length (rr_rbuf r)"] rl by linarith
  then have small: "list_all (\<lambda>r. length (rr_rbuf r) < 4294967296) rs" by (simp add: list_all_iff)
  have len: "length as = length rs" using assms(2,3) list_all2_lengthD by fastforce
  have "read_multi comm addr rs s =
      (Ok (put_results (\<lambda>r x d. r\<lparr>rr_res := x, rr_rbuf := d\<rparr>)
         (scatter (result_bufs_of rr_res rr_rbuf rs) (sumup_read_reply n as pads)) rs), s')"
    using assms(1,4,5)
    by (simp add: read_multi_def ibind_def sumup_header_Ok struct_sizes read_payload_def)
  moreover have "put_results (\<lambda>r x d. r\<lparr>rr_res := x, rr_rbuf := d\<rparr>)
      (scatter (result_bufs_of rr_res rr_rbuf rs) (sumup_read_reply n as pads)) rs =
    map2 (\<lambda>r (x, d). r\<lparr>rr_res := x, rr_rbuf := d\<rparr>) rs
      (zip (map answer_result as)
        (scatter (map rr_rbuf rs) (concat (map2 (\<lambda>a pad. snd a @ pad) as pads))))"
    using put_results_scatter [of "map answer_result as" rs] len
    by (simp add: sumup_read_reply_def comp_def)
  ultimately show ?thesis using read_answers [OF assms(2,3) small] by simp
qed

section \<open>Loops over the handles\<close>

lemma insert_handles_effect:
  "insert_handles addr rs s =
     (Ok (), ((fst s)\<lparr>notif_handles := notif_handles (fst s) \<union>
        (\<lambda>r. (addr, rl_length (anr_res r))) ` set (filter (\<lambda>r. rl_result (anr_res r) = 0) rs)\<rparr>, snd s))"
proof (induction rs arbitrary: s)
  case Nil
  then show ?case by (cases s) simp
next
  case (Cons r rs)
  then show ?case
    by (simp add: add_notif_request_handle_def ads_error_map_of ibind_def insert_handle_def split_beta)
qed

lemma remove_handles_effect:
  "remove_handles addr rs s =
     (Ok (), ((fst s)\<lparr>notif_handles := notif_handles (fst s) -
        (\<lambda>r. (addr, dnr_req r)) ` set (filter (\<lambda>r. dnr_res r = 0) rs)\<rparr>, snd s))"
proof (induction rs arbitrary: s)
  case Nil
  then show ?case by (cases s) simp
next
  case (Cons r rs)
  then show ?case
    by (simp add: del_notif_request_ensure_def ads_error_map_of ibind_def remove_handle_def split_beta
        Diff_insert2 [symmetric])
qed

section \<open>Operations over any transport\<close>

context transport
begin

lemma dev_read_buffer:
  assumes "dev_read comm addr grp ofs data s = (Ok (n, data'), s')"
  shows "length data' = length data" "n < 4294967296"
    "\<exists>reply. 4 \<le> length reply \<and> n = unat (le_u32 (take 4 reply)) \<and> data' = hd (scatter [data] (drop 4 reply))"
proof -
  obtain m bufs where c: "comm Read addr
      [index_length_bytes \<lparr>index_group = grp, index_offset = ofs, il_length = of_nat (length data)\<rparr>]
      [u32_le 0, data] s = (Ok (m, bufs), s')" and n: "n = unat (le_u32 (bufs ! 0))" "data' = bufs ! 1"
    using assms by (auto simp: dev_read_def ibind_eq_Ok try_u32_eq_Ok)
  obtain reply where r: "room_for [u32_le 0, data] reply" "bufs = scatter [u32_le 0, data] reply"
    using delivers [OF c] by blast
  then have four: "4 \<le> length reply" by (simp add: room_for_def)
  show "\<exists>reply. 4 \<le> length reply \<and> n = unat (le_u32 (take 4 reply)) \<and> data' = hd (scatter [data] (drop 4 reply))"
    using four n r(2) by (intro exI [of _ reply]) simp
  show "length data' = length data" using lengths [OF c] n(2) by (auto simp: map_eq_Cons_conv)
  show "n < 4294967296" using n(1) unat_lt [of "le_u32 (bufs ! 0)"] by simp
qed

lemma read_exact_buffer:
  "read_exact comm addr grp ofs data s = (Ok data', s') \<Longrightarrow> length data' = length data"
  by (auto simp: read_exact_def ibind_eq_Ok split: if_splits dest: dev_read_buffer(1))

lemma write_read_buffer:
  assumes "write_read comm addr grp ofs wdata rdata s = (Ok (n, rdata'), s')"
  shows "length rdata' = length rdata"
proof -
  obtain m bufs ws where c: "comm ReadWrite addr ws [u32_le 0, rdata] s = (Ok (m, bufs), s')"
    and n: "rdata' = bufs ! 1"
    using assms by (auto simp: write_read_def ibind_eq_Ok try_u32_eq_Ok)
  show ?thesis using lengths [OF c] n by (auto simp: map_eq_Cons_conv)
qed

text \<open>Handles are recorded exactly when the device has accepted the notification.\<close>

lemma add_notification_handles:
  assumes "add_notification comm addr grp ofs attr s = (r, s')"
  shows "notif_handles (fst s') =
    (case r of Ok h \<Rightarrow> insert (addr, h) (notif_handles (fst s)) | _ \<Rightarrow> notif_handles (fst s))"
  using assms unfolding add_notification_def
  by (elim ibindE) (auto simp: Let_def insert_handle_def ibind_def dest!: keeps split: prod.splits)

lemma delete_notification_handles:
  assumes "delete_notification comm addr h s = (r, s')"
  shows "notif_handles (fst s') =
    (if is_ok r then notif_handles (fst s) - {(addr, h)} else notif_handles (fst s))"
  using assms unfolding delete_notification_def
proof (cases rule: ibindE)
  case (Ok x s1)
  have "notif_handles (fst s1) = notif_handles (fst s)" using keeps [OF Ok(1)] by blast
  moreover have "r = Ok ()" "fst s' = (fst s1)\<lparr>notif_handles := notif_handles (fst s1) - {(addr, h)}\<rparr>"
    using Ok(2) by (auto simp: remove_handle_def split_beta)
  ultimately show ?thesis by simp
next
  case (Err e)
  then show ?thesis using keeps [OF Err(1)] by simp
next
  case Panic
  then show ?thesis using keeps [OF Panic(1)] by simp
qed

text \<open>The sum-up forms keep account of every request they carry on its own.\<close>

lemma add_notification_multi_handles:
  assumes "add_notification_multi comm addr rs s = (Ok rs', s')"
  shows "notif_handles (fst s') = notif_handles (fst s) \<union>
    (\<lambda>r. (addr, rl_length (anr_res r))) ` set (filter (\<lambda>r. rl_result (anr_res r) = 0) rs')"
proof -
  obtain n bufs ws bs s1 where c: "comm ReadWrite addr ws bs s = (Ok (n, bufs), s1)"
    and i: "insert_handles addr rs' s1 = (Ok (), s')"
    using assms by (auto simp: add_notification_multi_def ibind_eq_Ok Let_def)
  show ?thesis using keeps [OF c] i by (auto simp: insert_handles_effect)
qed

lemma delete_notification_multi_handles:
  assumes "delete_notification_multi comm addr rs s = (Ok rs', s')"
  shows "notif_handles (fst s') = notif_handles (fst s) -
    (\<lambda>r. (addr, dnr_req r)) ` set (filter (\<lambda>r. dnr_res r = 0) rs')"
proof -
  obtain n bufs ws bs s1 where c: "comm ReadWrite addr ws bs s = (Ok (n, bufs), s1)"
    and i: "remove_handles addr rs' s1 = (Ok (), s')"
    using assms by (auto simp: delete_notification_multi_def ibind_eq_Ok Let_def)
  have "notif_handles (fst s1) = notif_handles (fst s)" using keeps [OF c] by blast
  moreover have "s' = snd (remove_handles addr rs' s1)" using i by simp
  ultimately show ?thesis by (simp add: remove_handles_effect)
qed

end

section \<open>What the end of a client sends\<close>

text \<open>A network that also keeps the requests it was given.\<close>

definition logged :: "'w net \<Rightarrow> ('w \<times> bytes list) net" where
  "logged net = (\<lambda>(w, l) b. let (x, w') = net w b in (x, (w', l @ [b])))"

lemma communicate_logs:
  assumes "communicate (logged net) cmd target ws rs (cl, (w, l)) = (r, (cl', (w', l')))" and "fits ws"
  shows "l' = l @ [request_bytes cl cmd target ws]"
proof (cases "net w (request_bytes cl cmd target ws)")
  case (Pair x w1)
  then have "logged net (w, l) (request_bytes cl cmd target ws) =
      (x, (w1, l @ [request_bytes cl cmd target ws]))" by (simp add: logged_def)
  with assms(1) show ?thesis by (simp add: communicate_fits [OF assms(2)] split: exchange.splits)
qed

lemma delete_notification_logs:
  assumes "delete_notification (communicate (logged net)) addr h (cl, (w, l)) = (r, (cl', (w', l')))"
  shows "l' = l @ [request_bytes cl DeleteNotification addr [u32_le h]]" "source cl' = source cl"
    "invoke_id cl' = invoke_id cl + 1"
proof -
  let ?c = "communicate (logged net) DeleteNotification addr [u32_le h] [] (cl, (w, l))"
  obtain r1 cl1 w1 l1 where c: "?c = (r1, (cl1, (w1, l1)))" by (metis prod_cases4)
  have e: "l' = l1 \<and> source cl' = source cl1 \<and> invoke_id cl' = invoke_id cl1"
    using assms unfolding delete_notification_def
    by (rule ibindE) (use c in \<open>auto simp: remove_handle_def\<close>)
  show "l' = l @ [request_bytes cl DeleteNotification addr [u32_le h]]"
    using communicate_logs [OF c] e by simp
  show "source cl' = source cl" "invoke_id cl' = invoke_id cl + 1"
    using communicate_client [OF c] e by simp_all
qed

definition delete_request :: "client \<Rightarrow> nat \<Rightarrow> ams_addr \<times> handle \<Rightarrow> bytes" where
  "delete_request cl k ah =
     request_bytes (cl\<lparr>invoke_id := invoke_id cl + of_nat k\<rparr>) DeleteNotification
       (device_addr cl (fst ah)) [u32_le (snd ah)]"

lemma delete_request_Suc:
  "source cl' = source cl \<Longrightarrow> invoke_id cl' = invoke_id cl + 1 \<Longrightarrow>
     delete_request cl' k ah = delete_request cl (Suc k) ah"
  by (simp add: delete_request_def device_addr_def request_bytes_def add.assoc)

lemma drop_handles_logs:
  assumes "drop_handles (communicate (logged net)) ahs (cl, (w, l)) = (r, (cl', (w', l')))" and "r \<noteq> Panic"
  shows "l' = l @ map2 (delete_request cl) [0..<length ahs] ahs"
  using assms
proof (induction ahs arbitrary: cl w l)
  case Nil
  then show ?case by simp
next
  case (Cons ah ahs)
  let ?d = "delete_notification (communicate (logged net)) (device_addr cl (fst ah)) (snd ah) (cl, (w, l))"
  obtain r1 cl1 w1 l1 where d: "?d = (r1, (cl1, (w1, l1)))" by (metis prod_cases4)
  have next_state: "drop_handles (communicate (logged net)) ahs (cl1, (w1, l1)) = (r, (cl', (w', l')))"
    using Cons.prems d by (cases r1) (auto simp: icatch_def)
  note e = delete_notification_logs [OF d]
  have "map2 (delete_request cl1) [0..<length ahs] ahs =
      map2 (delete_request cl) (map Suc [0..<length ahs]) ahs"
    using delete_request_Suc [OF e(2,3)] by (intro nth_equalityI) auto
  then have "l' = l1 @ map2 (delete_request cl) [1..<Suc (length ahs)] ahs"
    using Cons.IH [OF next_state Cons.prems(2)] by (simp add: map_Suc_upt)
  moreover have "[0..<length (ah # ahs)] = 0 # [1..<Suc (length ahs)]"
    by (simp add: upt_conv_Cons del: upt_Suc)
  moreover have "delete_request cl 0 ah = request_bytes cl DeleteNotification (device_addr cl (fst ah)) [u32_le (snd ah)]"
    by (simp add: delete_request_def)
  ultimately show ?case using e(1) by simp
qed

section \<open>Properties\<close>

text \<open>The exchange of an operation with an 8-byte or larger reply to a fixed peer.\<close>

lemma demo_communicate:
  assumes "fits ws" and "room_for rs data"
  shows "communicate (demo_net cmd (u32_le 0 @ data)) cmd demo_addr ws rs (demo_client, ()) =
    (Ok (if rs = [] then 0 else length data, scatter rs data), (next_request demo_client, ()))"
  by (rule communicate_reply [OF assms(1) _ demo_reply assms(2)]) (simp add: demo_net_def)

text \<open>
  A read returns the length the device reports and the caller's buffer overwritten by the
  bytes that came with it; bytes the device did not send are left as they were.
\<close>

theorem dev_read_reply:
  assumes "length data < 2 ^ 32"
    and "net w (request_bytes cl Read addr
        [index_length_bytes \<lparr>index_group = grp, index_offset = ofs, il_length = of_nat (length data)\<rparr>]) =
      (Sent (RecvReply h (u32_le 0 @ u32_le n @ d)), w')"
    and "reply_to Read addr (invoke_id cl) h"
  shows "dev_read (communicate net) addr grp ofs data (cl, w) =
    (Ok (unat n, take (length data) d @ drop (length d) data), (next_request cl, w'))"
proof -
  have "communicate net Read addr
      [index_length_bytes \<lparr>index_group = grp, index_offset = ofs, il_length = of_nat (length data)\<rparr>]
      [u32_le 0, data] (cl, w) =
    (Ok (length (u32_le n @ d), scatter [u32_le 0, data] (u32_le n @ d)), (next_request cl, w'))"
    using communicate_reply [where net = net and w = w, OF _ assms(2,3), of "[u32_le 0, data]"] by (simp add: room_for_def)
  with assms(1) show ?thesis by (simp add: dev_read_def ibind_def)
qed

theorem dev_read_reply_witness:
  "fst (dev_read (communicate (demo_net Read (u32_le 0 @ u32_le 2 @ [7, 9]))) demo_addr 61445 1 [0, 0, 0]
     (demo_client, ())) = Ok (2, [7, 9, 0])"
  using dev_read_reply [of "[0, 0, 0]" "demo_net Read (u32_le 0 @ u32_le 2 @ [7, 9])" "()" demo_client
      demo_addr 61445 1 "demo_header Read" 2 "[7, 9]" "()"] demo_reply [of Read]
  by (simp add: demo_net_def)

text \<open>
  \<open>read_exact\<close> compares the buffer with the length field of the reply, not with the data
  that arrived: a reply that claims the full length but carries no data is a success that
  leaves the buffer as it was.
\<close>

theorem read_exact_trusts_length:
  assumes "length data < 2 ^ 32"
    and "net w (request_bytes cl Read addr
        [index_length_bytes \<lparr>index_group = grp, index_offset = ofs, il_length = of_nat (length data)\<rparr>]) =
      (Sent (RecvReply h (u32_le 0 @ u32_le (of_nat (length data)))), w')"
    and "reply_to Read addr (invoke_id cl) h"
  shows "read_exact (communicate net) addr grp ofs data (cl, w) = (Ok data, (next_request cl, w'))"
proof -
  let ?il = "[index_length_bytes \<lparr>index_group = grp, index_offset = ofs, il_length = of_nat (length data)\<rparr>]"
  have "communicate net Read addr ?il [u32_le 0, data] (cl, w) =
    (Ok (4, scatter [u32_le 0, data] (u32_le (of_nat (length data)))), (next_request cl, w'))"
    using communicate_reply [where net = net and w = w, OF _ assms(2,3), of "[u32_le 0, data]"] by (simp add: room_for_def)
  with assms(1) show ?thesis by (simp add: read_exact_def dev_read_def ibind_def)
qed

theorem read_exact_trusts_length_witness:
  "fst (read_exact (communicate (demo_net Read (u32_le 0 @ u32_le 3))) demo_addr 61445 1 [4, 5, 6]
     (demo_client, ())) = Ok [4, 5, 6]"
  using read_exact_trusts_length [of "[4, 5, 6]" "demo_net Read (u32_le 0 @ u32_le 3)" "()" demo_client
      demo_addr 61445 1 "demo_header Read" "()"] demo_reply [of Read]
  by (simp add: demo_net_def)

text \<open>
  Adding notifications in one request records the handle of every single request the device
  accepted, under the device's address, and no other.
\<close>

theorem add_multi_records_handles:
  assumes "add_notification_multi (communicate net) addr rs s = (Ok rs', s')"
  shows "notif_handles (fst s') = notif_handles (fst s) \<union>
    (\<lambda>r. (addr, rl_length (anr_res r))) ` set (filter (\<lambda>r. rl_result (anr_res r) = 0) rs')"
  by (rule tcp.add_notification_multi_handles [OF assms])

definition demo_attributes :: attributes where
  "demo_attributes = \<lparr>at_length = 4, at_trans_mode = ServerOnChange, at_max_delay = 1000000, at_cycle_time = 0\<rparr>"

definition demo_add_reply :: bytes where
  "demo_add_reply = u32_le 16 @ result_length_bytes \<lparr>rl_result = 0, rl_length = 77\<rparr> @
     result_length_bytes \<lparr>rl_result = 1793, rl_length = 0\<rparr>"

lemma demo_add:
  "\<exists>rs'. add_notification_multi (communicate (demo_net ReadWrite (u32_le 0 @ demo_add_reply))) demo_addr
      [add_notif_request_new 1 2 demo_attributes, add_notif_request_new 1 3 demo_attributes] (demo_client, ()) =
    (Ok rs', ((next_request demo_client)\<lparr>notif_handles := {(demo_addr, 77)}\<rparr>, ())) \<and>
    map anr_res rs' = [\<lparr>rl_result = 0, rl_length = 77\<rparr>, \<lparr>rl_result = 1793, rl_length = 0\<rparr>]"
  by (simp add: add_notification_multi_def ibind_def sumup_header_Ok struct_sizes demo_communicate
      add_notif_request_new_def add_notif_bytes_def room_for_def demo_add_reply_def result_length_zeroed_def
      result_length_read_def result_length_bytes_def insert_handles_effect Let_def del: insert_handles.simps)
    (simp add: next_request_def demo_client_def)

theorem add_multi_records_handles_witness:
  "\<exists>rs' s'. add_notification_multi (communicate (demo_net ReadWrite (u32_le 0 @ demo_add_reply))) demo_addr
      [add_notif_request_new 1 2 demo_attributes, add_notif_request_new 1 3 demo_attributes] (demo_client, ()) =
    (Ok rs', s') \<and> notif_handles (fst s') = notif_handles demo_client \<union>
    (\<lambda>r. (demo_addr, rl_length (anr_res r))) ` set (filter (\<lambda>r. rl_result (anr_res r) = 0) rs')"
  using demo_add add_multi_records_handles by (metis fst_conv)

text \<open>
  Deleting notifications in one request forgets exactly the handles whose deletion the device
  confirmed; the others stay on record and are deleted again at the end of the client.
\<close>

theorem delete_multi_forgets_handles:
  assumes "delete_notification_multi (communicate net) addr rs s = (Ok rs', s')"
  shows "notif_handles (fst s') = notif_handles (fst s) -
    (\<lambda>r. (addr, dnr_req r)) ` set (filter (\<lambda>r. dnr_res r = 0) rs')"
  by (rule tcp.delete_notification_multi_handles [OF assms])

lemma demo_delete:
  "\<exists>rs' s'. delete_notification_multi (communicate (demo_net ReadWrite (u32_le 0 @ u32_le 4 @ u32_le 0)))
      demo_addr [del_notif_request_new 77] (demo_client, ()) = (Ok rs', s')"
  by (simp add: delete_notification_multi_def ibind_def sumup_header_Ok demo_communicate
      del_notif_request_new_def room_for_def remove_handles_effect Let_def del: remove_handles.simps)

theorem delete_multi_forgets_handles_witness:
  "\<exists>rs' s'. delete_notification_multi (communicate (demo_net ReadWrite (u32_le 0 @ u32_le 4 @ u32_le 0)))
      demo_addr [del_notif_request_new 77] (demo_client, ()) = (Ok rs', s') \<and>
    notif_handles (fst s') = notif_handles demo_client -
      (\<lambda>r. (demo_addr, dnr_req r)) ` set (filter (\<lambda>r. dnr_res r = 0) rs')"
  using demo_delete delete_multi_forgets_handles by (metis fst_conv)

text \<open>
  C26. Dropping a client sends, for every notification handle it still has on record, one request
  to delete it to the device it belongs to, in the order of the set and with consecutive invoke
  IDs, even when some of the deletions fail; then, if a port was opened, it gives it back. This
  holds for every drop that does not panic, as it does on a confirmation without a result field.
\<close>

theorem client_drop_deletes_all:
  assumes "client_drop (communicate (logged net)) (cl, (w, [])) = (r, (cl', (w', sent)))" and "r \<noteq> Panic"
  shows "sent = map2 (delete_request cl) [0..<card (notif_handles cl)] (sorted_list_of_set (notif_handles cl)) \<and>
    r = Ok (if source_port_opened cl then Some (close_port_msg (source cl)) else None)"
proof -
  let ?cl = "cl\<lparr>notif_handles := {}\<rparr>" and ?hs = "sorted_list_of_set (notif_handles cl)"
  have same: "delete_request ?cl = delete_request cl"
    by (intro ext) (simp add: delete_request_def device_addr_def request_bytes_def)
  from assms(1) have "ibind (drop_handles (communicate (logged net)) ?hs)
      (\<lambda>_ s'. (Ok (if source_port_opened cl then Some (close_port_msg (source cl)) else None), s'))
      (?cl, (w, [])) = (r, (cl', (w', sent)))" by (simp add: client_drop_def)
  then show ?thesis
  proof (cases rule: ibindE)
    case (Ok x s1)
    then have "drop_handles (communicate (logged net)) ?hs (?cl, (w, [])) = (Ok x, (cl', (w', sent)))" by simp
    from drop_handles_logs [OF this] Ok(2) same show ?thesis by simp
  next
    case (Err e)
    have "fst (drop_handles c ahs s) \<noteq> Err e" for c :: "('w \<times> bytes list) comm" and ahs s
      by (induction ahs arbitrary: s) (auto simp: icatch_def split: prod.split outcome.split)
    with Err(1) show ?thesis by (metis fst_conv)
  qed (use assms(2) in simp)
qed

theorem client_drop_deletes_all_witness:
  "\<exists>r s'. client_drop (communicate (logged (\<lambda>w b. (WriteErr (io_of_kind TimedOut), w))))
      (demo_client\<lparr>notif_handles := {(demo_addr, 77)}\<rparr>, ((), [])) = (r, s') \<and>
    snd (snd s') = map2 (delete_request (demo_client\<lparr>notif_handles := {(demo_addr, 77)}\<rparr>))
      [0..<1] [(demo_addr, 77)]"
proof -
  let ?cl = "demo_client\<lparr>notif_handles := {(demo_addr, 77)}\<rparr>"
  let ?d = "client_drop (communicate (logged (\<lambda>w b. (WriteErr (io_of_kind TimedOut), w)))) (?cl, ((), []))"
  obtain r cl' w' sent where d: "?d = (r, (cl', (w', sent)))" by (metis prod_cases4)
  have "fst ?d \<noteq> Panic"
    by (simp add: client_drop_def ibind_def icatch_def delete_notification_def communicate_fits logged_def)
  then have "r \<noteq> Panic" using d by simp
  from client_drop_deletes_all [OF d this] d show ?thesis by simp
qed

end
