(* ===== verification/Ads_Text.thy ===== *)
theory Ads_Text
  imports Ads_Errors
begin

text \<open>
  The parts of Rust's text handling the crate relies on: validity of UTF-8
  (\<open>str::from_utf8\<close>), the lossy conversion (\<open>String::from_utf8_lossy\<close>), characters as Unicode
  scalar values, and UTF-16. A \<open>String\<close> is kept as its UTF-8 bytes.
\<close>

section \<open>UTF-8\<close>

definition byte_in :: "nat \<Rightarrow> nat \<Rightarrow> u8 \<Rightarrow> bool" where
  "byte_in a b x \<longleftrightarrow> a \<le> unat x \<and> unat x \<le> b"

text \<open>The byte at a position, 0 behind the end (0 continues no sequence).\<close>

definition get_or_0 :: "bytes \<Rightarrow> nat \<Rightarrow> u8" where
  "get_or_0 s i = (if i < length s then s ! i else 0)"

definition is_cont :: "u8 \<Rightarrow> bool" where
  "is_cont x = byte_in 0x80 0xBF x"

definition second_of_3 :: "u8 \<Rightarrow> u8 \<Rightarrow> bool" where
  "second_of_3 a b \<longleftrightarrow>
     (a = 0xE0 \<and> byte_in 0xA0 0xBF b) \<or> (byte_in 0xE1 0xEC a \<and> is_cont b) \<or>
     (a = 0xED \<and> byte_in 0x80 0x9F b) \<or> (byte_in 0xEE 0xEF a \<and> is_cont b)"

definition second_of_4 :: "u8 \<Rightarrow> u8 \<Rightarrow> bool" where
  "second_of_4 a b \<longleftrightarrow>
     (a = 0xF0 \<and> byte_in 0x90 0xBF b) \<or> (byte_in 0xF1 0xF3 a \<and> is_cont b) \<or>
     (a = 0xF4 \<and> byte_in 0x80 0x8F b)"

text \<open>
  The first sequence of a string: whether it is valid, and its length (for an invalid one the
  number of bytes that one replacement character stands for).
\<close>

definition utf8_step :: "bytes \<Rightarrow> bool \<times> nat" where
  "utf8_step s =
     (let b = get_or_0 s in
      if byte_in 0 0x7F (b 0) then (True, 1)
      else if byte_in 0xC2 0xDF (b 0) then (if is_cont (b 1) then (True, 2) else (False, 1))
      else if byte_in 0xE0 0xEF (b 0) then
        (if \<not> second_of_3 (b 0) (b 1) then (False, 1)
         else if \<not> is_cont (b 2) then (False, 2) else (True, 3))
      else if byte_in 0xF0 0xF4 (b 0) then
        (if \<not> second_of_4 (b 0) (b 1) then (False, 1)
         else if \<not> is_cont (b 2) then (False, 2)
         else if \<not> is_cont (b 3) then (False, 3) else (True, 4))
      else (False, 1))"

lemma utf8_step_pos: "utf8_step s = (v, n) \<Longrightarrow> 0 < n"
  by (auto simp: utf8_step_def Let_def split: if_splits)

lemma get_or_0_in: "byte_in a b (get_or_0 s i) \<Longrightarrow> 0 < a \<Longrightarrow> i < length s"
  by (auto simp: get_or_0_def byte_in_def split: if_splits)

lemma is_cont_in: "is_cont (get_or_0 s i) \<Longrightarrow> i < length s"
  unfolding is_cont_def by (erule get_or_0_in) simp

lemma utf8_step_le: "s \<noteq> [] \<Longrightarrow> utf8_step s = (v, n) \<Longrightarrow> n \<le> length s"
  using is_cont_in [of s 1] is_cont_in [of s 2] is_cont_in [of s 3]
    get_or_0_in [of _ _ s 1]
  by (fastforce simp: utf8_step_def Let_def second_of_3_def second_of_4_def Suc_le_eq
      split: if_splits)

function utf8_valid :: "bytes \<Rightarrow> bool" where
  "utf8_valid s =
     (if s = [] then True
      else case utf8_step s of (v, n) \<Rightarrow> v \<and> utf8_valid (drop n s))"
  by pat_completeness auto
termination
  by (relation "measure length") (auto dest!: sym [of "(_, _)"] simp: utf8_step_pos)

declare utf8_valid.simps [simp del]

text \<open>Each invalid sequence becomes one U+FFFD.\<close>

function utf8_lossy :: "bytes \<Rightarrow> rstring" where
  "utf8_lossy s =
     (if s = [] then []
      else case utf8_step s of (v, n) \<Rightarrow>
        (if v then take n s else [0xEF, 0xBF, 0xBD]) @ utf8_lossy (drop n s))"
  by pat_completeness auto
termination
  by (relation "measure length") (auto dest!: sym [of "(_, _)"] simp: utf8_step_pos)

declare utf8_lossy.simps [simp del]

lemma utf8_nil [simp]: "utf8_valid []" "utf8_lossy [] = []"
  by (simp_all add: utf8_valid.simps utf8_lossy.simps)

lemma utf8_lossy_valid: "utf8_valid s \<Longrightarrow> utf8_lossy s = s"
proof (induction s rule: utf8_valid.induct)
  case (1 s)
  show ?case
  proof (cases "s = []")
    case False
    obtain v n where st: "utf8_step s = (v, n)" by fastforce
    with "1.prems" False have v: "v" and d: "utf8_valid (drop n s)"
      by (simp_all add: utf8_valid.simps [of s])
    have "utf8_lossy (drop n s) = drop n s" using "1.IH" [OF False st [symmetric] d] .
    with False st v show ?thesis by (simp add: utf8_lossy.simps [of s])
  qed simp
qed

text \<open>A valid first sequence is recognised whatever follows it.\<close>

lemma utf8_step_prefix:
  assumes "s \<noteq> []" and "utf8_step s = (True, n)"
  shows "utf8_step (take n s @ t) = (True, n)"
proof -
  have n: "n \<le> length s" by (rule utf8_step_le [OF assms])
  then have g: "get_or_0 (take n s @ t) i = get_or_0 s i" if "i < n" for i
    using that by (simp add: get_or_0_def nth_append)
  show ?thesis
    using assms(2) g [of 0] g [of 1] g [of 2] g [of 3]
    by (auto simp: utf8_step_def Let_def split: if_splits)
qed

lemma utf8_step_replacement: "utf8_step (0xEF # 0xBF # 0xBD # t) = (True, 3)"
  by (simp add: utf8_step_def get_or_0_def byte_in_def second_of_3_def is_cont_def Let_def)

lemma utf8_valid_lossy: "utf8_valid (utf8_lossy s)"
proof (induction s rule: utf8_lossy.induct)
  case (1 s)
  show ?case
  proof (cases "s = []")
    case False
    obtain v n where st: "utf8_step s = (v, n)" by fastforce
    have IH: "utf8_valid (utf8_lossy (drop n s))" using "1.IH" [OF False st [symmetric]] .
    have n: "0 < n" "n \<le> length s" using utf8_step_pos [OF st] utf8_step_le [OF False st] by auto
    show ?thesis
    proof (cases v)
      case True
      then have "utf8_step (take n s @ utf8_lossy (drop n s)) = (True, n)"
        using utf8_step_prefix [OF False] st by simp
      with IH n True False st show ?thesis
        by (simp add: utf8_lossy.simps [of s] utf8_valid.simps [of "take n s @ _"])
    next
      case v: False
      with IH False st show ?thesis
        by (simp add: utf8_lossy.simps [of s] utf8_valid.simps [of "_ # _"] utf8_step_replacement)
    qed
  qed simp
qed

lemma utf8_valid_ascii: "list_all (\<lambda>b. unat b < 128) s \<Longrightarrow> utf8_valid s"
proof (induction s)
  case (Cons b s)
  then have "utf8_step (b # s) = (True, 1)"
    by (simp add: utf8_step_def get_or_0_def byte_in_def)
  with Cons show ?case by (simp add: utf8_valid.simps [of "b # s"])
qed simp

definition from_utf8 :: "bytes \<Rightarrow> rstring option" where
  "from_utf8 b = (if utf8_valid b then Some b else None)"

section \<open>Characters\<close>

text \<open>A \<open>char\<close> as its code point, and its UTF-8 encoding.\<close>

definition is_scalar :: "nat \<Rightarrow> bool" where
  "is_scalar c \<longleftrightarrow> c < 0xD800 \<or> (0xDFFF < c \<and> c < 0x110000)"

definition utf8_encode :: "nat \<Rightarrow> bytes" where
  "utf8_encode c =
     (if c < 0x80 then [of_nat c]
      else if c < 0x800 then [of_nat (0xC0 + c div 64), of_nat (0x80 + c mod 64)]
      else if c < 0x10000 then
        [of_nat (0xE0 + c div 4096), of_nat (0x80 + c div 64 mod 64), of_nat (0x80 + c mod 64)]
      else
        [of_nat (0xF0 + c div 262144), of_nat (0x80 + c div 4096 mod 64),
         of_nat (0x80 + c div 64 mod 64), of_nat (0x80 + c mod 64)])"

section \<open>UTF-16\<close>

text \<open>\<open>str::encode_utf16\<close> on code points, and \<open>char::decode_utf16\<close> (\<open>None\<close> on a lone surrogate).\<close>

definition utf16_encode :: "nat \<Rightarrow> u16 list" where
  "utf16_encode c =
     (if c < 0x10000 then [of_nat c]
      else [of_nat (0xD800 + (c - 0x10000) div 1024), of_nat (0xDC00 + (c - 0x10000) mod 1024)])"

fun utf16_decode :: "u16 list \<Rightarrow> nat list option" where
  "utf16_decode [] = Some []"
| "utf16_decode (u # us) =
     (if unat u < 0xD800 \<or> 0xDFFF < unat u then map_option (Cons (unat u)) (utf16_decode us)
      else if 0xDC00 \<le> unat u then None
      else (case us of
              [] \<Rightarrow> None
            | v # vs \<Rightarrow>
                if 0xDC00 \<le> unat v \<and> unat v \<le> 0xDFFF
                then map_option (Cons (0x10000 + (unat u - 0xD800) * 1024 + (unat v - 0xDC00))) (utf16_decode vs)
                else None))"

lemma utf16_decode_encode:
  assumes "is_scalar c"
  shows "utf16_decode (utf16_encode c @ us) = map_option (Cons c) (utf16_decode us)"
proof (cases "c < 0x10000")
  case True
  then show ?thesis using assms by (auto simp: utf16_encode_def is_scalar_def)
next
  case False
  define q where "q = (c - 0x10000) div 1024"
  define r where "r = (c - 0x10000) mod 1024"
  have "c < 0x110000" using assms by (auto simp: is_scalar_def)
  then have q: "q \<le> 1023" and r: "r \<le> 1023" by (auto simp: q_def r_def)
  have c: "c = 0x10000 + q * 1024 + r" using False by (simp add: q_def r_def)
  have enc: "utf16_encode c = [of_nat (0xD800 + q), of_nat (0xDC00 + r)]"
    using False by (simp add: utf16_encode_def q_def r_def)
  have "unat (of_nat (0xD800 + q) :: u16) = 0xD800 + q" "unat (of_nat (0xDC00 + r) :: u16) = 0xDC00 + r"
    using q r by (simp_all del: of_nat_add)
  with q r have "utf16_decode (utf16_encode c @ us) =
      map_option (Cons (0x10000 + q * 1024 + r)) (utf16_decode us)"
    by (simp add: enc del: of_nat_add)
  then show ?thesis using c by simp
qed

text \<open>The same with every lone surrogate replaced: \<open>.map(|ch| ch.unwrap_or(REPLACEMENT_CHARACTER))\<close>.\<close>

fun utf16_lossy :: "u16 list \<Rightarrow> nat list" where
  "utf16_lossy [] = []"
| "utf16_lossy (u # us) =
     (if unat u < 0xD800 \<or> 0xDFFF < unat u then unat u # utf16_lossy us
      else if 0xDC00 \<le> unat u then 0xFFFD # utf16_lossy us
      else (case us of
              [] \<Rightarrow> [0xFFFD]
            | v # vs \<Rightarrow>
                if 0xDC00 \<le> unat v \<and> unat v \<le> 0xDFFF
                then (0x10000 + (unat u - 0xD800) * 1024 + (unat v - 0xDC00)) # utf16_lossy vs
                else 0xFFFD # utf16_lossy us))"

text \<open>The three ways in which decoding can go on.\<close>

lemma utf16_decode_cases [consumes 1, case_names empty single pair]:
  assumes "utf16_decode us = Some cs"
  obtains "us = []" "cs = []"
    | u us' cs' where "us = u # us'" "cs = unat u # cs'" "unat u < 0xD800 \<or> 0xDFFF < unat u" "utf16_decode us' = Some cs'"
    | u v us' cs' where "us = u # v # us'" "cs = (0x10000 + (unat u - 0xD800) * 1024 + (unat v - 0xDC00)) # cs'"
      "0xD800 \<le> unat u" "unat u < 0xDC00" "0xDC00 \<le> unat v" "unat v \<le> 0xDFFF" "utf16_decode us' = Some cs'"
proof (cases us)
  case (Cons u us1)
  note us = this
  show thesis
  proof (cases "unat u < 0xD800 \<or> 0xDFFF < unat u")
    case True
    with assms us that(2) show thesis by auto
  next
    case False
    with assms us have lo: "0xD800 \<le> unat u" "unat u < 0xDC00" by (simp_all split: if_splits)
    show thesis
    proof (cases us1)
      case (Cons v us2)
      with assms us lo have "0xDC00 \<le> unat v" "unat v \<le> 0xDFFF"
        "\<exists>cs'. utf16_decode us2 = Some cs' \<and> cs = (0x10000 + (unat u - 0xD800) * 1024 + (unat v - 0xDC00)) # cs'"
        by (auto split: if_splits)
      with us Cons lo that(3) show thesis by blast
    qed (use assms us lo in simp)
  qed
qed (use assms that(1) in simp)

lemma utf16_lossy_valid: "utf16_decode us = Some cs \<Longrightarrow> utf16_lossy us = cs"
proof (induction us arbitrary: cs rule: length_induct)
  case (1 us)
  from 1(2) show ?case by (cases rule: utf16_decode_cases) (use 1(1) in auto)
qed

lemma utf16_encode_pair:
  assumes "0xD800 \<le> unat u" and "unat u < 0xDC00" and "0xDC00 \<le> unat v" and "unat v \<le> 0xDFFF"
  shows "utf16_encode (0x10000 + (unat u - 0xD800) * 1024 + (unat v - 0xDC00)) = [u, v]"
proof -
  obtain q r where q: "unat u = 0xD800 + q" and r: "unat v = 0xDC00 + r" "r < 1024"
    using le_Suc_ex [OF assms(1)] le_Suc_ex [OF assms(3)] assms(4) by auto
  have uv: "u = of_nat (0xD800 + q)" "v = of_nat (0xDC00 + r)" by (simp_all flip: q r(1))
  have "utf16_encode (0x10000 + (unat u - 0xD800) * 1024 + (unat v - 0xDC00)) = utf16_encode (0x10000 + (q * 1024 + r))"
    by (simp only: q r(1) add_diff_cancel_left' add.assoc)
  also have "\<dots> = [of_nat (0xD800 + q), of_nat (0xDC00 + r)]" using r(2) by (simp add: utf16_encode_def)
  finally show ?thesis using uv by simp
qed

lemma utf16_encode_decode: "utf16_decode us = Some cs \<Longrightarrow> concat (map utf16_encode cs) = us"
proof (induction us arbitrary: cs rule: length_induct)
  case (1 us)
  have one: "utf16_encode (unat u) = [u]" for u using unsigned_less [of u, where ?'a = nat] by (simp add: utf16_encode_def)
  from 1(2) show ?case
  proof (cases rule: utf16_decode_cases)
    case (pair u v us' cs')
    with 1(1) have "concat (map utf16_encode cs') = us'" by simp
    with pair(1) show ?thesis unfolding pair(2) list.map concat.simps utf16_encode_pair [OF pair(3-6)] by simp
  qed (use 1(1) one in auto)
qed

lemma utf16_decode_encode_all:
  "list_all is_scalar cs \<Longrightarrow> utf16_decode (concat (map utf16_encode cs)) = Some cs"
  by (induction cs) (simp_all add: utf16_decode_encode)

end
