(* ===== verification/Ads_Udp.thy ===== *)
theory Ads_Udp
  imports Ads_Netid Ads_Text
begin

text \<open>
  The UDP message protocol (\<open>src/udp.rs\<close>): building and parsing of messages, the accessors,
  and the requests made with them. The argument \<open>ovf\<close> says whether arithmetic overflow is
  trapped (a debug build) or wraps (a release build). The socket is a parameter.
\<close>

section \<open>Messages\<close>

definition BECKHOFF_UDP_MAGIC :: u32 where
  "BECKHOFF_UDP_MAGIC = 0x71146603"

record udp_message =
  um_items :: "(u16 \<times> nat \<times> nat) list"
  um_data :: bytes

datatype service_id = Identify | AddRoute

primrec service_code :: "service_id \<Rightarrow> u32" where
  "service_code Identify = 1"
| "service_code AddRoute = 6"

datatype tag =
    Status | Password | TCVersion | OSVersion | ComputerName | NetID | Options | RouteName
  | UserName | Fingerprint

primrec tag_code :: "tag \<Rightarrow> u16" where
  "tag_code Status = 1"
| "tag_code Password = 2"
| "tag_code TCVersion = 3"
| "tag_code OSVersion = 4"
| "tag_code ComputerName = 5"
| "tag_code NetID = 7"
| "tag_code Options = 9"
| "tag_code RouteName = 12"
| "tag_code UserName = 13"
| "tag_code Fingerprint = 18"

record udp_header =
  uh_magic :: u32
  uh_invoke_id :: u32
  uh_service :: u32
  uh_src_netid :: ams_netid
  uh_src_port :: u16
  uh_num_items :: u32

definition udp_header_bytes :: "udp_header \<Rightarrow> bytes" where
  "udp_header_bytes h =
     u32_le (uh_magic h) @ u32_le (uh_invoke_id h) @ u32_le (uh_service h) @
     netid_bytes (uh_src_netid h) @ u16_le (uh_src_port h) @ u32_le (uh_num_items h)"

definition message_new :: "service_id \<Rightarrow> ams_addr \<Rightarrow> udp_message" where
  "message_new service source =
     \<lparr>um_items = [],
      um_data = udp_header_bytes
        \<lparr>uh_magic = BECKHOFF_UDP_MAGIC, uh_invoke_id = 0, uh_service = service_code service,
         uh_src_netid = netid source, uh_src_port = port source, uh_num_items = 0\<rparr>\<rparr>"

abbreviation udp_ctx :: string where
  "udp_ctx \<equiv> ''parsing UDP packet''"

text \<open>The loop over the items; a tag that cannot be read ends it.\<close>

function parse_items :: "nat \<Rightarrow> bytes \<Rightarrow> (u16 \<times> nat \<times> nat) list res" where
  "parse_items pos s =
     (case rd_u16 udp_ctx s of
        Ok (t, s1) \<Rightarrow>
          rbind (rd_u16 udp_ctx s1) (\<lambda>(len, s2).
          rbind (slice_of s2 (unat len) (length s2)) (\<lambda>s3.
          rmap (Cons (t, pos, pos + unat len)) (parse_items (pos + unat len + 4) s3)))
      | _ \<Rightarrow> Ok [])"
  by pat_completeness auto
termination
  by (relation "measure (\<lambda>(pos, s). length s)")
    (auto dest!: u16c.remaining simp: slice_of_eq_Ok)

declare parse_items.simps [simp del]

definition parse_internal :: "bytes \<Rightarrow> u32 \<Rightarrow> udp_message res" where
  "parse_internal data exp_service =
     rmap fst (pbind (rd_u32 udp_ctx) (\<lambda>magic.
       pbind (rd_u32 udp_ctx) (\<lambda>invoke_id.
       pbind (rd_u32 udp_ctx) (\<lambda>rep_service.
       if magic \<noteq> BECKHOFF_UDP_MAGIC then pfail (Reply udp_ctx ''invalid magic'' magic)
       else if invoke_id \<noteq> 0 then pfail (Reply udp_ctx ''invalid invoke ID'' invoke_id)
       else if rep_service \<noteq> exp_service then pfail (Reply udp_ctx ''invalid service ID'' rep_service)
       else
         pbind (addr_read_from udp_ctx) (\<lambda>_.
         pbind (rd_u32 udp_ctx) (\<lambda>_ rest.
         rmap (\<lambda>items. (\<lparr>um_items = items, um_data = data\<rparr>, [])) (parse_items 28 rest)))))) data)"

definition message_parse :: "bytes \<Rightarrow> service_id \<Rightarrow> bool \<Rightarrow> udp_message res" where
  "message_parse data exp_service reply =
     parse_internal data (service_code exp_service OR (if reply then 0x80000000 else 0))"

section \<open>Adding items\<close>

text \<open>\<open>LE::write_u32(&mut self.data[20..], n)\<close>\<close>

definition set_count :: "bytes \<Rightarrow> nat \<Rightarrow> bytes res" where
  "set_count data n =
     (if 24 \<le> length data then Ok (take 20 data @ u32_le (of_nat n) @ drop 24 data) else Panic)"

text \<open>The common course of the three methods: tag, length field, payload, item, count.\<close>

definition add_item :: "udp_message \<Rightarrow> tag \<Rightarrow> u16 \<Rightarrow> bytes \<Rightarrow> udp_message res" where
  "add_item m t len payload =
     (let data1 = um_data m @ u16_le (tag_code t);
          start = length data1;
          data2 = data1 @ u16_le len @ payload;
          items = um_items m @ [(tag_code t, start, length data2)]
      in rmap (\<lambda>d. \<lparr>um_items = items, um_data = d\<rparr>) (set_count data2 (length items)))"

definition add_bytes :: "udp_message \<Rightarrow> tag \<Rightarrow> bytes \<Rightarrow> udp_message res" where
  "add_bytes m t data = add_item m t (of_nat (length data)) data"

definition add_str :: "bool \<Rightarrow> udp_message \<Rightarrow> tag \<Rightarrow> rstring \<Rightarrow> udp_message res" where
  "add_str ovf m t data =
     (if ovf \<and> (of_nat (length data) :: u16) = 65535 then Panic
      else add_item m t (of_nat (length data) + 1) (data @ [0]))"

definition add_u32 :: "udp_message \<Rightarrow> tag \<Rightarrow> u32 \<Rightarrow> udp_message res" where
  "add_u32 m t data = add_item m t 4 (u32_le data)"

section \<open>Reading items\<close>

definition map_tag :: "udp_message \<Rightarrow> tag \<Rightarrow> (bytes \<Rightarrow> 'o option res) \<Rightarrow> 'o option res" where
  "map_tag m t f =
     (case find (\<lambda>item. fst item = tag_code t) (um_items m) of
        None \<Rightarrow> Ok None
      | Some (_, i, j) \<Rightarrow> rbind (slice_of (um_data m) i j) f)"

definition get_bytes :: "udp_message \<Rightarrow> tag \<Rightarrow> bytes option res" where
  "get_bytes m t = map_tag m t (\<lambda>b. Ok (Some b))"

definition get_str :: "udp_message \<Rightarrow> tag \<Rightarrow> rstring option res" where
  "get_str m t = map_tag m t (\<lambda>b.
     if b = [] then Panic else rmap from_utf8 (slice_of b 0 (length b - 1)))"

definition get_u32 :: "udp_message \<Rightarrow> tag \<Rightarrow> u32 option res" where
  "get_u32 m t = map_tag m t (\<lambda>b. case rd_u32 [] b of Ok (v, _) \<Rightarrow> Ok (Some v) | _ \<Rightarrow> Ok None)"

definition get_source :: "udp_message \<Rightarrow> ams_addr res" where
  "get_source m =
     rbind (slice_of (um_data m) 12 20) (\<lambda>b.
     case addr_read_from [] b of Ok (a, _) \<Rightarrow> Ok a | _ \<Rightarrow> Panic)"

section \<open>Requests\<close>

text \<open>
  What the socket answers: the datagram that arrives may depend on the request that was sent, and is
  cut to the 576 bytes of the buffer.
\<close>

record udp_env =
  ue_bind :: "(unit, io_error) outcome"
  ue_send :: "bytes \<Rightarrow> (unit, io_error) outcome"
  ue_set_timeout :: "(unit, io_error) outcome"
  ue_recv :: "bytes \<Rightarrow> (bytes, io_error) outcome"

definition send_receive :: "udp_env \<Rightarrow> udp_message \<Rightarrow> udp_message res" where
  "send_receive env m =
     rbind (ctx (ue_bind env) ''binding UDP socket'') (\<lambda>_.
     rbind (ctx (ue_send env (um_data m)) ''sending UDP request'') (\<lambda>_.
     rbind (ctx (ue_set_timeout env) ''setting UDP timeout'') (\<lambda>_.
     rbind (ctx (ue_recv env (um_data m)) ''receiving UDP reply'') (\<lambda>reply.
     rbind (slice_of (um_data m) 8 12) (\<lambda>b.
     parse_internal (take 576 reply) (le_u32 b OR 0x80000000))))))"

definition route_packet ::
  "bool \<Rightarrow> ams_netid \<Rightarrow> rstring \<Rightarrow> rstring option \<Rightarrow> rstring option \<Rightarrow> rstring option \<Rightarrow> bool \<Rightarrow>
     udp_message res" where
  "route_packet ovf nid host routename username password temporary =
     rbind (add_bytes (message_new AddRoute (AmsAddr nid 0)) NetID (netid_bytes nid)) (\<lambda>p1.
     rbind (add_str ovf p1 ComputerName host) (\<lambda>p2.
     rbind (add_str ovf p2 UserName (case username of Some u \<Rightarrow> u | None \<Rightarrow> bytes_of ''Administrator'')) (\<lambda>p3.
     rbind (add_str ovf p3 Password (case password of Some p \<Rightarrow> p | None \<Rightarrow> bytes_of ''1'')) (\<lambda>p4.
     rbind (add_str ovf p4 RouteName (case routename of Some r \<Rightarrow> r | None \<Rightarrow> host)) (\<lambda>p5.
     if temporary then add_u32 p5 Options 1 else Ok p5)))))"

definition add_route ::
  "bool \<Rightarrow> udp_env \<Rightarrow> ams_netid \<Rightarrow> rstring \<Rightarrow> rstring option \<Rightarrow> rstring option \<Rightarrow> rstring option \<Rightarrow>
     bool \<Rightarrow> unit res" where
  "add_route ovf env nid host routename username password temporary =
     rbind (route_packet ovf nid host routename username password temporary) (\<lambda>packet.
     rbind (send_receive env packet) (\<lambda>reply.
     rbind (get_u32 reply Status) (\<lambda>st.
     case st of
       None \<Rightarrow> Err (Reply ''setting route'' ''no status in reply'' 0)
     | Some n \<Rightarrow> if n = 0 then Ok () else ads_error ''setting route'' n)))"

definition default_addr :: ams_addr where
  "default_addr = AmsAddr (AmsNetId 0 0 0 0 0 0) 0"

definition get_netid :: "udp_env \<Rightarrow> ams_netid res" where
  "get_netid env =
     rbind (send_receive env (message_new Identify default_addr)) (\<lambda>reply. rmap netid (get_source reply))"

record sys_info =
  si_netid :: ams_netid
  si_hostname :: rstring
  si_twincat_version :: "u8 \<times> u8 \<times> u16"
  si_os_version :: "string \<times> u32 \<times> u32 \<times> u32 \<times> rstring"
  si_fingerprint :: rstring

definition parse_tc_version :: "bytes \<Rightarrow> u8 \<times> u8 \<times> u16" where
  "parse_tc_version b =
     (if 4 \<le> length b then (b ! 0, b ! 1, le_u16 (take 2 (drop 2 b))) else (0, 0, 0))"

definition platform_name :: "u32 \<Rightarrow> string" where
  "platform_name n =
     (if n = 0 then ''TwinCAT/BSD'' else if n = 1 then ''TC/RTOS'' else if n = 2 then ''Windows NT''
      else if n = 3 then ''Windows CE'' else ''Unknown platform'')"

text \<open>\<open>iter::from_fn(|| bytes.read_u16::<LE>().ok())\<close>: the 16-bit units up to the end.\<close>

fun u16_units :: "bytes \<Rightarrow> u16 list" where
  "u16_units (a # b # s) = le_u16 [a, b] # u16_units s"
| "u16_units _ = []"

definition parse_os_version :: "bytes option \<Rightarrow> string \<times> u32 \<times> u32 \<times> u32 \<times> rstring" where
  "parse_os_version ob =
     (case ob of
        None \<Rightarrow> (''No OS info'', 0, 0, 0, [])
      | Some b \<Rightarrow>
          if 22 \<le> length b then
            let w = (\<lambda>k. le_u32 (take 4 (drop (4 * k) b)));
                platform = platform_name (w 4);
                rest = drop 20 b;
                text = (if platform = ''TC/RTOS''
                        then concat (map (\<lambda>x. utf8_encode (unat x)) (takeWhile (\<lambda>x. x \<noteq> 0) rest))
                        else if platform = ''TwinCAT/BSD'' then []
                        else concat (map utf8_encode (filter is_scalar
                               (map unat (takeWhile (\<lambda>u. u \<noteq> 0) (u16_units rest))))))
            in (platform, w 1, w 2, w 3, text)
          else (''Unknown OS info format'', 0, 0, 0, []))"

definition udp_get_info :: "udp_env \<Rightarrow> sys_info res" where
  "udp_get_info env =
     rbind (send_receive env (message_new Identify default_addr)) (\<lambda>reply.
     rbind (get_bytes reply TCVersion) (\<lambda>tcver.
     rbind (get_bytes reply OSVersion) (\<lambda>osver.
     rbind (get_source reply) (\<lambda>src.
     rbind (get_str reply ComputerName) (\<lambda>host.
     rbind (get_str reply Fingerprint) (\<lambda>fp.
     Ok \<lparr>si_netid = netid src,
         si_hostname = (case host of Some h \<Rightarrow> h | None \<Rightarrow> bytes_of ''unknown''),
         si_twincat_version = parse_tc_version (case tcver of Some b \<Rightarrow> b | None \<Rightarrow> []),
         si_os_version = parse_os_version osver,
         si_fingerprint = (case fp of Some f \<Rightarrow> f | None \<Rightarrow> [])\<rparr>))))))"

section \<open>The format\<close>

text \<open>The specification: a message is a header and a list of tagged payloads.\<close>

type_synonym udp_item = "u16 \<times> bytes"

definition enc_item :: "udp_item \<Rightarrow> bytes" where
  "enc_item it = u16_le (fst it) @ u16_le (of_nat (length (snd it))) @ snd it"

definition udp_encode :: "u32 \<Rightarrow> ams_addr \<Rightarrow> udp_item list \<Rightarrow> bytes" where
  "udp_encode service src its =
     udp_header_bytes
       \<lparr>uh_magic = BECKHOFF_UDP_MAGIC, uh_invoke_id = 0, uh_service = service,
        uh_src_netid = netid src, uh_src_port = port src, uh_num_items = of_nat (length its)\<rparr>
     @ concat (map enc_item its)"

primrec item_layout :: "nat \<Rightarrow> udp_item list \<Rightarrow> (u16 \<times> nat \<times> nat) list" where
  "item_layout pos [] = []"
| "item_layout pos (it # its) =
     (fst it, pos, pos + length (snd it)) # item_layout (pos + length (snd it) + 4) its"

abbreviation wf_item :: "udp_item \<Rightarrow> bool" where
  "wf_item it \<equiv> length (snd it) < 65536"

lemma length_udp_header [simp]: "length (udp_header_bytes h) = 24"
  by (simp add: udp_header_bytes_def)

lemma parse_items_item:
  "length d < 65536 \<Longrightarrow>
     parse_items pos (u16_le t @ u16_le (of_nat (length d)) @ d @ s) =
       rmap (Cons (t, pos, pos + length d)) (parse_items (pos + length d + 4) s)"
  by (subst parse_items.simps) (simp add: slice_of_from)

lemma parse_items_enc:
  "list_all wf_item its \<Longrightarrow> parse_items pos (concat (map enc_item its)) = Ok (item_layout pos its)"
proof (induction its arbitrary: pos)
  case Nil
  then show ?case by (simp add: parse_items.simps rd_u16_if)
next
  case (Cons it its)
  then show ?case by (simp add: enc_item_def [of it] parse_items_item)
qed

lemma parse_internal_enc:
  "list_all wf_item its \<Longrightarrow>
     parse_internal (udp_encode service src its) service =
       Ok \<lparr>um_items = item_layout 28 its, um_data = udp_encode service src its\<rparr>"
  using addrc.dec_enc [of udp_ctx src]
  by (simp add: parse_internal_def pbind_def udp_encode_def udp_header_bytes_def parse_items_enc
      addr_write_to_def)

lemma find_layout:
  assumes "find (\<lambda>item. fst item = c) (item_layout pos its) = r"
  shows "case map_of its c of
      None \<Rightarrow> r = None
    | Some d \<Rightarrow> \<exists>i. r = Some (c, i, i + length d) \<and> pos \<le> i \<and>
        take (length d) (drop (i - pos + 4) (concat (map enc_item its))) = d \<and>
        i - pos + 4 + length d \<le> length (concat (map enc_item its))"
  using assms
proof (induction its arbitrary: pos)
  case Nil
  then show ?case by auto
next
  case (Cons it its)
  show ?case
  proof (cases "fst it = c")
    case True
    with Cons.prems show ?thesis by (cases it) (auto simp: enc_item_def)
  next
    case False
    let ?pos = "pos + length (snd it) + 4"
    have r: "find (\<lambda>item. fst item = c) (item_layout ?pos its) = r" using Cons.prems False by auto
    show ?thesis
    proof (cases "map_of its c")
      case None
      with Cons.IH [OF r] False show ?thesis by (cases it) auto
    next
      case (Some d)
      with Cons.IH [OF r] obtain i where i: "r = Some (c, i, i + length d)" "?pos \<le> i"
        "take (length d) (drop (i - ?pos + 4) (concat (map enc_item its))) = d"
        "i - ?pos + 4 + length d \<le> length (concat (map enc_item its))" by auto
      have "length (enc_item it) = length (snd it) + 4" by (simp add: enc_item_def)
      moreover have "i - pos + 4 = (length (snd it) + 4) + (i - ?pos + 4)" using i(2) by simp
      ultimately show ?thesis using i Some False by (cases it) auto
    qed
  qed
qed

lemma slice_layout:
  assumes "map_of its c = Some d"
  shows "\<exists>i. find (\<lambda>item. fst item = c) (item_layout 28 its) = Some (c, i, i + length d) \<and>
    slice_of (udp_encode service src its) i (i + length d) = Ok d"
proof -
  obtain i where i: "find (\<lambda>item. fst item = c) (item_layout 28 its) = Some (c, i, i + length d)"
    "28 \<le> i" "take (length d) (drop (i - 28 + 4) (concat (map enc_item its))) = d"
    "i - 28 + 4 + length d \<le> length (concat (map enc_item its))"
    using find_layout [OF refl, of c 28 its] assms by auto
  have "i - 28 + 4 = i - 24" using i(2) by simp
  with i show ?thesis by (intro exI [of _ i]) (simp add: slice_of_def udp_encode_def)
qed

text \<open>Reading an item of a parsed message is a lookup in its list of payloads.\<close>

lemma map_tag_parsed:
  "map_tag \<lparr>um_items = item_layout 28 its, um_data = udp_encode service src its\<rparr> t f =
     (case map_of its (tag_code t) of None \<Rightarrow> Ok None | Some d \<Rightarrow> f d)"
proof (cases "map_of its (tag_code t)")
  case None
  then show ?thesis using find_layout [OF refl, of "tag_code t" 28 its] by (simp add: map_tag_def)
next
  case (Some d)
  then obtain i where "find (\<lambda>item. fst item = tag_code t) (item_layout 28 its) = Some (tag_code t, i, i + length d)"
    "slice_of (udp_encode service src its) i (i + length d) = (Ok d :: bytes res)"
    using slice_layout [of its "tag_code t" d] by blast
  with Some show ?thesis by (simp add: map_tag_def)
qed

text \<open>The messages that the methods build.\<close>

definition built :: "u32 \<Rightarrow> ams_addr \<Rightarrow> udp_item list \<Rightarrow> udp_message \<Rightarrow> bool" where
  "built service src its m \<longleftrightarrow>
     um_data m = udp_encode service src its \<and> length (um_items m) = length its"

lemma built_new: "built (service_code s) src [] (message_new s src)"
  by (simp add: built_def message_new_def udp_encode_def)

lemma add_item_built:
  assumes "built service src its m"
  shows "\<exists>m'. add_item m t (of_nat (length p)) p = Ok m' \<and> built service src (its @ [(tag_code t, p)]) m'"
proof -
  let ?h = "\<lambda>n. udp_header_bytes \<lparr>uh_magic = BECKHOFF_UDP_MAGIC, uh_invoke_id = 0, uh_service = service,
    uh_src_netid = netid src, uh_src_port = port src, uh_num_items = n\<rparr>"
  have h: "take 20 (?h n) @ u32_le k = ?h k" for n k by (simp add: udp_header_bytes_def)
  have "set_count (udp_encode service src its @ enc_item (tag_code t, p)) (Suc (length its)) =
      Ok (udp_encode service src (its @ [(tag_code t, p)]))"
    using h [of "of_nat (length its)" "of_nat (Suc (length its))"]
    by (simp add: set_count_def udp_encode_def flip: append_assoc del: of_nat_Suc)
  with assms show ?thesis by (simp add: add_item_def built_def enc_item_def Let_def)
qed

lemma add_str_built:
  assumes "built service src its m" and "length x < 65535"
  shows "\<exists>m'. add_str ovf m t x = Ok m' \<and> built service src (its @ [(tag_code t, x @ [0])]) m'"
proof -
  have "(of_nat (length x) :: u16) \<noteq> 65535"
  proof
    assume "(of_nat (length x) :: u16) = 65535"
    then have "unat (of_nat (length x) :: u16) = 65535" by simp
    with assms(2) show False by simp
  qed
  moreover have "(of_nat (length x) + 1 :: u16) = of_nat (length (x @ [0 :: u8]))" by simp
  ultimately show ?thesis
    using add_item_built [OF assms(1), of t "x @ [0]"] by (simp add: add_str_def add.commute)
qed

lemma add_bytes_built:
  "built service src its m \<Longrightarrow>
     \<exists>m'. add_bytes m t d = Ok m' \<and> built service src (its @ [(tag_code t, d)]) m'"
  using add_item_built by (simp add: add_bytes_def)

lemma add_u32_built:
  "built service src its m \<Longrightarrow>
     \<exists>m'. add_u32 m t v = Ok m' \<and> built service src (its @ [(tag_code t, u32_le v)]) m'"
  using add_item_built [of service src its m t "u32_le v"] by (simp add: add_u32_def)

lemma get_source_enc: "get_source \<lparr>um_items = is, um_data = udp_encode service src its\<rparr> = Ok src"
proof -
  have "slice_of (udp_encode service src its) 12 20 = (Ok (addr_write_to src) :: bytes res)"
    by (simp add: slice_of_def udp_encode_def udp_header_bytes_def addr_write_to_def)
  then show ?thesis using addrc.dec_enc_all by (simp add: get_source_def)
qed

text \<open>The items of a request to set a route.\<close>

definition route_items ::
  "ams_netid \<Rightarrow> rstring \<Rightarrow> rstring \<Rightarrow> rstring \<Rightarrow> rstring \<Rightarrow> bool \<Rightarrow> udp_item list" where
  "route_items nid host user pass route temporary =
     [(7, netid_bytes nid), (5, host @ [0]), (13, user @ [0]), (2, pass @ [0]), (12, route @ [0])] @
     (if temporary then [(9, u32_le 1)] else [])"

lemma route_packet_built:
  assumes "length host < 65535" "length (case user of Some u \<Rightarrow> u | None \<Rightarrow> bytes_of ''Administrator'') < 65535"
    "length (case pass of Some p \<Rightarrow> p | None \<Rightarrow> bytes_of ''1'') < 65535"
    "length (case route of Some r \<Rightarrow> r | None \<Rightarrow> host) < 65535"
  shows "\<exists>p. route_packet ovf nid host route user pass temporary = Ok p \<and>
    um_data p = udp_encode 6 (AmsAddr nid 0) (route_items nid host
      (case user of Some u \<Rightarrow> u | None \<Rightarrow> bytes_of ''Administrator'')
      (case pass of Some p \<Rightarrow> p | None \<Rightarrow> bytes_of ''1'')
      (case route of Some r \<Rightarrow> r | None \<Rightarrow> host) temporary)"
proof -
  let ?u = "case user of Some u \<Rightarrow> u | None \<Rightarrow> bytes_of ''Administrator''"
  let ?pw = "case pass of Some p \<Rightarrow> p | None \<Rightarrow> bytes_of ''1''"
  let ?r = "case route of Some r \<Rightarrow> r | None \<Rightarrow> host"
  let ?src = "AmsAddr nid 0"
  have b0: "built 6 ?src [] (message_new AddRoute ?src)" using built_new [of AddRoute ?src] by simp
  obtain p1 where p1: "add_bytes (message_new AddRoute ?src) NetID (netid_bytes nid) = Ok p1"
    "built 6 ?src [(7, netid_bytes nid)] p1" using add_bytes_built [OF b0, of NetID] by auto
  obtain p2 where p2: "add_str ovf p1 ComputerName host = Ok p2"
    "built 6 ?src [(7, netid_bytes nid), (5, host @ [0])] p2"
    using add_str_built [OF p1(2) assms(1), of ovf ComputerName] by auto
  obtain p3 where p3: "add_str ovf p2 UserName ?u = Ok p3"
    "built 6 ?src [(7, netid_bytes nid), (5, host @ [0]), (13, ?u @ [0])] p3"
    using add_str_built [OF p2(2) assms(2), of ovf UserName] by auto
  obtain p4 where p4: "add_str ovf p3 Password ?pw = Ok p4"
    "built 6 ?src [(7, netid_bytes nid), (5, host @ [0]), (13, ?u @ [0]), (2, ?pw @ [0])] p4"
    using add_str_built [OF p3(2) assms(3), of ovf Password] by auto
  obtain p5 where p5: "add_str ovf p4 RouteName ?r = Ok p5"
    "built 6 ?src (route_items nid host ?u ?pw ?r False) p5"
    using add_str_built [OF p4(2) assms(4), of ovf RouteName] by (auto simp: route_items_def)
  obtain p6 where p6: "add_u32 p5 Options 1 = Ok p6"
    "built 6 ?src (route_items nid host ?u ?pw ?r True) p6"
    using add_u32_built [OF p5(2), of Options 1] by (auto simp: route_items_def)
  show ?thesis
    using p1(1) p2(1) p3(1) p4(1) p5 p6 by (simp add: route_packet_def built_def)
qed

section \<open>Properties\<close>

text \<open>
  C20. A UDP message built from tagged payloads is parsed back: the parser accepts it for its
  service, reports its source address, and every tag leads to the first payload that was stored
  under it, as bytes and, where it has four bytes or more, as a number.
\<close>

theorem udp_roundtrip:
  assumes "list_all (\<lambda>it. length (snd it) < 2 ^ 16) its"
  shows "\<exists>m. parse_internal (udp_encode service src its) service = Ok m \<and>
    get_source m = Ok src \<and> get_bytes m t = Ok (map_of its (tag_code t)) \<and>
    get_u32 m t = Ok (Option.bind (map_of its (tag_code t))
      (\<lambda>d. if 4 \<le> length d then Some (le_u32 (take 4 d)) else None))"
  using assms
  by (simp add: parse_internal_enc get_source_enc get_bytes_def get_u32_def map_tag_parsed rd_u32_if
      split: option.split)

theorem udp_roundtrip_witness:
  "\<exists>m. parse_internal (udp_encode 6 default_addr [(1, u32_le 9), (5, [65, 0])]) 6 = Ok m \<and>
    get_source m = Ok default_addr \<and> get_bytes m Status = Ok (Some (u32_le 9)) \<and>
    get_u32 m Status = Ok (Some 9)"
  using udp_roundtrip [of "[(1, u32_le 9), (5, [65, 0])]" 6 default_addr Status] by simp

text \<open>
  The request that \<open>add_route\<close> sends is one a router can read back in full: parsed as a
  request to add a route it has the NetID, the host, the user name, the password and the route
  name, with their defaults, and the option for a temporary route exactly when one was asked for.
\<close>

theorem route_packet_contents:
  assumes "length host < 65535" and "utf8_valid host"
    and "length user < 65535" and "utf8_valid user"
    and "length pass < 65535" and "utf8_valid pass"
  shows "\<exists>p m. route_packet ovf nid host None (Some user) (Some pass) temporary = Ok p \<and>
    message_parse (um_data p) AddRoute False = Ok m \<and>
    get_source m = Ok (AmsAddr nid 0) \<and> get_bytes m NetID = Ok (Some (netid_bytes nid)) \<and>
    get_str m ComputerName = Ok (Some host) \<and> get_str m UserName = Ok (Some user) \<and>
    get_str m Password = Ok (Some pass) \<and> get_str m RouteName = Ok (Some host) \<and>
    get_u32 m Options = Ok (if temporary then Some 1 else None)"
proof -
  let ?its = "route_items nid host user pass host temporary"
  obtain p where p: "route_packet ovf nid host None (Some user) (Some pass) temporary = Ok p"
    "um_data p = udp_encode 6 (AmsAddr nid 0) ?its"
    using route_packet_built [of host "Some user" "Some pass" None ovf nid temporary] assms by auto
  let ?m = "\<lparr>um_items = item_layout 28 ?its, um_data = udp_encode 6 (AmsAddr nid 0) ?its\<rparr>"
  have "list_all wf_item ?its" using assms by (simp add: route_items_def)
  then have m: "message_parse (um_data p) AddRoute False = Ok ?m"
    using parse_internal_enc [of ?its 6 "AmsAddr nid 0"] p(2) by (simp add: message_parse_def)
  have s: "get_str ?m t = Ok (Some x)" if "map_of ?its (tag_code t) = Some (x @ [0])" "utf8_valid x" for t x
    using that by (simp add: get_str_def map_tag_parsed slice_of_def from_utf8_def)
  have "get_str ?m ComputerName = Ok (Some host)" "get_str ?m UserName = Ok (Some user)"
    "get_str ?m Password = Ok (Some pass)" "get_str ?m RouteName = Ok (Some host)"
    by (rule s; use assms in \<open>simp add: route_items_def\<close>)+
  moreover have "get_bytes ?m NetID = Ok (Some (netid_bytes nid))"
    "get_u32 ?m Options = Ok (if temporary then Some 1 else None)"
    unfolding get_bytes_def get_u32_def map_tag_parsed by (simp_all add: route_items_def rd_u32_if)
  ultimately show ?thesis using p(1) m get_source_enc by blast
qed

theorem route_packet_contents_witness:
  "\<exists>p m. route_packet True netid_local [65] None (Some [66]) (Some [49]) True = Ok p \<and>
    message_parse (um_data p) AddRoute False = Ok m \<and> get_str m UserName = Ok (Some [66]) \<and>
    get_u32 m Options = Ok (Some 1)"
  using route_packet_contents [of "[65]" "[66]" "[49]" True netid_local True]
  by (auto simp: utf8_valid_ascii)

text \<open>
  \<open>add_route\<close> succeeds exactly when the router's reply carries the status 0, and returns the
  error of any other status.
\<close>

theorem add_route_status:
  assumes "length host < 65535" and "length user < 65535" and "length pass < 65535"
    and "ue_bind env = Ok ()" and "\<And>b. ue_send env b = Ok ()" and "ue_set_timeout env = Ok ()"
    and "\<And>b. ue_recv env b = Ok (udp_encode 0x80000006 router its)"
    and "length (udp_encode 0x80000006 router its) \<le> 576"
    and "list_all (\<lambda>it. length (snd it) < 2 ^ 16) its" and "map_of its 1 = Some (u32_le status)"
  shows "add_route ovf env nid host None (Some user) (Some pass) temporary =
    (if status = 0 then Ok () else ads_error ''setting route'' status)"
proof -
  let ?its = "route_items nid host user pass host temporary"
  obtain p where p: "route_packet ovf nid host None (Some user) (Some pass) temporary = Ok p"
    "um_data p = udp_encode 6 (AmsAddr nid 0) ?its"
    using route_packet_built [of host "Some user" "Some pass" None ovf nid temporary] assms(1-3) by auto
  have svc: "slice_of (um_data p) 8 12 = (Ok (u32_le 6) :: bytes res)"
    by (simp add: p(2) slice_of_def udp_encode_def udp_header_bytes_def)
  have "send_receive env p = Ok \<lparr>um_items = item_layout 28 its, um_data = udp_encode 0x80000006 router its\<rparr>"
    using assms(4-9) svc parse_internal_enc [of its "0x80000006" router] by (simp add: send_receive_def)
  with p(1) assms(10) show ?thesis
    by (simp add: add_route_def get_u32_def map_tag_parsed rd_u32_if)
qed

definition demo_udp_env :: udp_env where
  "demo_udp_env = \<lparr>ue_bind = Ok (), ue_send = (\<lambda>_. Ok ()), ue_set_timeout = Ok (),
     ue_recv = (\<lambda>_. Ok (udp_encode 0x80000006 default_addr [(1, u32_le 0)]))\<rparr>"

theorem add_route_status_witness:
  "add_route True demo_udp_env netid_local [65] None (Some [66]) (Some [49]) True = Ok ()"
  using add_route_status [of "[65]" "[66]" "[49]" demo_udp_env default_addr "[(1, u32_le 0)]" 0 True
      netid_local True]
  by (simp add: demo_udp_env_def udp_encode_def enc_item_def)

text \<open>
  In a message that is being built, \<open>get_bytes\<close> returns the payload with its length field in
  front, while in the parsed form of the same bytes it returns the payload alone.
\<close>

theorem built_item_has_length_prefix:
  assumes "length d < 2 ^ 16"
  shows "\<exists>m m'. add_bytes (message_new s src) t d = Ok m \<and>
    get_bytes m t = Ok (Some (u16_le (of_nat (length d)) @ d)) \<and>
    parse_internal (um_data m) (service_code s) = Ok m' \<and> get_bytes m' t = Ok (Some d)"
proof -
  obtain m where m: "add_bytes (message_new s src) t d = Ok m"
    "um_data m = udp_encode (service_code s) src [(tag_code t, d)]"
    using add_bytes_built [OF built_new [of s src], of t d] by (auto simp: built_def)
  have "um_items m = [(tag_code t, 26, 28 + length d)]"
    using m(1) by (auto simp: add_bytes_def add_item_def message_new_def Let_def)
  then have "get_bytes m t = Ok (Some (u16_le (of_nat (length d)) @ d))"
    by (simp add: get_bytes_def map_tag_def m(2) slice_of_def udp_encode_def enc_item_def)
  moreover have "parse_internal (um_data m) (service_code s) =
      Ok \<lparr>um_items = item_layout 28 [(tag_code t, d)], um_data = udp_encode (service_code s) src [(tag_code t, d)]\<rparr>"
    using parse_internal_enc [of "[(tag_code t, d)]" "service_code s" src] assms m(2) by simp
  moreover have "get_bytes \<lparr>um_items = item_layout 28 [(tag_code t, d)],
      um_data = udp_encode (service_code s) src [(tag_code t, d)]\<rparr> t = Ok (Some d)"
    unfolding get_bytes_def map_tag_parsed by simp
  ultimately show ?thesis using m(1) by blast
qed

theorem built_item_has_length_prefix_witness:
  "\<exists>m m'. add_bytes (message_new Identify default_addr) Options [7] = Ok m \<and>
    get_bytes m Options = Ok (Some (u16_le 1 @ [7])) \<and>
    parse_internal (um_data m) 1 = Ok m' \<and> get_bytes m' Options = Ok (Some [7])"
  using built_item_has_length_prefix [of "[7]" Identify default_addr Options] by simp

end
