(* ===== verification/Ads_Strings.thy ===== *)
theory Ads_Strings
  imports Ads_Text
begin

text \<open>
  Fixed-length strings (\<open>src/strings.rs\<close>): \<open>String<LEN>\<close> and \<open>WString<LEN>\<close>, an array of
  \<open>LEN\<close> units and one more null unit. \<open>LEN\<close> is the length of the array; constructors take it as
  an argument. A \<open>&str\<close> is given by its code points.
\<close>

section \<open>Byte strings\<close>

record fstring =
  fs_units :: bytes
  fs_nul :: u8

definition string_new :: "nat \<Rightarrow> fstring" where
  "string_new LEN = \<lparr>fs_units = replicate LEN 0, fs_nul = 0\<rparr>"

text \<open>\<open>iter().position(|&b| b == 0).unwrap_or(len)\<close>\<close>

fun position_0 :: "'a::zero list \<Rightarrow> nat option" where
  "position_0 [] = None"
| "position_0 (b # bs) = (if b = 0 then Some 0 else map_option Suc (position_0 bs))"

definition string_len :: "fstring \<Rightarrow> nat" where
  "string_len s = (case position_0 (fs_units s) of Some i \<Rightarrow> i | None \<Rightarrow> length (fs_units s))"

definition string_is_empty :: "fstring \<Rightarrow> bool" where
  "string_is_empty s = (string_len s = 0)"

definition string_as_bytes :: "fstring \<Rightarrow> (bytes, unit) outcome" where
  "string_as_bytes s = slice_of (fs_units s) 0 (string_len s)"

definition string_eq :: "fstring \<Rightarrow> fstring \<Rightarrow> bool" where
  "string_eq s t = (string_as_bytes s = string_as_bytes t)"

definition string_eq_bytes :: "fstring \<Rightarrow> bytes \<Rightarrow> bool" where
  "string_eq_bytes s b = (string_as_bytes s = Ok b)"

text \<open>Comparison with a \<open>&str\<close>, and the text that \<open>Debug\<close> prints in quotes.\<close>

definition string_eq_str :: "fstring \<Rightarrow> nat list \<Rightarrow> bool" where
  "string_eq_str s cs = (string_as_bytes s = Ok (concat (map utf8_encode cs)))"

definition string_debug_text :: "fstring \<Rightarrow> (rstring, unit) outcome" where
  "string_debug_text s = rmap utf8_lossy (string_as_bytes s)"

definition string_from_array :: "bytes \<Rightarrow> fstring" where
  "string_from_array arr = \<lparr>fs_units = arr, fs_nul = 0\<rparr>"

definition string_to_array :: "fstring \<Rightarrow> bytes" where
  "string_to_array s = fs_units s"

definition string_try_from_bytes :: "nat \<Rightarrow> bytes \<Rightarrow> (fstring, unit) outcome" where
  "string_try_from_bytes LEN arr =
     (if length arr > LEN then Err ()
      else let s = string_new LEN in Ok (s\<lparr>fs_units := arr @ drop (length arr) (fs_units s)\<rparr>))"

definition string_try_from_str :: "nat \<Rightarrow> nat list \<Rightarrow> (fstring, unit) outcome" where
  "string_try_from_str LEN cs = string_try_from_bytes LEN (concat (map utf8_encode cs))"

definition string_into_vec :: "fstring \<Rightarrow> (bytes, unit) outcome" where
  "string_into_vec s = string_as_bytes s"

definition string_to_string :: "fstring \<Rightarrow> (rstring, unit) outcome" where
  "string_to_string s =
     rbind (string_as_bytes s) (\<lambda>b. case from_utf8 b of Some r \<Rightarrow> Ok r | None \<Rightarrow> Err ())"

section \<open>Wide strings\<close>

record wstring =
  ws_units :: "u16 list"
  ws_nul :: u16

definition wstring_new :: "nat \<Rightarrow> wstring" where
  "wstring_new LEN = \<lparr>ws_units = replicate LEN 0, ws_nul = 0\<rparr>"

definition wstring_len :: "wstring \<Rightarrow> nat" where
  "wstring_len s = (case position_0 (ws_units s) of Some i \<Rightarrow> i | None \<Rightarrow> length (ws_units s))"

definition wstring_is_empty :: "wstring \<Rightarrow> bool" where
  "wstring_is_empty s = (wstring_len s = 0)"

definition wstring_as_slice :: "wstring \<Rightarrow> (u16 list, unit) outcome" where
  "wstring_as_slice s = slice_of (ws_units s) 0 (wstring_len s)"

definition wstring_eq :: "wstring \<Rightarrow> wstring \<Rightarrow> bool" where
  "wstring_eq s t = (wstring_as_slice s = wstring_as_slice t)"

definition wstring_eq_units :: "wstring \<Rightarrow> u16 list \<Rightarrow> bool" where
  "wstring_eq_units s us = (wstring_as_slice s = Ok us)"

definition wstring_eq_str :: "wstring \<Rightarrow> nat list \<Rightarrow> bool" where
  "wstring_eq_str s cs = (wstring_as_slice s = Ok (concat (map utf16_encode cs)))"

definition wstring_from_array :: "u16 list \<Rightarrow> wstring" where
  "wstring_from_array arr = \<lparr>ws_units = arr, ws_nul = 0\<rparr>"

definition wstring_to_array :: "wstring \<Rightarrow> u16 list" where
  "wstring_to_array s = ws_units s"

definition wstring_try_from_units :: "nat \<Rightarrow> u16 list \<Rightarrow> (wstring, unit) outcome" where
  "wstring_try_from_units LEN arr =
     (if length arr > LEN then Err ()
      else let s = wstring_new LEN in Ok (s\<lparr>ws_units := arr @ drop (length arr) (ws_units s)\<rparr>))"

text \<open>The loop of \<open>try_from(&str)\<close>, with its check of every index.\<close>

fun wstring_fill :: "nat \<Rightarrow> u16 list \<Rightarrow> wstring \<Rightarrow> (wstring, unit) outcome" where
  "wstring_fill i [] s = Ok s"
| "wstring_fill i (u # us) s =
     (if i \<ge> length (ws_units s) then Err ()
      else wstring_fill (i + 1) us (s\<lparr>ws_units := (ws_units s)[i := u]\<rparr>))"

definition wstring_try_from_str :: "nat \<Rightarrow> nat list \<Rightarrow> (wstring, unit) outcome" where
  "wstring_try_from_str LEN cs = wstring_fill 0 (concat (map utf16_encode cs)) (wstring_new LEN)"

definition wstring_into_vec :: "wstring \<Rightarrow> (u16 list, unit) outcome" where
  "wstring_into_vec s = wstring_as_slice s"

definition wstring_to_string :: "wstring \<Rightarrow> nat list option" where
  "wstring_to_string s = utf16_decode (takeWhile (\<lambda>u. u \<noteq> 0) (ws_units s))"

definition wstring_debug_text :: "wstring \<Rightarrow> nat list" where
  "wstring_debug_text s = utf16_lossy (takeWhile (\<lambda>u. u \<noteq> 0) (ws_units s))"

section \<open>Lemmas\<close>

lemma position_0_takeWhile:
  "take (case position_0 xs of Some i \<Rightarrow> i | None \<Rightarrow> length xs) xs = takeWhile (\<lambda>b. b \<noteq> 0) xs"
  by (induction xs) (auto split: option.splits)

lemma position_0_le: "(case position_0 xs of Some i \<Rightarrow> i | None \<Rightarrow> length xs) \<le> length xs"
  by (induction xs) (auto split: option.splits)

lemma string_as_bytes_eq: "string_as_bytes s = Ok (takeWhile (\<lambda>b. b \<noteq> 0) (fs_units s))"
  using position_0_le [of "fs_units s"]
  by (simp add: string_as_bytes_def string_len_def slice_of_def position_0_takeWhile)

lemma wstring_as_slice_eq: "wstring_as_slice s = Ok (takeWhile (\<lambda>u. u \<noteq> 0) (ws_units s))"
  using position_0_le [of "ws_units s"]
  by (simp add: wstring_as_slice_def wstring_len_def slice_of_def position_0_takeWhile)

lemma takeWhile_replicate_0: "takeWhile (\<lambda>b. b \<noteq> 0) (xs @ replicate n 0) = takeWhile (\<lambda>b. b \<noteq> 0) xs"
  by (induction xs) (simp_all add: takeWhile_replicate)

lemma wstring_fill_eq:
  "i \<le> length (ws_units s) \<Longrightarrow>
     wstring_fill i us s =
       (if i + length us \<le> length (ws_units s)
        then Ok (s\<lparr>ws_units := take i (ws_units s) @ us @ drop (i + length us) (ws_units s)\<rparr>)
        else Err ())"
proof (induction us arbitrary: i s)
  case Nil
  then show ?case by simp
next
  case (Cons u us)
  show ?case
  proof (cases "i < length (ws_units s)")
    case True
    then have "take (Suc i) ((ws_units s)[i := u]) = take i (ws_units s) @ [u]"
      by (simp add: take_Suc_conv_app_nth)
    with True Cons.IH [of "Suc i" "s\<lparr>ws_units := (ws_units s)[i := u]\<rparr>"] show ?thesis by simp
  next
    case False
    with Cons.prems show ?thesis by simp
  qed
qed

lemma utf16_encode_nonzero: "is_scalar c \<Longrightarrow> c \<noteq> 0 \<Longrightarrow> u \<in> set (utf16_encode c) \<Longrightarrow> u \<noteq> 0"
proof
  assume s: "is_scalar c" "c \<noteq> 0" "u \<in> set (utf16_encode c)" "u = 0"
  have "\<exists>k. u = of_nat k \<and> 0 < k \<and> k < 65536"
  proof (cases "c < 0x10000")
    case True
    then show ?thesis using s by (auto simp: utf16_encode_def)
  next
    case False
    have "(c - 0x10000) div 1024 \<le> 1023" "(c - 0x10000) mod 1024 \<le> 1023"
      using s(1) by (auto simp: is_scalar_def)
    moreover have "u = of_nat (0xD800 + (c - 0x10000) div 1024) \<or> u = of_nat (0xDC00 + (c - 0x10000) mod 1024)"
      using False s(3) by (auto simp: utf16_encode_def)
    ultimately show ?thesis
      by (elim disjE) (rule exI [of _ "0xD800 + (c - 0x10000) div 1024"], simp,
          rule exI [of _ "0xDC00 + (c - 0x10000) mod 1024"], simp)
  qed
  then obtain k where "u = of_nat k" "0 < k" "k < 65536" by blast
  with s(4) show False using unat_of_nat_u16 [of k] by simp
qed

lemma takeWhile_utf16:
  "list_all is_scalar cs \<Longrightarrow>
     takeWhile (\<lambda>u. u \<noteq> 0) (concat (map utf16_encode cs)) =
     concat (map utf16_encode (takeWhile (\<lambda>c. c \<noteq> 0) cs))"
proof (induction cs)
  case (Cons c cs)
  show ?case
  proof (cases "c = 0")
    case True
    then show ?thesis by (simp add: utf16_encode_def)
  next
    case False
    then show ?thesis using Cons utf16_encode_nonzero [of c] by (simp add: takeWhile_append2)
  qed
qed simp

text \<open>
  Comparing with a text and converting to one agree: a wide string equals exactly the text it converts to, and
  that text is the one printed; a string that does not convert equals none.
\<close>

lemma wstring_eq_str_iff:
  assumes "list_all is_scalar cs"
  shows "wstring_eq_str w cs \<longleftrightarrow> wstring_to_string w = Some cs"
proof -
  have "wstring_eq_str w cs \<longleftrightarrow> takeWhile (\<lambda>u. u \<noteq> 0) (ws_units w) = concat (map utf16_encode cs)"
    by (simp add: wstring_eq_str_def wstring_as_slice_eq)
  then show ?thesis
    unfolding wstring_to_string_def using utf16_decode_encode_all [OF assms] utf16_encode_decode by metis
qed

lemma wstring_debug_of_text: "wstring_to_string w = Some cs \<Longrightarrow> wstring_debug_text w = cs"
  by (simp add: wstring_to_string_def wstring_debug_text_def utf16_lossy_valid)

lemma string_debug_of_text: "string_to_string s = Ok t \<Longrightarrow> string_debug_text s = Ok t"
  by (auto simp: string_to_string_def string_debug_text_def string_as_bytes_eq from_utf8_def utf8_lossy_valid
      split: if_splits)

section \<open>Properties\<close>

text \<open>
  A byte slice becomes a fixed-length string exactly when it is not longer than the array;
  converting back gives the slice up to its first null byte, and two strings are equal exactly
  when these contents are.
\<close>

theorem string_roundtrip:
  "(case string_try_from_bytes LEN b of
      Ok s \<Rightarrow> length b \<le> LEN \<and> length (string_to_array s) = LEN \<and>
        string_into_vec s = Ok (takeWhile (\<lambda>x. x \<noteq> 0) b) \<and> string_len s = length (takeWhile (\<lambda>x. x \<noteq> 0) b)
    | Err _ \<Rightarrow> LEN < length b
    | Panic \<Rightarrow> False) \<and>
   (string_eq s1 s2 \<longleftrightarrow> string_into_vec s1 = string_into_vec s2)"
proof -
  have "string_len s = length (takeWhile (\<lambda>x. x \<noteq> 0) (fs_units s))" for s
    using position_0_takeWhile [of "fs_units s"] position_0_le [of "fs_units s"]
    by (metis length_take min.absorb2 string_len_def)
  then show ?thesis
    by (auto simp: string_try_from_bytes_def string_new_def Let_def string_to_array_def string_into_vec_def
        string_as_bytes_eq takeWhile_replicate_0 string_eq_def)
qed

text \<open>
  A \<open>&str\<close> becomes a wide string exactly when its UTF-16 form is not longer than the array;
  converting back succeeds and gives the text up to its first null character, also for
  characters that need a surrogate pair; the wide string compares equal to that text and to no other,
  and it is the text that is printed.
\<close>

theorem wstring_roundtrip:
  assumes "list_all is_scalar cs"
  shows "case wstring_try_from_str LEN cs of
      Ok w \<Rightarrow> length (concat (map utf16_encode cs)) \<le> LEN \<and> length (wstring_to_array w) = LEN \<and>
        wstring_to_string w = Some (takeWhile (\<lambda>c. c \<noteq> 0) cs) \<and>
        (\<forall>cs'. list_all is_scalar cs' \<longrightarrow> wstring_eq_str w cs' = (cs' = takeWhile (\<lambda>c. c \<noteq> 0) cs)) \<and>
        wstring_debug_text w = takeWhile (\<lambda>c. c \<noteq> 0) cs
    | Err _ \<Rightarrow> LEN < length (concat (map utf16_encode cs))
    | Panic \<Rightarrow> False"
proof -
  have "utf16_decode (concat (map utf16_encode (takeWhile (\<lambda>c. c \<noteq> 0) cs))) = Some (takeWhile (\<lambda>c. c \<noteq> 0) cs)"
    by (rule utf16_decode_encode_all) (use assms in \<open>auto simp: list_all_iff dest: set_takeWhileD\<close>)
  with assms have "case wstring_try_from_str LEN cs of
      Ok w \<Rightarrow> length (concat (map utf16_encode cs)) \<le> LEN \<and> length (wstring_to_array w) = LEN \<and>
        wstring_to_string w = Some (takeWhile (\<lambda>c. c \<noteq> 0) cs)
    | Err _ \<Rightarrow> LEN < length (concat (map utf16_encode cs))
    | Panic \<Rightarrow> False"
    by (simp add: wstring_try_from_str_def wstring_fill_eq wstring_new_def wstring_to_string_def
        wstring_to_array_def takeWhile_replicate_0 takeWhile_utf16)
  then show ?thesis by (auto simp: wstring_eq_str_iff wstring_debug_of_text split: outcome.splits)
qed

theorem wstring_roundtrip_witness:
  "\<exists>w. wstring_try_from_str 5 [65, 0x1F600] = Ok w \<and> wstring_to_string w = Some [65, 0x1F600]"
  using wstring_roundtrip [of "[65, 0x1F600]" 5]
  by (simp add: is_scalar_def utf16_encode_def wstring_try_from_str_def wstring_fill_eq wstring_new_def)

end
