(* ===== verification/Ads_File.thy ===== *)
theory Ads_File
  imports Ads_Device
begin

text \<open>
  File access (\<open>src/file.rs\<close>): opening, reading, writing, closing and deleting a file of the
  device, the listing of a directory, and the mapping of errors to I/O errors. The listing is a
  loop that the device ends; \<open>None\<close> is the listing that never returns. \<open>dir_net\<close> is a device with a
  directory, whose entries \<open>enc_browse_item\<close> puts into the format of the protocol.
\<close>

section \<open>Modes and attributes\<close>

definition READ :: u32 where "READ = push_bit 0 1"
definition WRITE :: u32 where "WRITE = push_bit 1 1"
definition APPEND :: u32 where "APPEND = push_bit 2 1"
definition PLUS :: u32 where "PLUS = push_bit 3 1"
definition BINARY :: u32 where "BINARY = push_bit 4 1"
definition TEXT :: u32 where "TEXT = push_bit 5 1"
definition ENSURE_DIR :: u32 where "ENSURE_DIR = push_bit 6 1"
definition ENABLE_DIR :: u32 where "ENABLE_DIR = push_bit 7 1"
definition OVERWRITE :: u32 where "OVERWRITE = push_bit 8 1"
definition OVERWRITE_RENAME :: u32 where "OVERWRITE_RENAME = push_bit 9 1"
definition DIRECTORY :: u32 where "DIRECTORY = 0x10"

section \<open>Operations\<close>

definition file_open :: "'w comm \<Rightarrow> ams_addr \<Rightarrow> bytes \<Rightarrow> u32 \<Rightarrow> ('w, u32) op" where
  "file_open comm addr filename flags =
     ibind (write_read_exact comm addr FILE_OPEN flags filename (replicate 4 0)) (\<lambda>hdl. iret (le_u32 hdl))"

definition file_delete :: "'w comm \<Rightarrow> ams_addr \<Rightarrow> bytes \<Rightarrow> u32 \<Rightarrow> ('w, unit) op" where
  "file_delete comm addr filename flags =
     ibind (write_read comm addr FILE_DELETE flags filename []) (\<lambda>_. iret ())"

text \<open>\<open>map_error\<close>: back to an I/O error. The texts of I/O errors are a parameter.\<close>

definition map_error :: "(io_error \<Rightarrow> string) \<Rightarrow> error \<Rightarrow> io_error" where
  "map_error io_text e =
     (case e of
        Io _ io_err \<Rightarrow> io_err
      | Ads _ _ n \<Rightarrow>
          if n = 0x704 then io_of_kind InvalidInput
          else if n = 0x70C then io_of_kind NotFound
          else IoError OtherKind (Some (error_display io_text e))
      | _ \<Rightarrow> IoError OtherKind (Some (error_display io_text e)))"

definition map_err :: "('e \<Rightarrow> 'f) \<Rightarrow> ('s, 'a, 'e) io \<Rightarrow> ('s, 'a, 'f) io" where
  "map_err f m s = (case m s of
       (Ok x, s') \<Rightarrow> (Ok x, s') | (Err e, s') \<Rightarrow> (Err (f e), s') | (Panic, s') \<Rightarrow> (Panic, s'))"

definition file_write ::
  "(io_error \<Rightarrow> string) \<Rightarrow> 'w comm \<Rightarrow> ams_addr \<Rightarrow> u32 \<Rightarrow> bytes \<Rightarrow> ('w conn, nat, io_error) io" where
  "file_write io_text comm addr hdl data =
     ibind (map_err (map_error io_text) (write_read comm addr FILE_WRITE hdl data []))
       (\<lambda>_. iret (length data))"

definition file_read ::
  "(io_error \<Rightarrow> string) \<Rightarrow> 'w comm \<Rightarrow> ams_addr \<Rightarrow> u32 \<Rightarrow> bytes \<Rightarrow> ('w conn, nat \<times> bytes, io_error) io" where
  "file_read io_text comm addr hdl data =
     map_err (map_error io_text) (write_read comm addr FILE_READ hdl [] data)"

definition file_flush :: "'w comm \<Rightarrow> ams_addr \<Rightarrow> u32 \<Rightarrow> ('w conn, unit, io_error) io" where
  "file_flush comm addr hdl = iret ()"

definition file_drop :: "'w comm \<Rightarrow> ams_addr \<Rightarrow> u32 \<Rightarrow> ('w, unit) op" where
  "file_drop comm addr hdl = icatch (write_read comm addr FILE_CLOSE hdl [] []) (\<lambda>_. iret ())"

section \<open>Listing a directory\<close>

type_synonym dir_entry = "bytes \<times> u32 \<times> u64"

definition browse_entry :: "bytes \<Rightarrow> dir_entry" where
  "browse_entry buf =
     (let attrs = le_u32 (take 4 (drop 4 buf));
          sizeh = le_u32 (take 4 (drop 32 buf));
          sizel = le_u32 (take 4 (drop 36 buf));
          size = push_bit 32 (ucast sizeh) OR ucast sizel
      in (takeWhile (\<lambda>b. b \<noteq> 0) (drop 48 buf), attrs, size))"

partial_function (option) listdir_loop ::
  "'w comm \<Rightarrow> ams_addr \<Rightarrow> u32 \<Rightarrow> bytes \<Rightarrow> bytes \<Rightarrow> dir_entry list \<Rightarrow> 'w conn \<Rightarrow>
     (dir_entry list res \<times> 'w conn) option" where
  "listdir_loop comm addr offset argument buf files s =
     (case write_read_exact comm addr FILE_BROWSE offset argument buf s of
        (Ok buf', s') \<Rightarrow>
          listdir_loop comm addr (le_u32 (take 4 buf')) [] buf' (files @ [browse_entry buf']) s'
      | (Err e, s') \<Rightarrow>
          (case e of
             Ads _ _ n \<Rightarrow> Some (if n = 0x70C then Ok files else Err e, s')
           | _ \<Rightarrow> Some (Err e, s'))
      | (Panic, s') \<Rightarrow> Some (Panic, s'))"

definition listdir ::
  "'w comm \<Rightarrow> ams_addr \<Rightarrow> bytes \<Rightarrow> 'w conn \<Rightarrow> (dir_entry list res \<times> 'w conn) option" where
  "listdir comm addr dirname s =
     listdir_loop comm addr 1 (dirname @ [92, 42, 46, 42]) (replicate 324 0) [] s"

section \<open>A directory on the device\<close>

text \<open>
  What the device sends for one entry: where to continue, the attributes, the size with its upper half
  first, and the name, ended by a null byte where it is shorter than its field. The rest
  of the 324 bytes (times, file identification, short name, what stands behind the name) is arbitrary.
\<close>

record browse_item =
  bi_next :: u32
  bi_name :: bytes
  bi_attrs :: u32
  bi_size :: u64
  bi_times :: bytes
  bi_ident :: bytes
  bi_rest :: bytes

definition enc_browse_item :: "browse_item \<Rightarrow> bytes" where
  "enc_browse_item it =
     u32_le (bi_next it) @ u32_le (bi_attrs it) @ bi_times it @
     u32_le (of_nat (unat (bi_size it) div 2 ^ 32)) @ u32_le (of_nat (unat (bi_size it) mod 2 ^ 32)) @ bi_ident it @
     bi_name it @ bi_rest it"

definition wf_browse_item :: "browse_item \<Rightarrow> bool" where
  "wf_browse_item it \<longleftrightarrow>
     length (bi_times it) = 24 \<and> length (bi_ident it) = 8 \<and> length (bi_name it) + length (bi_rest it) = 276 \<and>
     0 \<notin> set (bi_name it) \<and> (bi_rest it = [] \<or> hd (bi_rest it) = 0)"

lemma length_enc_browse_item [simp]: "wf_browse_item it \<Longrightarrow> length (enc_browse_item it) = 324"
  by (simp add: wf_browse_item_def enc_browse_item_def)

lemma size_halves:
  "push_bit 32 (ucast (of_nat (unat x div 2 ^ 32) :: u32)) OR ucast (of_nat (unat x mod 2 ^ 32) :: u32) = (x :: u64)"
proof (rule bit_word_eqI)
  fix n
  assume n: "n < LENGTH(64)"
  have "unat x div 2 ^ 32 = unat (drop_bit 32 x)" "unat x mod 2 ^ 32 = unat (take_bit 32 x)"
    by (simp_all add: drop_bit_eq_div take_bit_eq_mod unat_div unat_mod)
  then have "(of_nat (unat x div 2 ^ 32) :: u32) = ucast (drop_bit 32 x)" "(of_nat (unat x mod 2 ^ 32) :: u32) = ucast (take_bit 32 x)"
    by (simp_all only: of_nat_unat)
  with n show "bit (push_bit 32 (ucast (of_nat (unat x div 2 ^ 32) :: u32) :: u64) OR ucast (of_nat (unat x mod 2 ^ 32) :: u32)) n = bit x n"
    by (auto simp only: bit_simps) auto
qed

lemma takeWhile_name:
  "0 \<notin> set name \<Longrightarrow> rest = [] \<or> hd rest = 0 \<Longrightarrow> takeWhile (\<lambda>b. b \<noteq> (0 :: u8)) (name @ rest) = name"
  by (induction name) (cases rest; simp)+

lemma browse_entry_enc:
  assumes "wf_browse_item it"
  shows "browse_entry (enc_browse_item it) = (bi_name it, bi_attrs it, bi_size it)"
    and "le_u32 (take 4 (enc_browse_item it)) = bi_next it"
  using assms takeWhile_name [of "bi_name it" "bi_rest it"] size_halves [of "bi_size it"]
  by (simp_all add: wf_browse_item_def browse_entry_def enc_browse_item_def Let_def)

text \<open>
  The device: it keeps the entries it has not yet reported and the offset and name it expects in the
  next request, answers that request with the next entry, and with the error \<open>code\<close> when there is none
  left. Any other request breaks the connection.
\<close>

definition dir_net :: "u32 \<Rightarrow> (browse_item list \<times> u32 \<times> bytes) net" where
  "dir_net code w req =
     (let (items, offset, name) = w in
      if drop 38 req \<noteq> index_length_rw_bytes \<lparr>rw_index_group = FILE_BROWSE, rw_index_offset = offset,
           rw_read_length = 324, rw_write_length = of_nat (length name)\<rparr> @ name
      then (Sent RecvDisconnected, w)
      else (case items of
              [] \<Rightarrow> (fst (echo_net (u32_le code) () req), w)
            | it # its \<Rightarrow> (fst (echo_net (u32_le 0 @ u32_le 324 @ enc_browse_item it) () req), (its, bi_next it, []))))"

lemma dir_net_answers:
  assumes "length name < 4294967000" and "length buf = 324"
  shows "wf_browse_item it \<Longrightarrow>
      write_read_exact (communicate (dir_net code)) addr FILE_BROWSE offset name buf (cl, (it # its, offset, name)) =
        (Ok (enc_browse_item it), (next_request cl, (its, bi_next it, [])))"
    and "code \<noteq> 0 \<Longrightarrow>
      write_read_exact (communicate (dir_net code)) addr FILE_BROWSE offset name buf (cl, ([], offset, name)) =
        (ads_error (action ReadWrite) code, (next_request cl, ([], offset, name)))"
proof -
  let ?rw = "\<lparr>rw_index_group = FILE_BROWSE, rw_index_offset = offset, rw_read_length = 324,
    rw_write_length = of_nat (length name)\<rparr>"
  let ?ws = "[index_length_rw_bytes ?rw, name]"
  have fits: "fits ?ws" using assms(1) by simp
  have payload: "drop 38 (request_bytes cl ReadWrite addr ?ws) = index_length_rw_bytes ?rw @ name"
    by (simp add: request_bytes_def)
  have net: "dir_net code (items, offset, name) (request_bytes cl ReadWrite addr ?ws) =
      (case items of
         [] \<Rightarrow> (fst (echo_net (u32_le code) () (request_bytes cl ReadWrite addr ?ws)), (items, offset, name))
       | it # its \<Rightarrow> (fst (echo_net (u32_le 0 @ u32_le 324 @ enc_browse_item it) () (request_bytes cl ReadWrite addr ?ws)),
            (its, bi_next it, [])))" for items
    by (simp add: dir_net_def payload)
  have echo: "\<exists>h. fst (echo_net resp () (request_bytes cl ReadWrite addr ?ws)) = Sent (RecvReply h resp) \<and>
      reply_to ReadWrite addr (invoke_id cl) h" for resp
    by (simp add: echo_net_def request_bytes_def reply_to_def)
  show "wf_browse_item it \<Longrightarrow>
      write_read_exact (communicate (dir_net code)) addr FILE_BROWSE offset name buf (cl, (it # its, offset, name)) =
        (Ok (enc_browse_item it), (next_request cl, (its, bi_next it, [])))"
    using echo [of "u32_le 0 @ u32_le 324 @ enc_browse_item it"] assms
    by (auto simp: write_read_exact_def write_read_def ibind_def try_u32_def communicate_fits [OF fits] net check_reply_reply_to)
  show "code \<noteq> 0 \<Longrightarrow>
      write_read_exact (communicate (dir_net code)) addr FILE_BROWSE offset name buf (cl, ([], offset, name)) =
        (ads_error (action ReadWrite) code, (next_request cl, ([], offset, name)))"
    using echo [of "u32_le code"] assms
    by (auto simp: write_read_exact_def write_read_def ibind_def try_u32_def communicate_fits [OF fits] net check_reply_reply_to
        ads_error_map_of)
qed

lemma listdir_loop_items:
  assumes "code \<noteq> 0" and "list_all wf_browse_item items" and "length buf = 324" and "length name < 4294967000"
  shows "\<exists>s'. listdir_loop (communicate (dir_net code)) addr offset name buf files (cl, (items, offset, name)) =
    Some (if code = 0x70C then Ok (files @ map (\<lambda>it. (bi_name it, bi_attrs it, bi_size it)) items)
          else ads_error (action ReadWrite) code, s')"
  using assms(2-4)
proof (induction items arbitrary: offset name buf files cl)
  case Nil
  then show ?case
    by (subst listdir_loop.simps) (simp add: dir_net_answers(2) [OF _ _ assms(1)] ads_error_map_of)
next
  case (Cons it its)
  have "listdir_loop (communicate (dir_net code)) addr offset name buf files (cl, (it # its, offset, name)) =
      listdir_loop (communicate (dir_net code)) addr (bi_next it) [] (enc_browse_item it)
        (files @ [(bi_name it, bi_attrs it, bi_size it)]) (next_request cl, (its, bi_next it, []))"
    using Cons.prems by (subst listdir_loop.simps) (simp add: dir_net_answers(1) browse_entry_enc)
  moreover have "\<exists>s'. listdir_loop (communicate (dir_net code)) addr (bi_next it) [] (enc_browse_item it)
        (files @ [(bi_name it, bi_attrs it, bi_size it)]) (next_request cl, (its, bi_next it, [])) =
      Some (if code = 0x70C
            then Ok ((files @ [(bi_name it, bi_attrs it, bi_size it)]) @ map (\<lambda>it. (bi_name it, bi_attrs it, bi_size it)) its)
            else ads_error (action ReadWrite) code, s')"
    by (rule Cons.IH) (use Cons.prems in simp_all)
  ultimately show ?case by (simp only: list.map append_assoc append.simps)
qed

section \<open>Endless listings\<close>

text \<open>
  A loop that is always answered with another entry never returns. \<open>P\<close> is what the arguments of
  the requests have in common.
\<close>

definition always_entry :: "'w comm \<Rightarrow> ams_addr \<Rightarrow> bytes \<Rightarrow> bool" where
  "always_entry comm addr arg \<longleftrightarrow>
     (\<forall>offset buf s. length buf = 324 \<longrightarrow>
        (\<exists>b s'. write_read_exact comm addr FILE_BROWSE offset arg buf s = (Ok b, s') \<and> length b = 324))"

lemma listdir_loop_returns:
  "listdir_loop comm addr offset argument buf files s = Some r \<Longrightarrow>
     length buf = 324 \<Longrightarrow> always_entry comm addr argument \<Longrightarrow> \<not> always_entry comm addr []"
proof (induction rule: listdir_loop.raw_induct [rotated, consumes 1, case_names step])
  case (step loop comm addr offset argument buf files s r)
  from step(3,4) obtain b s' where b: "length b = 324"
    "write_read_exact comm addr FILE_BROWSE offset argument buf s = (Ok b, s')"
    unfolding always_entry_def by blast
  with step(2) have "loop comm addr (le_u32 (take 4 b)) [] b (files @ [browse_entry b]) s' = Some r" by simp
  from step(1) [OF this b(1)] show ?case by blast
qed

section \<open>Properties\<close>

text \<open>
  C19. A listing of a directory returns the name, the attributes and the size of every entry
  the device has, in order, whatever the other fields of an entry hold, and ends at the device's
  "not found"; any other error at the end is the error of the listing. The device answers only the
  protocol's requests: the first one with the directory's pattern, each later one with the offset of the
  last entry and no name.
\<close>

theorem listdir_complete:
  assumes "list_all wf_browse_item items" and "length dirname < 4294966900" and "code \<noteq> 0"
  shows "\<exists>s'. listdir (communicate (dir_net code)) addr dirname (cl, (items, 1, dirname @ [92, 42, 46, 42])) =
    Some (if code = 0x70C then Ok (map (\<lambda>it. (bi_name it, bi_attrs it, bi_size it)) items)
          else ads_error (action ReadWrite) code, s')"
  using listdir_loop_items [OF assms(3,1), of "replicate 324 0" "dirname @ [92, 42, 46, 42]" addr 1 "[]" cl] assms(2)
  by (cases "code = 0x70C") (simp_all add: listdir_def)

definition demo_browse_item :: browse_item where
  "demo_browse_item = \<lparr>bi_next = 7, bi_name = [65, 66], bi_attrs = 32, bi_size = 2 ^ 32 + 42,
     bi_times = replicate 24 9, bi_ident = replicate 8 9, bi_rest = 0 # replicate 273 9\<rparr>"

theorem listdir_complete_witness:
  "\<exists>s'. listdir (communicate (dir_net 0x70C)) demo_addr [65]
      (demo_client, ([demo_browse_item, demo_browse_item\<lparr>bi_name := [], bi_rest := replicate 276 0\<rparr>], 1, [65, 92, 42, 46, 42])) =
    Some (Ok [([65, 66], 32, 2 ^ 32 + 42), ([], 32, 2 ^ 32 + 42)], s')"
proof -
  have "wf_browse_item demo_browse_item" "wf_browse_item (demo_browse_item\<lparr>bi_name := [], bi_rest := replicate 276 0\<rparr>)"
    by (simp_all add: wf_browse_item_def demo_browse_item_def)
  with listdir_complete [of "[demo_browse_item, demo_browse_item\<lparr>bi_name := [], bi_rest := replicate 276 0\<rparr>]" "[65]" "0x70C"
      demo_addr demo_client]
  show ?thesis by (simp add: demo_browse_item_def)
qed

text \<open>
  A listing has no bound of its own: against a device that always answers with another entry
  it does not return.
\<close>

theorem listdir_endless:
  assumes "always_entry (communicate net) addr (dirname @ [92, 42, 46, 42])"
    and "always_entry (communicate net) addr []"
  shows "listdir (communicate net) addr dirname s = None"
  using listdir_loop_returns [of "communicate net" addr 1 "dirname @ [92, 42, 46, 42]" "replicate 324 0" "[]" s]
    assms unfolding listdir_def
  by (cases "listdir_loop (communicate net) addr 1 (dirname @ [92, 42, 46, 42]) (replicate 324 0) [] s") auto

lemma echo_always_entry:
  assumes "length arg < 1000"
  shows "always_entry (communicate (echo_net (u32_le 0 @ u32_le 324 @ replicate 324 0))) addr arg"
proof -
  have "write_read_exact (communicate (echo_net (u32_le 0 @ u32_le 324 @ replicate 324 0))) addr FILE_BROWSE
      offset arg buf s = (Ok (replicate 324 0), (next_request (fst s), snd s))"
    if "length buf = 324" for offset buf and s :: "unit conn"
    using that assms
    by (cases s) (simp add: write_read_exact_def write_read_def ibind_def echo_communicate room_for_def)
  then show ?thesis unfolding always_entry_def by fastforce
qed

theorem listdir_endless_witness:
  "listdir (communicate (echo_net (u32_le 0 @ u32_le 324 @ replicate 324 0))) demo_addr [65] (demo_client, ()) = None"
  by (rule listdir_endless) (rule echo_always_entry, simp)+

text \<open>
  Reading from a file returns the length the device reports and the buffer filled by the
  data, as a plain write/read does; its errors become I/O errors, with "not found" and "invalid
  parameter" of the device kept as such and the error of the socket handed through.
\<close>

theorem file_errors_mapped:
  "map_error io_text (Io c e) = e \<and>
   (\<forall>m. map_error io_text (Ads c m 0x70C) = io_of_kind NotFound \<and>
     map_error io_text (Ads c m 0x704) = io_of_kind InvalidInput) \<and>
   fst (file_read io_text comm addr hdl data s) =
     (case fst (write_read comm addr FILE_READ hdl [] data s) of
        Ok r \<Rightarrow> Ok r | Err err \<Rightarrow> Err (map_error io_text err) | Panic \<Rightarrow> Panic)"
  by (simp add: map_error_def file_read_def map_err_def split: prod.split outcome.split)

end
