(* ===== verification/Ads_Symbol.thy ===== *)
theory Ads_Symbol
  imports Ads_Device Ads_Text
begin

text \<open>
  Symbols and types (\<open>src/symbol.rs\<close>): handles of variables, the decoder of the uploaded symbol
  and type tables, and the query of a single type. The argument \<open>ovf\<close> says whether arithmetic
  overflow is trapped (a debug build) or wraps (a release build).
\<close>

section \<open>Handles\<close>

definition handle_new :: "'w comm \<Rightarrow> ams_addr \<Rightarrow> rstring \<Rightarrow> ('w, u32) op" where
  "handle_new comm addr symbol =
     ibind (write_read_exact comm addr GET_SYMHANDLE_BYNAME 0 symbol (replicate 4 0)) (\<lambda>b. iret (le_u32 b))"

definition handle_read :: "'w comm \<Rightarrow> ams_addr \<Rightarrow> u32 \<Rightarrow> bytes \<Rightarrow> ('w, bytes) op" where
  "handle_read comm addr hdl buf = read_exact comm addr RW_SYMVAL_BYHANDLE hdl buf"

definition handle_write :: "'w comm \<Rightarrow> ams_addr \<Rightarrow> u32 \<Rightarrow> bytes \<Rightarrow> ('w, unit) op" where
  "handle_write comm addr hdl buf = dev_write comm addr RW_SYMVAL_BYHANDLE hdl buf"

definition handle_read_value :: "bytes \<Rightarrow> (bytes \<Rightarrow> 'a) \<Rightarrow> 'w comm \<Rightarrow> ams_addr \<Rightarrow> u32 \<Rightarrow> ('w, 'a) op" where
  "handle_read_value dflt from_bytes comm addr hdl = read_value dflt from_bytes comm addr RW_SYMVAL_BYHANDLE hdl"

definition handle_write_value :: "('a \<Rightarrow> bytes) \<Rightarrow> 'w comm \<Rightarrow> ams_addr \<Rightarrow> u32 \<Rightarrow> 'a \<Rightarrow> ('w, unit) op" where
  "handle_write_value as_bytes comm addr hdl v = write_value as_bytes comm addr RW_SYMVAL_BYHANDLE hdl v"

definition handle_drop :: "'w comm \<Rightarrow> ams_addr \<Rightarrow> u32 \<Rightarrow> ('w, unit) op" where
  "handle_drop comm addr hdl =
     icatch (dev_write comm addr RELEASE_SYMHANDLE 0 (u32_le hdl)) (\<lambda>_. iret ())"

definition get_size :: "'w comm \<Rightarrow> ams_addr \<Rightarrow> rstring \<Rightarrow> ('w, nat) op" where
  "get_size comm addr symbol =
     ibind (write_read_exact comm addr GET_SYMINFO_BYNAME 0 symbol (replicate 12 0))
       (\<lambda>b. iret (unat (le_u32 (drop 8 b))))"

definition get_location :: "'w comm \<Rightarrow> ams_addr \<Rightarrow> rstring \<Rightarrow> ('w, u32 \<times> u32) op" where
  "get_location comm addr symbol =
     ibind (write_read_exact comm addr GET_SYMINFO_BYNAME 0 symbol (replicate 12 0))
       (\<lambda>b. iret (le_u32 (take 4 b), le_u32 (take 4 (drop 4 b))))"

section \<open>Tables\<close>

record symbol =
  sy_name :: rstring
  sy_ix_group :: u32
  sy_ix_offset :: u32
  sy_typ :: rstring
  sy_size :: nat
  sy_base_type :: u32
  sy_flags :: u32

record attribute =
  attr_name :: rstring
  attr_value :: rstring

record enum_info =
  ei_name :: rstring
  ei_value :: i64

datatype variable_kind = Input | Output | InOut | Unknown

record rpc_method_parameter =
  rp_name :: rstring
  rp_typ :: rstring
  rp_size :: nat
  rp_variable_kind :: variable_kind
  rp_comment :: rstring
  rp_attributes :: "attribute list"

record rpc_method =
  rm_name :: rstring
  rm_return_type :: rstring
  rm_return_size :: nat
  rm_comment :: rstring
  rm_parameters :: "rpc_method_parameter list"
  rm_attributes :: "attribute list"

record field =
  fd_name :: rstring
  fd_typ :: rstring
  fd_offset :: "u32 option"
  fd_size :: nat
  fd_array :: "(i32 \<times> i32) list"
  fd_base_type :: u32
  fd_flags :: u32
  fd_comment :: rstring
  fd_attributes :: "attribute list option"

record sym_type =
  ty_name :: rstring
  ty_type_name :: rstring
  ty_comment :: rstring
  ty_size :: nat
  ty_array :: "(i32 \<times> i32) list"
  ty_fields :: "field list"
  ty_base_type :: u32
  ty_flags :: u32
  ty_guid :: "rstring option"
  ty_methods :: "rpc_method list option"
  ty_attributes :: "attribute list option"
  ty_enum_info :: "enum_info list option"

definition variable_kind_from_flags :: "u32 \<Rightarrow> variable_kind" where
  "variable_kind_from_flags flags =
     (let k = flags AND 3 in if k = 1 then Input else if k = 2 then Output else if k = 3 then InOut else Unknown)"

primrec variable_kind_as_str :: "variable_kind \<Rightarrow> string" where
  "variable_kind_as_str Input = ''VAR_INPUT''"
| "variable_kind_as_str Output = ''VAR_OUTPUT''"
| "variable_kind_as_str InOut = ''VAR_IN_OUT''"
| "variable_kind_as_str Unknown = ''unknown''"

definition TYPE_FLAG_GUID :: u32 where "TYPE_FLAG_GUID = 0x80"
definition TYPE_FLAG_COPY_MASK :: u32 where "TYPE_FLAG_COPY_MASK = 0x200"
definition TYPE_FLAG_METHOD_INFOS :: u32 where "TYPE_FLAG_METHOD_INFOS = 0x800"
definition TYPE_FLAG_ATTRIBUTES :: u32 where "TYPE_FLAG_ATTRIBUTES = 0x1000"
definition TYPE_FLAG_ENUM_INFOS :: u32 where "TYPE_FLAG_ENUM_INFOS = 0x2000"
definition RPC_METHOD_ATTRIBUTE_FLAG :: u32 where "RPC_METHOD_ATTRIBUTE_FLAG = 0x08"
definition RPC_PARAM_ATTRIBUTE_FLAG :: u32 where "RPC_PARAM_ATTRIBUTE_FLAG = 0x40"
definition MAX_STR_LEN :: nat where "MAX_STR_LEN = 8196"

abbreviation has_flag :: "u32 \<Rightarrow> u32 \<Rightarrow> bool" where
  "has_flag flags f \<equiv> flags AND f \<noteq> 0"

section \<open>Pieces\<close>

definition read_str :: "nat \<Rightarrow> rstring parser" where
  "read_str len ptr =
     (if len > MAX_STR_LEN then Err (Reply ''reading string'' ''string length exceeds maximum'' (of_nat len))
      else
        let total = len + 1 in
        if total > length ptr then
          let buf = ptr; content = min len (length buf) in
          rbind (slice_of buf 0 content) (\<lambda>b. Ok (utf8_lossy b, []))
        else
          rbind (split_at total ptr) (\<lambda>(fld, rest).
          rbind (slice_of fld 0 len) (\<lambda>b. Ok (utf8_lossy b, rest))))"

text \<open>\<open>{:0kx}\<close> for a number of at most \<open>k\<close> hexadecimal digits.\<close>

primrec hex_pad :: "nat \<Rightarrow> nat \<Rightarrow> bytes" where
  "hex_pad 0 n = []"
| "hex_pad (Suc k) n =
     hex_pad k (n div 16) @ [let d = n mod 16 in if d < 10 then of_nat (48 + d) else of_nat (87 + d)]"

definition guid_text :: "bytes \<Rightarrow> rstring" where
  "guid_text g =
     hex_pad 8 (unat (le_u32 (take 4 g))) @ [45] @ hex_pad 4 (unat (le_u16 (take 2 (drop 4 g)))) @ [45] @
     hex_pad 4 (unat (le_u16 (take 2 (drop 6 g)))) @ [45] @
     concat (map (\<lambda>b. hex_pad 2 (unat b)) (take 2 (drop 8 g))) @ [45] @
     concat (map (\<lambda>b. hex_pad 2 (unat b)) (drop 10 g))"

definition parse_guid :: "rstring parser" where
  "parse_guid = pbind (rd_exact ''parsing GUID'' 16) (\<lambda>g. pret (guid_text g))"

definition skip_copy_mask :: "nat \<Rightarrow> unit parser" where
  "skip_copy_mask sz = pbind (rd_exact ''skipping copy mask'' sz) (\<lambda>_. pret ())"

definition parse_attribute :: "attribute parser" where
  "parse_attribute =
     pbind (rd_u8 ''parsing attributes'') (\<lambda>name_len.
     pbind (rd_u8 ''parsing attributes'') (\<lambda>value_len.
     pbind (read_str (unat name_len)) (\<lambda>name.
     pbind (read_str (unat value_len)) (\<lambda>value.
     pret \<lparr>attr_name = name, attr_value = value\<rparr>))))"

definition parse_attributes :: "attribute list parser" where
  "parse_attributes = pbind (rd_u16 ''parsing attributes'') (\<lambda>count. ptimes (unat count) parse_attribute)"

text \<open>
  \<open>x as i64\<close> for an IEEE-754 number given by its bits, with \<open>eb\<close> exponent and \<open>mb\<close> mantissa bits:
  truncation towards zero, saturating at the ends of the range, 0 for a NaN.
\<close>

definition float_as_i64 :: "nat \<Rightarrow> nat \<Rightarrow> nat \<Rightarrow> i64" where
  "float_as_i64 eb mb bits =
     (let mant = bits mod 2 ^ mb;
          ex = bits div 2 ^ mb mod 2 ^ eb;
          neg = odd (bits div 2 ^ (mb + eb));
          bias = 2 ^ (eb - 1) - 1;
          m = (if ex = 0 then mant else 2 ^ mb + mant);
          e = (if ex = 0 then 1 else ex);
          mag = (if e \<ge> bias + mb then m * 2 ^ (e - (bias + mb)) else m div 2 ^ (bias + mb - e));
          lim = (if neg then 2 ^ 63 else 2 ^ 63 - 1);
          v = (if ex = 2 ^ eb - 1 then (if mant = 0 then lim else 0) else min mag lim)
      in if neg then - of_nat v else of_nat v)"

text \<open>The value of an enum variant from its \<open>sz\<close> raw bytes; a slice beyond them panics.\<close>

definition enum_value :: "nat \<Rightarrow> u32 \<Rightarrow> bytes \<Rightarrow> i64 res" where
  "enum_value sz base_type raw =
     (let i8 = rmap (\<lambda>b. (scast (hd b) :: i64)) (slice_of raw 0 1);
          w8 = rmap (\<lambda>b. (ucast (hd b) :: i64)) (slice_of raw 0 1);
          i16 = rmap (\<lambda>b. (scast (le_u16 b) :: i64)) (slice_of raw 0 2);
          i32 = rmap (\<lambda>b. (scast (le_u32 b) :: i64)) (slice_of raw 0 4);
          i64 = rmap le_u64 (slice_of raw 0 8)
      in
      if base_type = 2 then i16
      else if base_type = 3 then i32
      else if base_type = 4 then rmap (\<lambda>b. float_as_i64 8 23 (unat (le_u32 b))) (slice_of raw 0 4)
      else if base_type = 5 then rmap (\<lambda>b. float_as_i64 11 52 (unat (le_u64 b))) (slice_of raw 0 8)
      else if base_type = 16 then i8
      else if base_type = 17 then w8
      else if base_type = 18 then rmap (\<lambda>b. (ucast (le_u16 b) :: i64)) (slice_of raw 0 2)
      else if base_type = 19 then rmap (\<lambda>b. (ucast (le_u32 b) :: i64)) (slice_of raw 0 4)
      else if base_type = 20 then i64
      else if base_type = 21 then i64
      else if sz = 1 then w8
      else if sz = 2 then i16
      else if sz = 4 then i32
      else if sz = 8 then i64
      else Ok (- 99))"

definition parse_enum_info :: "nat \<Rightarrow> u32 \<Rightarrow> enum_info parser" where
  "parse_enum_info sz base_type =
     pbind (rd_u8 ''parsing enum infos'') (\<lambda>name_len.
     pbind (read_str (unat name_len)) (\<lambda>name.
     pbind (rd_exact ''parsing enum infos'' sz) (\<lambda>raw.
     pbind (plift (enum_value sz base_type raw)) (\<lambda>value.
     pret \<lparr>ei_name = name, ei_value = value\<rparr>))))"

definition parse_enum_infos :: "nat \<Rightarrow> u32 \<Rightarrow> enum_info list parser" where
  "parse_enum_infos sz base_type =
     pbind (rd_u16 ''parsing enum infos'') (\<lambda>count. ptimes (unat count) (parse_enum_info sz base_type))"

text \<open>A length-prefixed entry: \<open>split_at(entry_len - 4)\<close> and a decoder for the piece.\<close>

definition sub_entry :: "string \<Rightarrow> string \<Rightarrow> (bytes \<Rightarrow> 'a res) \<Rightarrow> 'a parser" where
  "sub_entry c msg f =
     pbind (rd_u32 c) (\<lambda>entry_len.
     if unat entry_len < 4 then pfail (Reply c msg entry_len)
     else pbind (psplit (unat entry_len - 4)) (\<lambda>data. plift (f data)))"

definition parse_rpc_method_parameter :: "bytes \<Rightarrow> rpc_method_parameter res" where
  "parse_rpc_method_parameter data =
     (let c = ''parsing RPC method parameter'' in
      rmap fst (pbind (rd_u32 c) (\<lambda>sz.
        pbind (rd_u32 c) (\<lambda>_.
        pbind (rd_u32 c) (\<lambda>_.
        pbind (rd_u32 c) (\<lambda>flags.
        pbind (rd_u32 c) (\<lambda>_.
        pbind (rd_exact c 16) (\<lambda>_.
        pbind (rd_u16 c) (\<lambda>_.
        pbind (rd_u16 c) (\<lambda>name_len.
        pbind (rd_u16 c) (\<lambda>type_len.
        pbind (rd_u16 c) (\<lambda>comment_len.
        pbind (read_str (unat name_len)) (\<lambda>name.
        pbind (read_str (unat type_len)) (\<lambda>typ.
        pbind (read_str (unat comment_len)) (\<lambda>comment.
        pbind (if has_flag flags RPC_PARAM_ATTRIBUTE_FLAG then parse_attributes else pret []) (\<lambda>attributes.
        pret \<lparr>rp_name = name, rp_typ = typ, rp_size = unat sz,
              rp_variable_kind = variable_kind_from_flags flags, rp_comment = comment,
              rp_attributes = attributes\<rparr>)))))))))))))) data))"

definition parse_rpc_method :: "bytes \<Rightarrow> rpc_method res" where
  "parse_rpc_method data =
     (let c = ''parsing RPC method'' in
      rmap fst (pbind (rd_u32 c) (\<lambda>_.
        pbind (rd_u32 c) (\<lambda>_.
        pbind (rd_u32 c) (\<lambda>return_size.
        pbind (rd_u32 c) (\<lambda>_.
        pbind (rd_u32 c) (\<lambda>_.
        pbind (rd_exact c 16) (\<lambda>_.
        pbind (rd_u32 c) (\<lambda>_.
        pbind (rd_u32 c) (\<lambda>flags.
        pbind (rd_u16 c) (\<lambda>name_len.
        pbind (rd_u16 c) (\<lambda>return_type_len.
        pbind (rd_u16 c) (\<lambda>comment_len.
        pbind (rd_u16 c) (\<lambda>param_count.
        pbind (read_str (unat name_len)) (\<lambda>name.
        pbind (read_str (unat return_type_len)) (\<lambda>return_type.
        pbind (read_str (unat comment_len)) (\<lambda>comment.
        pbind (ptimes (unat param_count)
            (sub_entry c ''invalid parameter entry length'' parse_rpc_method_parameter)) (\<lambda>parameters.
        pbind (if has_flag flags RPC_METHOD_ATTRIBUTE_FLAG then parse_attributes else pret []) (\<lambda>attributes.
        pret \<lparr>rm_name = name, rm_return_type = return_type, rm_return_size = unat return_size,
              rm_comment = comment, rm_parameters = parameters,
              rm_attributes = attributes\<rparr>))))))))))))))))) data))"

definition parse_method_infos :: "rpc_method list parser" where
  "parse_method_infos =
     pbind (rd_u16 ''parsing method infos'') (\<lambda>count.
     ptimes (unat count) (sub_entry ''parsing method infos'' ''invalid method entry length'' parse_rpc_method))"

text \<open>\<open>if flag set \{ Some(p()?) \} else \{ None \}\<close>\<close>

definition optionally :: "bool \<Rightarrow> 'a parser \<Rightarrow> 'a option parser" where
  "optionally b p = (if b then pbind p (\<lambda>x. pret (Some x)) else pret None)"

definition parse_type_flags :: "sym_type \<Rightarrow> sym_type parser" where
  "parse_type_flags t =
     pbind (optionally (has_flag (ty_flags t) TYPE_FLAG_GUID) parse_guid) (\<lambda>g.
     pbind (optionally (has_flag (ty_flags t) TYPE_FLAG_COPY_MASK) (skip_copy_mask (ty_size t))) (\<lambda>_.
     pbind (optionally (has_flag (ty_flags t) TYPE_FLAG_METHOD_INFOS) parse_method_infos) (\<lambda>ms.
     pbind (optionally (has_flag (ty_flags t) TYPE_FLAG_ATTRIBUTES) parse_attributes) (\<lambda>at.
     pbind (optionally (has_flag (ty_flags t) TYPE_FLAG_ENUM_INFOS)
         (parse_enum_infos (ty_size t) (ty_base_type t))) (\<lambda>en.
     pret (t\<lparr>ty_guid := g, ty_methods := ms, ty_attributes := at, ty_enum_info := en\<rparr>))))))"

definition parse_field_attributes :: "u32 \<Rightarrow> nat \<Rightarrow> attribute list option parser" where
  "parse_field_attributes flags sz =
     pbind (optionally (has_flag flags TYPE_FLAG_GUID) parse_guid) (\<lambda>_.
     pbind (optionally (has_flag flags TYPE_FLAG_COPY_MASK) (skip_copy_mask sz)) (\<lambda>_.
     pbind (optionally (has_flag flags TYPE_FLAG_METHOD_INFOS) parse_method_infos) (\<lambda>_.
     optionally (has_flag flags TYPE_FLAG_ATTRIBUTES) parse_attributes)))"

section \<open>Types and symbols\<close>

text \<open>\<open>lower + total - 1\<close> on \<open>i32\<close>.\<close>

definition in_i32 :: "int \<Rightarrow> bool" where
  "in_i32 x \<longleftrightarrow> - (2 ^ 31) \<le> x \<and> x < 2 ^ 31"

definition array_upper :: "bool \<Rightarrow> i32 \<Rightarrow> i32 \<Rightarrow> i32 res" where
  "array_upper ovf lower tot =
     (if ovf \<and> \<not> (in_i32 (sint lower + sint tot) \<and> in_i32 (sint lower + sint tot - 1)) then Panic
      else Ok (lower + tot - 1))"

abbreviation type_ctx :: string where
  "type_ctx \<equiv> ''decoding type info''"

definition decode_array_dim :: "bool \<Rightarrow> (i32 \<times> i32) parser" where
  "decode_array_dim ovf =
     pbind (rd_u32 type_ctx) (\<lambda>lower.
     pbind (rd_u32 type_ctx) (\<lambda>tot.
     pbind (plift (array_upper ovf lower tot)) (\<lambda>upper. pret (lower, upper))))"

text \<open>The part of \<open>decode_type_info\<close> before the distinction between field and type.\<close>

record type_head =
  th_size :: nat
  th_offset :: u32
  th_base_type :: u32
  th_flags :: u32
  th_sub_items :: nat
  th_name :: rstring
  th_type_name :: rstring
  th_comment :: rstring
  th_array :: "(i32 \<times> i32) list"

definition decode_type_head :: "bool \<Rightarrow> type_head parser" where
  "decode_type_head ovf =
     pbind (rd_u32 type_ctx) (\<lambda>version.
     if version \<noteq> 1 then pfail (Reply type_ctx ''unknown type info version'' version)
     else
       pbind (rd_exact type_ctx 8) (\<lambda>_.
       pbind (rd_u32 type_ctx) (\<lambda>sz.
       pbind (rd_u32 type_ctx) (\<lambda>offset.
       pbind (rd_u32 type_ctx) (\<lambda>base_type.
       pbind (rd_u32 type_ctx) (\<lambda>flags.
       pbind (rd_u16 type_ctx) (\<lambda>len_name.
       pbind (rd_u16 type_ctx) (\<lambda>len_type.
       pbind (rd_u16 type_ctx) (\<lambda>len_comment.
       pbind (rd_u16 type_ctx) (\<lambda>array_dim.
       pbind (rd_u16 type_ctx) (\<lambda>sub_items.
       pbind (read_str (unat len_name)) (\<lambda>name.
       pbind (read_str (unat len_type)) (\<lambda>type_name.
       pbind (read_str (unat len_comment)) (\<lambda>comment.
       pbind (ptimes (unat array_dim) (decode_array_dim ovf)) (\<lambda>array.
       pret \<lparr>th_size = unat sz, th_offset = offset, th_base_type = base_type, th_flags = flags,
             th_sub_items = unat sub_items, th_name = name, th_type_name = type_name,
             th_comment = comment, th_array = array\<rparr>)))))))))))))))"

text \<open>With a parent: the record is a field.\<close>

definition decode_field_info :: "bool \<Rightarrow> bytes \<Rightarrow> field res" where
  "decode_field_info ovf data =
     rmap fst (pbind (decode_type_head ovf) (\<lambda>h.
       pbind (parse_field_attributes (th_flags h) (th_size h)) (\<lambda>attributes.
       pret \<lparr>fd_name = th_name h, fd_typ = th_type_name h,
             fd_offset = (if th_offset h = 0xFFFFFFFF then None else Some (th_offset h)),
             fd_size = th_size h, fd_array = th_array h, fd_base_type = th_base_type h,
             fd_flags = th_flags h, fd_comment = th_comment h, fd_attributes = attributes\<rparr>)) data)"

text \<open>Without: a type, whose sub-items are its fields.\<close>

definition decode_type_info :: "bool \<Rightarrow> bytes \<Rightarrow> sym_type res" where
  "decode_type_info ovf data =
     rmap fst (pbind (decode_type_head ovf) (\<lambda>h.
       pbind (ptimes (th_sub_items h)
           (sub_entry type_ctx ''invalid sub-item entry length'' (decode_field_info ovf))) (\<lambda>fields.
       parse_type_flags
         \<lparr>ty_name = th_name h, ty_type_name = th_type_name h, ty_comment = th_comment h,
          ty_size = th_size h, ty_array = th_array h, ty_fields = fields,
          ty_base_type = th_base_type h, ty_flags = th_flags h, ty_guid = None, ty_methods = None,
          ty_attributes = None, ty_enum_info = None\<rparr>)) data)"

type_synonym type_map = "rstring \<rightharpoonup> sym_type"

text \<open>
  The frame of an entry of the tables: \<open>split_at(entry_size - 4)\<close>. For an entry size below four
  the subtraction underflows or, where it wraps, the split fails; both panic.
\<close>

definition table_entry :: "string \<Rightarrow> bytes parser" where
  "table_entry c =
     pbind (rd_u32 c) (\<lambda>entry_size.
     if unat entry_size < 4 then plift Panic else psplit (unat entry_size - 4))"

lemma table_entry_progress: "table_entry c s = Ok (e, t) \<Longrightarrow> length t < length s"
  by (fastforce simp: table_entry_def pbind_eq_Ok psplit_def split_at_def dest!: u32c.remaining
      split: if_splits)

function decode_types :: "bool \<Rightarrow> bytes \<Rightarrow> type_map \<Rightarrow> type_map res" where
  "decode_types ovf s tm =
     (if s = [] then Ok tm
      else rbind (table_entry type_ctx s) (\<lambda>(e, rest).
           rbind (decode_type_info ovf e) (\<lambda>t. decode_types ovf rest (tm(ty_name t \<mapsto> t)))))"
  by pat_completeness auto
termination
  by (relation "measure (\<lambda>(ovf, s, tm). length s)") (auto dest: table_entry_progress)

declare decode_types.simps [simp del]

definition decode_symbol :: "bytes \<Rightarrow> symbol res" where
  "decode_symbol data =
     (let c = ''decoding symbol info'' in
      rmap fst (pbind (rd_u32 c) (\<lambda>ix_group.
        pbind (rd_u32 c) (\<lambda>ix_offset.
        pbind (rd_u32 c) (\<lambda>sz.
        pbind (rd_u32 c) (\<lambda>base_type.
        pbind (rd_u16 c) (\<lambda>flags.
        pbind (rd_u16 c) (\<lambda>_.
        pbind (rd_u16 c) (\<lambda>len_name.
        pbind (rd_u16 c) (\<lambda>len_type.
        pbind (rd_u16 c) (\<lambda>_.
        pbind (read_str (unat len_name)) (\<lambda>name.
        pbind (read_str (unat len_type)) (\<lambda>typ.
        pret \<lparr>sy_name = name, sy_ix_group = ix_group, sy_ix_offset = ix_offset, sy_typ = typ,
              sy_size = unat sz, sy_base_type = base_type, sy_flags = ucast flags\<rparr>))))))))))) data))"

function decode_symbols :: "bytes \<Rightarrow> symbol list res" where
  "decode_symbols s =
     (if s = [] then Ok []
      else rbind (table_entry ''decoding symbol info'' s) (\<lambda>(e, rest).
           rbind (decode_symbol e) (\<lambda>x. rmap (Cons x) (decode_symbols rest))))"
  by pat_completeness auto
termination
  by (relation "measure length") (auto dest: table_entry_progress)

declare decode_symbols.simps [simp del]

definition decode_symbol_info :: "bool \<Rightarrow> bytes \<Rightarrow> bytes \<Rightarrow> (symbol list \<times> type_map) res" where
  "decode_symbol_info ovf symbol_data type_data =
     rbind (decode_types ovf type_data Map.empty) (\<lambda>tm.
     rmap (\<lambda>syms. (syms, tm)) (decode_symbols symbol_data))"

definition get_symbol_info :: "bool \<Rightarrow> 'w comm \<Rightarrow> ams_addr \<Rightarrow> ('w, symbol list \<times> type_map) op" where
  "get_symbol_info ovf comm addr =
     ibind (read_exact comm addr SYM_UPLOAD_INFO2 0 (replicate 64 0)) (\<lambda>info.
     let symbol_len = unat (le_u32 (take 4 (drop 4 info)));
         types_len = unat (le_u32 (take 4 (drop 12 info)))
     in
     ibind (read_exact comm addr SYM_DT_UPLOAD 0 (replicate types_len 0)) (\<lambda>type_data.
     ibind (read_exact comm addr SYM_UPLOAD 0 (replicate symbol_len 0)) (\<lambda>symbol_data.
     ilift (decode_symbol_info ovf symbol_data type_data))))"

definition get_type_info_by_name :: "bool \<Rightarrow> 'w comm \<Rightarrow> ams_addr \<Rightarrow> rstring \<Rightarrow> ('w, sym_type) op" where
  "get_type_info_by_name ovf comm addr type_name =
     ibind (write_read comm addr GET_TYPEINFO_BYNAME_EX 0 type_name (replicate 4096 0)) (\<lambda>(n, read_data).
     ilift (rbind (slice_of read_data 0 n) (\<lambda>data.
       if length data < 4
       then Err (Reply ''get type info by name'' ''response too short'' (of_nat (length data)))
       else
         let entry_length = unat (le_u32 (take 4 data));
             body_end = min entry_length (length data)
         in rbind (slice_of data 4 body_end) (decode_type_info ovf))))"

text \<open>A device that answers a sequence of requests with the given data.\<close>

definition scripted :: "bytes list comm" where
  "scripted cmd addr ws rs s =
     (Ok (0, [u32_le (of_nat (length (hd (snd s)))), hd (snd s)]), (fst s, tl (snd s)))"

lemma scripted_read_exact:
  "length data < 2 ^ 32 \<Longrightarrow> length d < 2 ^ 32 \<Longrightarrow>
     read_exact scripted addr grp ofs data (c, d # ds) = (Ok d, (c, ds))"
  by (simp add: read_exact_def dev_read_def ibind_def try_u32_def scripted_def)

end
