(* ===== verification/Ads_Tables.thy ===== *)
theory Ads_Tables
  imports Ads_Symbol
begin

text \<open>
  The format of the uploaded symbol and type tables, as an encoder, and the theorems on the
  decoder of \<open>src/symbol.rs\<close>: it inverts the encoder, whatever stands in the fields it skips;
  every text it returns is valid UTF-8; the number of entries is bounded by the input; and
  exactly the corrupt frames make it panic.
\<close>

section \<open>Building blocks\<close>

text \<open>The contents of a skipped region: \<open>n\<close> arbitrary bytes, told apart by the position \<open>i\<close>.\<close>

definition junk :: "(nat \<Rightarrow> u8) \<Rightarrow> nat \<Rightarrow> nat \<Rightarrow> bytes" where
  "junk p i n = map p [i..<i + n]"

lemma length_junk [simp]: "length (junk p i n) = n"
  by (simp add: junk_def)

definition enc_str :: "rstring \<Rightarrow> bytes" where
  "enc_str x = x @ [0]"

definition len16 :: "'a list \<Rightarrow> bytes" where
  "len16 xs = u16_le (of_nat (length xs))"

definition wf_str :: "rstring \<Rightarrow> bool" where
  "wf_str x \<longleftrightarrow> utf8_valid x \<and> length x \<le> MAX_STR_LEN"

lemma length_len16 [simp]: "length (len16 xs) = 2"
  by (simp add: len16_def)

lemma read_str_enc [simp]: "wf_str x \<Longrightarrow> read_str (length x) (enc_str x @ s) = Ok (x, s)"
  by (simp add: read_str_def wf_str_def enc_str_def split_at_def slice_of_def utf8_lossy_valid)

lemma read_str_enc_end [simp]: "wf_str x \<Longrightarrow> read_str (length x) (enc_str x) = Ok (x, [])"
  using read_str_enc [of x "[]"] by simp

lemma wf_str_unat16 [simp]: "wf_str x \<Longrightarrow> unat (of_nat (length x) :: u16) = length x"
  by (rule unat_of_nat_u16) (simp add: wf_str_def MAX_STR_LEN_def)

lemma rd_len16 [simp]: "rd_u16 c (len16 xs @ s) = Ok (of_nat (length xs), s)"
  by (simp add: len16_def)

lemma read_str_not_Panic [simp]: "read_str n s \<noteq> Panic"
  by (auto simp: read_str_def Let_def slice_of_def split_at_def)

lemma read_str_utf8: "read_str n s = Ok (x, t) \<Longrightarrow> utf8_valid x"
  by (auto simp: read_str_def Let_def utf8_valid_lossy split: if_splits)

text \<open>A list with a 16-bit count in front.\<close>

definition counted :: "('a \<Rightarrow> bytes) \<Rightarrow> 'a list \<Rightarrow> bytes" where
  "counted enc xs = len16 xs @ concat (map enc xs)"

locale parser_codec = codec enc dec wf
  for enc :: "'a \<Rightarrow> bytes" and dec :: "'a parser" and wf :: "'a \<Rightarrow> bool"
begin

lemma counted_dec:
  "list_all wf xs \<Longrightarrow> length xs < 65536 \<Longrightarrow>
     pbind (rd_u16 c) (\<lambda>n. ptimes (unat n) dec) (counted enc xs @ s) = Ok (xs, s)"
  by (simp add: counted_def ptimes_enc pbind_def)

end

text \<open>Entries with their length in front, four bytes for the length included.\<close>

definition table_frame :: "bytes \<Rightarrow> bytes" where
  "table_frame e = u32_le (of_nat (4 + length e)) @ e"

definition frame_fits :: "bytes \<Rightarrow> bool" where
  "frame_fits e \<longleftrightarrow> 4 + length e < 2 ^ 32"

lemma rd_frame: "rd_u32 c (table_frame e @ s) = Ok (of_nat (4 + length e), e @ s)"
  unfolding table_frame_def append_assoc by (rule rd_u32_append)

lemma unat_fits: "frame_fits e \<Longrightarrow> unat (of_nat (4 + length e) :: u32) = 4 + length e"
  unfolding frame_fits_def by (rule unat_of_nat_lt) simp

lemmas frame_facts = rd_frame unat_fits

locale framed =
  fixes enc :: "'a \<Rightarrow> bytes" and f :: "bytes \<Rightarrow> 'a res" and wf :: "'a \<Rightarrow> bool"
  assumes f_enc: "wf x \<Longrightarrow> f (enc x) = Ok x"
begin

lemma sub_entry_codec: "codec (\<lambda>x. table_frame (enc x)) (sub_entry c msg f) (\<lambda>x. wf x \<and> frame_fits (enc x))"
  by unfold_locales (simp add: sub_entry_def frame_facts pbind_def f_enc del: of_nat_add)

lemmas sub_entries = codec.ptimes_enc [OF sub_entry_codec]

end

lemma table_entry_frame: "frame_fits e \<Longrightarrow> table_entry c (table_frame e @ s) = Ok (e, s)"
  by (simp add: table_entry_def frame_facts pbind_def del: of_nat_add)

section \<open>Attributes\<close>

definition enc_attribute :: "attribute \<Rightarrow> bytes" where
  "enc_attribute a =
     [of_nat (length (attr_name a)), of_nat (length (attr_value a))] @ enc_str (attr_name a) @ enc_str (attr_value a)"

definition wf_str8 :: "rstring \<Rightarrow> bool" where
  "wf_str8 x \<longleftrightarrow> utf8_valid x \<and> length x < 256"

lemma wf_str8: "wf_str8 x \<Longrightarrow> wf_str x \<and> unat (of_nat (length x) :: u8) = length x"
  by (simp add: wf_str8_def wf_str_def MAX_STR_LEN_def unat_of_nat_u8)

definition wf_attribute :: "attribute \<Rightarrow> bool" where
  "wf_attribute a \<longleftrightarrow> wf_str8 (attr_name a) \<and> wf_str8 (attr_value a)"

definition wf_attributes :: "attribute list \<Rightarrow> bool" where
  "wf_attributes as \<longleftrightarrow> list_all wf_attribute as \<and> length as < 65536"

interpretation attributec: parser_codec enc_attribute parse_attribute wf_attribute
  by unfold_locales
    (simp add: parse_attribute_def enc_attribute_def wf_attribute_def pbind_def wf_str8)

interpretation attributesc: parser_codec "counted enc_attribute" parse_attributes wf_attributes
  by unfold_locales
    (simp add: parse_attributes_def wf_attributes_def attributec.counted_dec)

section \<open>Enum variants\<close>

text \<open>The width and the signedness under which the value of a variant is read.\<close>

definition enum_repr :: "nat \<Rightarrow> u32 \<Rightarrow> (nat \<times> bool) option" where
  "enum_repr sz base_type =
     (if base_type = 2 then Some (2, True) else if base_type = 3 then Some (4, True)
      else if base_type = 4 \<or> base_type = 5 then None
      else if base_type = 16 then Some (1, True) else if base_type = 17 then Some (1, False)
      else if base_type = 18 then Some (2, False) else if base_type = 19 then Some (4, False)
      else if base_type = 20 \<or> base_type = 21 then Some (8, True)
      else if sz = 1 then Some (1, False)
      else if sz = 2 \<or> sz = 4 \<or> sz = 8 then Some (sz, True) else None)"

definition wf_enum_value :: "nat \<Rightarrow> u32 \<Rightarrow> i64 \<Rightarrow> bool" where
  "wf_enum_value sz base_type v =
     (case enum_repr sz base_type of
        None \<Rightarrow> False
      | Some (k, sg) \<Rightarrow>
          k \<le> sz \<and> (if sg then - (2 ^ (8 * k - 1)) \<le> sint v \<and> sint v < 2 ^ (8 * k - 1) else uint v < 2 ^ (8 * k)))"

lemma take_le_bytes: "k \<le> n \<Longrightarrow> take k (le_bytes n v) = le_bytes k v"
proof (induction k arbitrary: n v)
  case 0
  then show ?case by simp
next
  case (Suc k)
  then show ?case by (cases n) simp_all
qed

lemma scast_ucast_fits:
  assumes "- (2 ^ (LENGTH('a) - 1)) \<le> sint v" and "sint v < 2 ^ (LENGTH('a) - 1)" and l: "LENGTH('a) \<le> 64"
  shows "(scast (ucast v :: 'a::len word) :: i64) = (v :: i64)"
proof (rule signed_word_eqI)
  have "sint (scast (ucast v :: 'a word) :: i64) = signed_take_bit 63 (signed_take_bit (LENGTH('a) - 1) (uint v))"
    unfolding signed_scast_eq [where 'c = 64 and 'a = int] by (simp add: signed_ucast_eq [where 'a = int])
  also have "\<dots> = signed_take_bit (LENGTH('a) - 1) (uint v)"
    using l by simp
  also have "\<dots> = signed_take_bit (LENGTH('a) - 1) (sint v)"
    using l by (simp add: sint_uint)
  also have "\<dots> = sint v"
    using assms by (simp add: signed_take_bit_int_eq_self)
  finally show "sint (scast (ucast v :: 'a word) :: i64) = sint v" .
qed

lemma le_of_take:
  "2 \<le> n \<Longrightarrow> le_u16 (take 2 (le_bytes n (unat v))) = ucast (v :: i64)"
  "4 \<le> n \<Longrightarrow> le_u32 (take 4 (le_bytes n (unat v))) = ucast v"
  "8 \<le> n \<Longrightarrow> le_u64 (take 8 (le_bytes n (unat v))) = v"
  by (simp_all add: take_le_bytes le_u16_def le_u32_def le_u64_def le_val_le_bytes word_unat_eq_iff unat_of_nat
      unsigned_ucast_eq take_bit_eq_mod unat_lt [where 'a = 64, simplified])

lemma hd_of_take: "1 \<le> n \<Longrightarrow> hd (take (Suc 0) (le_bytes n (unat v))) = ucast (v :: i64)"
  by (cases n) (simp_all add: word_unat_eq_iff unat_of_nat unsigned_ucast_eq take_bit_eq_mod)

lemma ucast_ucast_fits:
  "uint v < 2 ^ LENGTH('a) \<Longrightarrow> LENGTH('a) \<le> 64 \<Longrightarrow> (ucast (ucast v :: 'a::len word) :: i64) = (v :: i64)"
  using uint_lt2p [of v] unfolding word_uint_eq_iff
  by (subst unsigned_ucast_eq, subst unsigned_ucast_eq) (simp add: take_bit_int_eq_self min_def)

lemma enum_readings:
  "1 \<le> n \<Longrightarrow> - 128 \<le> sint v \<Longrightarrow> sint v < 128 \<Longrightarrow>
     rmap (\<lambda>b. scast (hd b) :: i64) (slice_of (le_bytes n (unat v)) 0 1) = Ok v"
  "1 \<le> n \<Longrightarrow> uint v < 256 \<Longrightarrow>
     rmap (\<lambda>b. ucast (hd b) :: i64) (slice_of (le_bytes n (unat v)) 0 1) = Ok v"
  "2 \<le> n \<Longrightarrow> - 32768 \<le> sint v \<Longrightarrow> sint v < 32768 \<Longrightarrow>
     rmap (\<lambda>b. scast (le_u16 b) :: i64) (slice_of (le_bytes n (unat v)) 0 2) = Ok v"
  "2 \<le> n \<Longrightarrow> uint v < 65536 \<Longrightarrow>
     rmap (\<lambda>b. ucast (le_u16 b) :: i64) (slice_of (le_bytes n (unat v)) 0 2) = Ok v"
  "4 \<le> n \<Longrightarrow> - 2147483648 \<le> sint v \<Longrightarrow> sint v < 2147483648 \<Longrightarrow>
     rmap (\<lambda>b. scast (le_u32 b) :: i64) (slice_of (le_bytes n (unat v)) 0 4) = Ok v"
  "4 \<le> n \<Longrightarrow> uint v < 4294967296 \<Longrightarrow>
     rmap (\<lambda>b. ucast (le_u32 b) :: i64) (slice_of (le_bytes n (unat v)) 0 4) = Ok v"
  "8 \<le> n \<Longrightarrow> rmap le_u64 (slice_of (le_bytes n (unat v)) 0 8) = Ok v"
  using scast_ucast_fits [where 'a = 8 and v = v] scast_ucast_fits [where 'a = 16 and v = v]
    scast_ucast_fits [where 'a = 32 and v = v] ucast_ucast_fits [where 'a = 8 and v = v]
    ucast_ucast_fits [where 'a = 16 and v = v] ucast_ucast_fits [where 'a = 32 and v = v]
  by (simp_all add: slice_of_def le_of_take hd_of_take del: hd_take)

text \<open>The value comes back for every integer representation and every value in its range.\<close>

lemma enum_value_enc:
  assumes "wf_enum_value sz base_type v"
  shows "enum_value sz base_type (le_bytes sz (unat v)) = Ok v"
proof -
  obtain k sg where r: "enum_repr sz base_type = Some (k, sg)" and k: "k \<le> sz"
    and v: "if sg then - (2 ^ (8 * k - 1)) \<le> sint v \<and> sint v < 2 ^ (8 * k - 1) else uint v < 2 ^ (8 * k)"
    using assms by (auto simp: wf_enum_value_def split: option.splits)
  show ?thesis
    using r k v
    by (auto simp: enum_repr_def enum_value_def Let_def enum_readings [simplified] simp del: le_bytes.simps
        split: if_splits)
qed

definition enc_enum_info :: "nat \<Rightarrow> enum_info \<Rightarrow> bytes" where
  "enc_enum_info sz e =
     [of_nat (length (ei_name e))] @ enc_str (ei_name e) @ le_bytes sz (unat (ei_value e))"

definition wf_enum_info :: "nat \<Rightarrow> u32 \<Rightarrow> enum_info \<Rightarrow> bool" where
  "wf_enum_info sz base_type e \<longleftrightarrow> wf_str8 (ei_name e) \<and> wf_enum_value sz base_type (ei_value e)"

definition wf_enum_infos :: "nat \<Rightarrow> u32 \<Rightarrow> enum_info list \<Rightarrow> bool" where
  "wf_enum_infos sz base_type es \<longleftrightarrow> list_all (wf_enum_info sz base_type) es \<and> length es < 65536"

interpretation enumc: parser_codec "enc_enum_info sz" "parse_enum_info sz base_type" "wf_enum_info sz base_type"
  for sz base_type
  by unfold_locales
    (simp add: parse_enum_info_def enc_enum_info_def wf_enum_info_def pbind_def wf_str8 enum_value_enc)

interpretation enumsc: parser_codec "counted (enc_enum_info sz)" "parse_enum_infos sz base_type" "wf_enum_infos sz base_type"
  for sz base_type
  by unfold_locales (simp add: parse_enum_infos_def wf_enum_infos_def enumc.counted_dec)

section \<open>RPC methods\<close>

primrec kind_code :: "variable_kind \<Rightarrow> u32" where
  "kind_code Input = 1"
| "kind_code Output = 2"
| "kind_code InOut = 3"
| "kind_code Unknown = 0"

definition param_flags :: "rpc_method_parameter \<Rightarrow> u32" where
  "param_flags m = kind_code (rp_variable_kind m) + (if rp_attributes m = [] then 0 else RPC_PARAM_ATTRIBUTE_FLAG)"

definition enc_param :: "(nat \<Rightarrow> u8) \<Rightarrow> rpc_method_parameter \<Rightarrow> bytes" where
  "enc_param p m =
     u32_le (of_nat (rp_size m)) @ junk p 0 4 @ junk p 4 4 @ u32_le (param_flags m) @ junk p 8 4 @
     junk p 12 16 @ junk p 28 2 @ len16 (rp_name m) @ len16 (rp_typ m) @ len16 (rp_comment m) @
     enc_str (rp_name m) @ enc_str (rp_typ m) @ enc_str (rp_comment m) @
     (if rp_attributes m = [] then [] else counted enc_attribute (rp_attributes m))"

definition wf_param :: "rpc_method_parameter \<Rightarrow> bool" where
  "wf_param m \<longleftrightarrow> rp_size m < 2 ^ 32 \<and> wf_str (rp_name m) \<and> wf_str (rp_typ m) \<and> wf_str (rp_comment m) \<and>
     wf_attributes (rp_attributes m)"

lemma param_flags_kind: "variable_kind_from_flags (param_flags m) = rp_variable_kind m"
  by (cases "rp_variable_kind m")
    (simp_all add: variable_kind_from_flags_def param_flags_def RPC_PARAM_ATTRIBUTE_FLAG_def)

lemma param_flags_attributes: "has_flag (param_flags m) RPC_PARAM_ATTRIBUTE_FLAG \<longleftrightarrow> rp_attributes m \<noteq> []"
  by (cases "rp_variable_kind m") (simp_all add: param_flags_def RPC_PARAM_ATTRIBUTE_FLAG_def)

text \<open>Skipped integers: the reader takes their bytes, whatever they are.\<close>

lemma rd_junk [simp]:
  "rd_u16 c (junk p i 2 @ s) = Ok (le_u16 (junk p i 2), s)"
  "rd_u32 c (junk p i 4 @ s) = Ok (le_u32 (junk p i 4), s)"
  by (simp_all add: rd_u16_def rd_u32_def pbind_def)

interpretation paramc: framed "enc_param p" parse_rpc_method_parameter wf_param for p
proof unfold_locales
  fix m :: rpc_method_parameter
  assume "wf_param m"
  then show "parse_rpc_method_parameter (enc_param p m) = Ok m"
    using attributesc.dec_enc_all [of "rp_attributes m"]
    by (cases "rp_attributes m = []")
      (simp_all add: parse_rpc_method_parameter_def enc_param_def wf_param_def pbind_def
        param_flags_kind param_flags_attributes)
qed

definition enc_method :: "(nat \<Rightarrow> u8) \<Rightarrow> rpc_method \<Rightarrow> bytes" where
  "enc_method p m =
     junk p 0 4 @ junk p 4 4 @ u32_le (of_nat (rm_return_size m)) @ junk p 8 4 @ junk p 12 4 @
     junk p 16 16 @ junk p 32 4 @ u32_le (if rm_attributes m = [] then 0 else RPC_METHOD_ATTRIBUTE_FLAG) @
     len16 (rm_name m) @ len16 (rm_return_type m) @ len16 (rm_comment m) @ len16 (rm_parameters m) @
     enc_str (rm_name m) @ enc_str (rm_return_type m) @ enc_str (rm_comment m) @
     concat (map (\<lambda>x. table_frame (enc_param p x)) (rm_parameters m)) @
     (if rm_attributes m = [] then [] else counted enc_attribute (rm_attributes m))"

definition wf_method :: "(nat \<Rightarrow> u8) \<Rightarrow> rpc_method \<Rightarrow> bool" where
  "wf_method p m \<longleftrightarrow> rm_return_size m < 2 ^ 32 \<and> wf_str (rm_name m) \<and> wf_str (rm_return_type m) \<and>
     wf_str (rm_comment m) \<and> length (rm_parameters m) < 65536 \<and>
     list_all (\<lambda>x. wf_param x \<and> frame_fits (enc_param p x)) (rm_parameters m) \<and> wf_attributes (rm_attributes m)"

interpretation methodc: framed "enc_method p" parse_rpc_method "wf_method p" for p
proof unfold_locales
  fix m :: rpc_method
  assume "wf_method p m"
  then show "parse_rpc_method (enc_method p m) = Ok m"
    using attributesc.dec_enc_all [of "rm_attributes m"]
    by (cases "rm_attributes m = []")
      (simp_all add: parse_rpc_method_def enc_method_def wf_method_def pbind_def RPC_METHOD_ATTRIBUTE_FLAG_def
        paramc.sub_entries [where s = "[]", simplified] paramc.sub_entries)
qed

interpretation methodf: parser_codec "\<lambda>m. table_frame (enc_method p m)"
  "sub_entry c msg parse_rpc_method" "\<lambda>m. wf_method p m \<and> frame_fits (enc_method p m)" for p c msg
  by (simp add: parser_codec_def methodc.sub_entry_codec)

definition enc_methods :: "(nat \<Rightarrow> u8) \<Rightarrow> rpc_method list \<Rightarrow> bytes" where
  "enc_methods p = counted (\<lambda>m. table_frame (enc_method p m))"

definition wf_methods :: "(nat \<Rightarrow> u8) \<Rightarrow> rpc_method list \<Rightarrow> bool" where
  "wf_methods p ms \<longleftrightarrow> list_all (\<lambda>m. wf_method p m \<and> frame_fits (enc_method p m)) ms \<and> length ms < 65536"

interpretation methodsc: parser_codec "enc_methods p" parse_method_infos "wf_methods p" for p
  by unfold_locales (simp add: parse_method_infos_def enc_methods_def wf_methods_def methodf.counted_dec)

section \<open>Types and their fields\<close>

definition enc_dim :: "i32 \<times> i32 \<Rightarrow> bytes" where
  "enc_dim d = u32_le (fst d) @ u32_le (snd d - fst d + 1)"

text \<open>Bounds whose number of elements, and the sums the decoder forms with it, are 32-bit numbers.\<close>

definition wf_dim :: "bool \<Rightarrow> i32 \<times> i32 \<Rightarrow> bool" where
  "wf_dim ovf d \<longleftrightarrow> \<not> ovf \<or>
     (0 \<le> sint (snd d) - sint (fst d) + 1 \<and> sint (snd d) - sint (fst d) + 1 < 2 ^ 31 \<and> sint (snd d) + 1 < 2 ^ 31)"

lemma sint_diff_fits:
  fixes l u :: i32
  assumes "in_i32 (sint u - sint l + 1)"
  shows "sint (u - l + 1) = sint u - sint l + 1"
proof -
  have "u - l + 1 = word_of_int (sint u - sint l + 1)"
    by simp
  then have "sint (u - l + 1) = signed_take_bit (LENGTH(32) - 1) (sint u - sint l + 1)"
    by (simp only: sint_sbintrunc')
  also have "\<dots> = sint u - sint l + 1"
    using assms by (intro signed_take_bit_int_eq_self) (simp_all add: in_i32_def)
  finally show ?thesis .
qed

lemma array_upper_dim: "wf_dim ovf (l, u) \<Longrightarrow> array_upper ovf l (u - l + 1) = Ok u"
  using sint_ge [of u] sint_lt [of u] by (auto simp: array_upper_def wf_dim_def sint_diff_fits in_i32_def)

interpretation dimc: codec enc_dim "decode_array_dim ovf" "wf_dim ovf" for ovf
  by unfold_locales (simp add: decode_array_dim_def enc_dim_def pbind_def array_upper_dim split: prod.splits)

definition enc_head :: "(nat \<Rightarrow> u8) \<Rightarrow> type_head \<Rightarrow> bytes" where
  "enc_head p h =
     u32_le 1 @ junk p 0 8 @ u32_le (of_nat (th_size h)) @ u32_le (th_offset h) @ u32_le (th_base_type h) @
     u32_le (th_flags h) @ len16 (th_name h) @ len16 (th_type_name h) @ len16 (th_comment h) @
     len16 (th_array h) @ u16_le (of_nat (th_sub_items h)) @
     enc_str (th_name h) @ enc_str (th_type_name h) @ enc_str (th_comment h) @
     concat (map enc_dim (th_array h))"

definition wf_head :: "bool \<Rightarrow> type_head \<Rightarrow> bool" where
  "wf_head ovf h \<longleftrightarrow> th_size h < 2 ^ 32 \<and> wf_str (th_name h) \<and> wf_str (th_type_name h) \<and>
     wf_str (th_comment h) \<and> length (th_array h) < 65536 \<and> list_all (wf_dim ovf) (th_array h) \<and>
     th_sub_items h < 65536"

interpretation headc: codec "enc_head p" "decode_type_head ovf" "wf_head ovf" for p ovf
  by unfold_locales (simp add: decode_type_head_def enc_head_def wf_head_def pbind_def dimc.ptimes_enc)

text \<open>An optional part: present exactly when its flag is set.\<close>

definition opt :: "('a \<Rightarrow> bytes) \<Rightarrow> 'a option \<Rightarrow> bytes" where
  "opt enc v = (case v of None \<Rightarrow> [] | Some x \<Rightarrow> enc x)"

definition wf_opt :: "('a \<Rightarrow> bool) \<Rightarrow> bool \<Rightarrow> 'a option \<Rightarrow> bool" where
  "wf_opt ok b v = (case v of None \<Rightarrow> \<not> b | Some x \<Rightarrow> b \<and> ok x)"

context parser_codec
begin

lemma optionally_dec: "wf_opt wf b v \<Longrightarrow> optionally b dec (opt enc v @ s) = Ok (v, s)"
  by (cases v) (simp_all add: wf_opt_def opt_def optionally_def pbind_def dec_enc)

end

lemma optionally_skip:
  "length g = 16 \<Longrightarrow> optionally b parse_guid ((if b then g else []) @ s) = Ok (if b then Some (guid_text g) else None, s)"
  "length m = n \<Longrightarrow> optionally b (skip_copy_mask n) ((if b then m else []) @ s) = Ok (if b then Some () else None, s)"
  by (simp_all add: optionally_def pbind_def parse_guid_def skip_copy_mask_def)

definition field_head :: "field \<Rightarrow> type_head" where
  "field_head f =
     \<lparr>th_size = fd_size f, th_offset = (case fd_offset f of None \<Rightarrow> 0xFFFFFFFF | Some o' \<Rightarrow> o'),
      th_base_type = fd_base_type f, th_flags = fd_flags f, th_sub_items = 0, th_name = fd_name f,
      th_type_name = fd_typ f, th_comment = fd_comment f, th_array = fd_array f\<rparr>"

text \<open>The GUID, the copy mask and the methods of a field are skipped.\<close>

definition enc_field :: "(nat \<Rightarrow> u8) \<Rightarrow> field \<Rightarrow> bytes" where
  "enc_field p f =
     enc_head p (field_head f) @ (if has_flag (fd_flags f) TYPE_FLAG_GUID then junk p 8 16 else []) @
     (if has_flag (fd_flags f) TYPE_FLAG_COPY_MASK then junk p 24 (fd_size f) else []) @
     opt (enc_methods p) (if has_flag (fd_flags f) TYPE_FLAG_METHOD_INFOS then Some [] else None) @
     opt (counted enc_attribute) (fd_attributes f)"

definition wf_field :: "bool \<Rightarrow> field \<Rightarrow> bool" where
  "wf_field ovf f \<longleftrightarrow> wf_head ovf (field_head f) \<and> fd_offset f \<noteq> Some 0xFFFFFFFF \<and>
     wf_opt wf_attributes (has_flag (fd_flags f) TYPE_FLAG_ATTRIBUTES) (fd_attributes f)"

lemma no_methods: "wf_opt (wf_methods p) b (if b then Some [] else None)"
  by (simp add: wf_opt_def wf_methods_def)

lemma decode_field_info_enc:
  "wf_field ovf f \<Longrightarrow> decode_field_info ovf (enc_field p f) = Ok f"
  using attributesc.optionally_dec [of "has_flag (fd_flags f) TYPE_FLAG_ATTRIBUTES" "fd_attributes f" "[]"]
  by (cases "fd_offset f")
    (simp_all add: decode_field_info_def enc_field_def wf_field_def headc.dec_enc pbind_def
      parse_field_attributes_def optionally_skip methodsc.optionally_dec [OF no_methods] field_head_def)

interpretation fieldc: framed "enc_field p" "decode_field_info ovf" "wf_field ovf" for p ovf
  by unfold_locales (rule decode_field_info_enc)

text \<open>
  A type of the table with what its record holds beside it: the offset and the bytes of the GUID,
  and bytes behind the parts the decoder knows.
\<close>

record type_entry =
  te_type :: sym_type
  te_offset :: u32
  te_guid :: bytes
  te_rest :: bytes

definition entry_head :: "type_entry \<Rightarrow> type_head" where
  "entry_head x = (let t = te_type x in
     \<lparr>th_size = ty_size t, th_offset = te_offset x, th_base_type = ty_base_type t, th_flags = ty_flags t,
      th_sub_items = length (ty_fields t), th_name = ty_name t, th_type_name = ty_type_name t,
      th_comment = ty_comment t, th_array = ty_array t\<rparr>)"

definition enc_type :: "(nat \<Rightarrow> u8) \<Rightarrow> type_entry \<Rightarrow> bytes" where
  "enc_type p x = (let t = te_type x in
     enc_head p (entry_head x) @ concat (map (\<lambda>f. table_frame (enc_field p f)) (ty_fields t)) @
     (if has_flag (ty_flags t) TYPE_FLAG_GUID then te_guid x else []) @
     (if has_flag (ty_flags t) TYPE_FLAG_COPY_MASK then junk p 8 (ty_size t) else []) @
     opt (enc_methods p) (ty_methods t) @ opt (counted enc_attribute) (ty_attributes t) @
     opt (counted (enc_enum_info (ty_size t))) (ty_enum_info t) @ te_rest x)"

definition wf_type :: "bool \<Rightarrow> (nat \<Rightarrow> u8) \<Rightarrow> type_entry \<Rightarrow> bool" where
  "wf_type ovf p x \<longleftrightarrow> (let t = te_type x in
     wf_head ovf (entry_head x) \<and> list_all (\<lambda>f. wf_field ovf f \<and> frame_fits (enc_field p f)) (ty_fields t) \<and>
     length (te_guid x) = 16 \<and>
     ty_guid t = (if has_flag (ty_flags t) TYPE_FLAG_GUID then Some (guid_text (te_guid x)) else None) \<and>
     wf_opt (wf_methods p) (has_flag (ty_flags t) TYPE_FLAG_METHOD_INFOS) (ty_methods t) \<and>
     wf_opt wf_attributes (has_flag (ty_flags t) TYPE_FLAG_ATTRIBUTES) (ty_attributes t) \<and>
     wf_opt (wf_enum_infos (ty_size t) (ty_base_type t)) (has_flag (ty_flags t) TYPE_FLAG_ENUM_INFOS)
       (ty_enum_info t) \<and>
     frame_fits (enc_type p x))"

lemma parse_type_flags_enc:
  "wf_type ovf p x \<Longrightarrow> t = te_type x \<Longrightarrow>
     parse_type_flags (t\<lparr>ty_guid := None, ty_methods := None, ty_attributes := None, ty_enum_info := None\<rparr>)
       ((if has_flag (ty_flags t) TYPE_FLAG_GUID then te_guid x else []) @
        (if has_flag (ty_flags t) TYPE_FLAG_COPY_MASK then junk p 8 (ty_size t) else []) @
        opt (enc_methods p) (ty_methods t) @ opt (counted enc_attribute) (ty_attributes t) @
        opt (counted (enc_enum_info (ty_size t))) (ty_enum_info t) @ te_rest x) = Ok (t, te_rest x)"
  by (simp add: wf_type_def Let_def parse_type_flags_def pbind_def optionally_skip
      methodsc.optionally_dec attributesc.optionally_dec enumsc.optionally_dec)

lemma decode_type_info_enc:
  assumes "wf_type ovf p x"
  shows "decode_type_info ovf (enc_type p x) = Ok (te_type x)"
proof -
  define t where t: "t = te_type x"
  define flagged where fl: "flagged =
      (if has_flag (ty_flags t) TYPE_FLAG_GUID then te_guid x else []) @
      (if has_flag (ty_flags t) TYPE_FLAG_COPY_MASK then junk p 8 (ty_size t) else []) @
      opt (enc_methods p) (ty_methods t) @ opt (counted enc_attribute) (ty_attributes t) @
      opt (counted (enc_enum_info (ty_size t))) (ty_enum_info t) @ te_rest x"
  have e: "enc_type p x = enc_head p (entry_head x) @
      concat (map (\<lambda>f. table_frame (enc_field p f)) (ty_fields t)) @ flagged"
    by (simp add: enc_type_def fl t Let_def)
  have h: "wf_head ovf (entry_head x)"
    and fs: "list_all (\<lambda>f. wf_field ovf f \<and> frame_fits (enc_field p f)) (ty_fields t)"
    using assms by (simp_all add: wf_type_def Let_def t)
  have f: "parse_type_flags (t\<lparr>ty_guid := None, ty_methods := None, ty_attributes := None, ty_enum_info := None\<rparr>)
      flagged = Ok (t, te_rest x)"
    unfolding fl by (rule parse_type_flags_enc [OF assms t])
  have r: "\<lparr>ty_name = ty_name t, ty_type_name = ty_type_name t, ty_comment = ty_comment t, ty_size = ty_size t,
      ty_array = ty_array t, ty_fields = ty_fields t, ty_base_type = ty_base_type t, ty_flags = ty_flags t,
      ty_guid = None, ty_methods = None, ty_attributes = None, ty_enum_info = None\<rparr> =
      t\<lparr>ty_guid := None, ty_methods := None, ty_attributes := None, ty_enum_info := None\<rparr>"
    by simp
  have sel: "th_size (entry_head x) = ty_size t" "th_base_type (entry_head x) = ty_base_type t"
    "th_flags (entry_head x) = ty_flags t" "th_sub_items (entry_head x) = length (ty_fields t)"
    "th_name (entry_head x) = ty_name t" "th_type_name (entry_head x) = ty_type_name t"
    "th_comment (entry_head x) = ty_comment t" "th_array (entry_head x) = ty_array t"
    by (simp_all add: entry_head_def t Let_def)
  show ?thesis
    by (simp add: decode_type_info_def e pbind_def headc.dec_enc [OF h] sel fieldc.sub_entries [OF fs] r f
        t [symmetric])
qed

section \<open>The tables\<close>

text \<open>A symbol with the skipped rest of its record (comment, GUID, attributes, extended flags).\<close>

type_synonym symbol_entry = "symbol \<times> bytes"

definition enc_symbol :: "(nat \<Rightarrow> u8) \<Rightarrow> symbol_entry \<Rightarrow> bytes" where
  "enc_symbol p x = (let y = fst x in
     u32_le (sy_ix_group y) @ u32_le (sy_ix_offset y) @ u32_le (of_nat (sy_size y)) @ u32_le (sy_base_type y) @
     u16_le (ucast (sy_flags y)) @ junk p 0 2 @ len16 (sy_name y) @ len16 (sy_typ y) @ junk p 2 2 @
     enc_str (sy_name y) @ enc_str (sy_typ y) @ snd x)"

definition wf_symbol :: "(nat \<Rightarrow> u8) \<Rightarrow> symbol_entry \<Rightarrow> bool" where
  "wf_symbol p x \<longleftrightarrow> (let y = fst x in
     sy_size y < 2 ^ 32 \<and> wf_str (sy_name y) \<and> wf_str (sy_typ y) \<and> unat (sy_flags y) < 65536 \<and>
     frame_fits (enc_symbol p x))"

lemma flags_16: "unat (w :: u32) < 65536 \<Longrightarrow> (ucast (ucast w :: u16) :: u32) = w"
  unfolding word_unat_eq_iff
  by (subst unsigned_ucast_eq, subst unsigned_ucast_eq) (simp add: take_bit_nat_eq_self)

lemma decode_symbol_enc: "wf_symbol p x \<Longrightarrow> decode_symbol (enc_symbol p x) = Ok (fst x)"
  by (simp add: decode_symbol_def enc_symbol_def wf_symbol_def Let_def pbind_def flags_16)

definition enc_symbols :: "(nat \<Rightarrow> u8) \<Rightarrow> symbol_entry list \<Rightarrow> bytes" where
  "enc_symbols p xs = concat (map (\<lambda>x. table_frame (enc_symbol p x)) xs)"

definition enc_types :: "(nat \<Rightarrow> u8) \<Rightarrow> type_entry list \<Rightarrow> bytes" where
  "enc_types p xs = concat (map (\<lambda>x. table_frame (enc_type p x)) xs)"

lemma frame_not_Nil [simp]: "table_frame e \<noteq> []"
  by (metis table_frame_def append_is_Nil_conv length_uN_le(2) list.size(3) zero_neq_numeral)

lemma decode_symbols_enc:
  "list_all (wf_symbol p) xs \<Longrightarrow> decode_symbols (enc_symbols p xs) = Ok (map fst xs)"
proof (induction xs)
  case Nil
  then show ?case by (simp add: enc_symbols_def decode_symbols.simps)
next
  case (Cons x xs)
  then have "frame_fits (enc_symbol p x)" by (simp add: wf_symbol_def Let_def)
  with Cons show ?case
    by (simp add: enc_symbols_def decode_symbols.simps [of "_ @ _"] table_entry_frame decode_symbol_enc)
qed

lemma decode_types_enc:
  "list_all (wf_type ovf p) xs \<Longrightarrow>
     decode_types ovf (enc_types p xs) m = Ok (m ++ map_of (rev (map (\<lambda>x. (ty_name (te_type x), te_type x)) xs)))"
proof (induction xs arbitrary: m)
  case Nil
  then show ?case by (simp add: enc_types_def decode_types.simps)
next
  case (Cons x xs)
  then have "frame_fits (enc_type p x)" by (simp add: wf_type_def Let_def)
  with Cons show ?case
    by (simp add: enc_types_def decode_types.simps [of _ "_ @ _"] table_entry_frame decode_type_info_enc)
qed

section \<open>Results\<close>

text \<open>
  C17. Decoding the uploaded tables gives back every symbol in order and every type under its name
  (the last one of a name wins), with all fields, array bounds, methods, attributes and enum
  variants, whatever the skipped fields and the trailing bytes of the records hold.
\<close>

theorem decode_symbol_info_inverts:
  assumes "list_all (wf_symbol p) ss" and "list_all (wf_type ovf p) ts"
  shows "decode_symbol_info ovf (enc_symbols p ss) (enc_types p ts) =
    Ok (map fst ss, map_of (rev (map (\<lambda>x. (ty_name (te_type x), te_type x)) ts)))"
  by (simp add: decode_symbol_info_def decode_symbols_enc [OF assms(1)] decode_types_enc [OF assms(2)])

definition demo_symbol :: symbol where
  "demo_symbol = \<lparr>sy_name = bytes_of ''MAIN.x'', sy_ix_group = 0x4040, sy_ix_offset = 8, sy_typ = bytes_of ''E'',
     sy_size = 2, sy_base_type = 2, sy_flags = 1\<rparr>"

definition demo_field :: field where
  "demo_field = \<lparr>fd_name = bytes_of ''a'', fd_typ = bytes_of ''INT'', fd_offset = None, fd_size = 6,
     fd_array = [(1, 3)], fd_base_type = 2, fd_flags = 0x1080, fd_comment = [],
     fd_attributes = Some [\<lparr>attr_name = bytes_of ''hide'', attr_value = []\<rparr>]\<rparr>"

definition demo_method :: rpc_method where
  "demo_method = \<lparr>rm_name = bytes_of ''run'', rm_return_type = bytes_of ''BOOL'', rm_return_size = 1,
     rm_comment = [], rm_parameters = [\<lparr>rp_name = bytes_of ''n'', rp_typ = bytes_of ''INT'', rp_size = 2,
       rp_variable_kind = InOut, rp_comment = [], rp_attributes = []\<rparr>], rm_attributes = []\<rparr>"

definition demo_type :: type_entry where
  "demo_type = \<lparr>te_type = \<lparr>ty_name = bytes_of ''E'', ty_type_name = bytes_of ''INT'', ty_comment = [], ty_size = 2,
       ty_array = [], ty_fields = [demo_field], ty_base_type = 2, ty_flags = 0x2880,
       ty_guid = Some (guid_text (replicate 16 7)), ty_methods = Some [demo_method], ty_attributes = None,
       ty_enum_info = Some [\<lparr>ei_name = bytes_of ''off'', ei_value = -1\<rparr>]\<rparr>,
     te_offset = 0, te_guid = replicate 16 7, te_rest = [1, 2]\<rparr>"

lemma wf_bytes_of:
  "length s < 256 \<Longrightarrow> list_all (\<lambda>b. unat b < 128) (bytes_of s) \<Longrightarrow> wf_str8 (bytes_of s)"
  by (simp add: wf_str8_def utf8_valid_ascii) (simp add: bytes_of_def)

lemmas demo_defs = demo_symbol_def demo_field_def demo_method_def demo_type_def

lemma demo_strings:
  "wf_str8 (bytes_of ''MAIN.x'')" "wf_str8 (bytes_of ''E'')" "wf_str8 (bytes_of ''a'')" "wf_str8 (bytes_of ''INT'')"
  "wf_str8 (bytes_of ''hide'')" "wf_str8 (bytes_of ''run'')" "wf_str8 (bytes_of ''BOOL'')" "wf_str8 (bytes_of ''n'')"
  "wf_str8 (bytes_of ''off'')" "wf_str8 []"
  by (rule wf_bytes_of; simp add: bytes_of_def)+ (simp add: wf_str8_def)

lemma length_bytes_of [simp]: "length (bytes_of s) = length s"
  by (simp add: bytes_of_def)

lemma demo_wf: "wf_symbol p (demo_symbol, [9])"
  by (simp add: wf_symbol_def demo_symbol_def demo_strings [THEN wf_str8] enc_symbol_def
      frame_fits_def enc_str_def)

lemma demo_field_wf: "wf_field True demo_field \<and> length (enc_field p demo_field) < 300"
  by (simp add: wf_field_def demo_field_def demo_strings [THEN wf_str8] demo_strings wf_head_def field_head_def wf_opt_def
      wf_attributes_def wf_attribute_def wf_dim_def enc_field_def enc_head_def frame_fits_def opt_def counted_def
      enc_methods_def enc_attribute_def enc_dim_def enc_str_def TYPE_FLAG_GUID_def TYPE_FLAG_COPY_MASK_def
      TYPE_FLAG_METHOD_INFOS_def TYPE_FLAG_ATTRIBUTES_def)

lemma demo_method_wf: "wf_methods p [demo_method] \<and> length (enc_methods p [demo_method]) < 300"
  by (simp add: wf_methods_def demo_method_def demo_strings [THEN wf_str8] wf_method_def wf_param_def enc_method_def
      enc_methods_def counted_def table_frame_def enc_param_def frame_fits_def wf_attributes_def enc_str_def)

lemma demo_enum_wf: "wf_enum_infos 2 2 [\<lparr>ei_name = bytes_of ''off'', ei_value = -1\<rparr>]"
  by (simp add: wf_enum_infos_def wf_enum_info_def demo_strings wf_enum_value_def enum_repr_def)

lemma demo_type_wf: "wf_type True p demo_type"
  using demo_field_wf [of p] demo_method_wf [of p] demo_enum_wf
  by (simp add: wf_type_def demo_type_def Let_def demo_strings [THEN wf_str8] wf_head_def entry_head_def wf_opt_def
      enc_type_def enc_head_def frame_fits_def opt_def counted_def enc_enum_info_def table_frame_def
      enc_str_def TYPE_FLAG_GUID_def TYPE_FLAG_COPY_MASK_def
      TYPE_FLAG_METHOD_INFOS_def TYPE_FLAG_ATTRIBUTES_def TYPE_FLAG_ENUM_INFOS_def)


theorem decode_symbol_info_inverts_witness:
  "decode_symbol_info True (enc_symbols (\<lambda>_. 5) [(demo_symbol, [9])]) (enc_types (\<lambda>_. 5) [demo_type]) =
    Ok ([demo_symbol], [bytes_of ''E'' \<mapsto> te_type demo_type])"
  using decode_symbol_info_inverts [of "\<lambda>_. 5" "[(demo_symbol, [9])]" True "[demo_type]"]
  by (simp add: demo_wf demo_type_wf) (simp add: demo_type_def)

text \<open>What a symbol's record has to hold, and what can be said of the result for any input.\<close>

lemma decode_symbol_not_Panic: "decode_symbol e \<noteq> Panic"
  by (simp add: decode_symbol_def Let_def pbind_eq_Panic)

lemma decode_symbol_min: "decode_symbol e = Ok x \<Longrightarrow> 26 \<le> length e"
  by (auto simp: decode_symbol_def Let_def pbind_eq_Ok dest!: u32c.remaining u16c.remaining)

lemma decode_symbol_utf8: "decode_symbol e = Ok x \<Longrightarrow> utf8_valid (sy_name x) \<and> utf8_valid (sy_typ x)"
  by (auto simp: decode_symbol_def Let_def pbind_eq_Ok dest: read_str_utf8)

lemma table_entry_Ok: "table_entry c s = Ok (e, t) \<longleftrightarrow> s = table_frame e @ t \<and> frame_fits e"
proof
  assume "table_entry c s = Ok (e, t)"
  then have n: "\<not> unat (le_u32 (take 4 s)) < 4" and l: "unat (le_u32 (take 4 s)) \<le> length s"
    and e: "e = take (unat (le_u32 (take 4 s)) - 4) (drop 4 s)" "t = drop (unat (le_u32 (take 4 s)) - 4) (drop 4 s)"
    by (auto simp: table_entry_def pbind_eq_Ok rd_u32_if psplit_def split_at_def split: if_splits)
  from n l e(1) have "4 + length e = unat (le_u32 (take 4 s))" by simp
  then have "u32_le (of_nat (4 + length e)) = take 4 s" and "frame_fits e"
    using n l unat_lt [of "le_u32 (take 4 s)"] by (simp_all add: u32_le_le_u32 frame_fits_def del: of_nat_add)
  moreover have "e @ t = drop 4 s" unfolding e by (rule append_take_drop_id)
  ultimately show "s = table_frame e @ t \<and> frame_fits e"
    unfolding table_frame_def by (metis append_assoc append_take_drop_id)
qed (auto simp: table_entry_frame)

lemma table_entry_Panic:
  "table_entry c s = Panic \<longleftrightarrow>
     4 \<le> length s \<and> (unat (le_u32 (take 4 s)) < 4 \<or> length s < unat (le_u32 (take 4 s)))"
  by (auto simp: table_entry_def pbind_eq_Panic rd_u32_if psplit_def split_at_def)

lemma decode_symbols_Ok_facts:
  "decode_symbols s = Ok xs \<Longrightarrow>
     30 * length xs \<le> length s \<and> list_all (\<lambda>x. utf8_valid (sy_name x) \<and> utf8_valid (sy_typ x)) xs"
proof (induction s arbitrary: xs rule: decode_symbols.induct)
  case (1 s)
  show ?case
  proof (cases "s = []")
    case True
    with "1.prems" show ?thesis by (simp add: decode_symbols.simps)
  next
    case False
    with "1.prems" obtain e rest x ys where te: "table_entry ''decoding symbol info'' s = Ok (e, rest)"
      and x: "decode_symbol e = Ok x" and ys: "decode_symbols rest = Ok ys" and xs: "xs = x # ys"
      by (subst (asm) decode_symbols.simps) auto
    have "30 * length ys \<le> length rest \<and> list_all (\<lambda>x. utf8_valid (sy_name x) \<and> utf8_valid (sy_typ x)) ys"
      by (rule "1.IH" [OF False te refl x ys])
    moreover have "length s = 4 + length e + length rest"
      using te by (auto simp: table_entry_Ok table_frame_def)
    ultimately show ?thesis
      using decode_symbol_min [OF x] decode_symbol_utf8 [OF x] by (simp add: xs)
  qed
qed

section \<open>The texts of a table\<close>

text \<open>Every text of a symbol, of a type and of all its parts is valid UTF-8.\<close>

definition symbol_texts_ok :: "symbol \<Rightarrow> bool" where
  "symbol_texts_ok x \<longleftrightarrow> utf8_valid (sy_name x) \<and> utf8_valid (sy_typ x)"

definition attribute_texts_ok :: "attribute \<Rightarrow> bool" where
  "attribute_texts_ok a \<longleftrightarrow> utf8_valid (attr_name a) \<and> utf8_valid (attr_value a)"

definition enum_texts_ok :: "enum_info \<Rightarrow> bool" where
  "enum_texts_ok x \<longleftrightarrow> utf8_valid (ei_name x)"

definition param_texts_ok :: "rpc_method_parameter \<Rightarrow> bool" where
  "param_texts_ok x \<longleftrightarrow> utf8_valid (rp_name x) \<and> utf8_valid (rp_typ x) \<and> utf8_valid (rp_comment x) \<and>
     list_all attribute_texts_ok (rp_attributes x)"

definition method_texts_ok :: "rpc_method \<Rightarrow> bool" where
  "method_texts_ok x \<longleftrightarrow> utf8_valid (rm_name x) \<and> utf8_valid (rm_return_type x) \<and> utf8_valid (rm_comment x) \<and>
     list_all param_texts_ok (rm_parameters x) \<and> list_all attribute_texts_ok (rm_attributes x)"

definition field_texts_ok :: "field \<Rightarrow> bool" where
  "field_texts_ok f \<longleftrightarrow> utf8_valid (fd_name f) \<and> utf8_valid (fd_typ f) \<and> utf8_valid (fd_comment f) \<and>
     pred_option (list_all attribute_texts_ok) (fd_attributes f)"

definition type_texts_ok :: "sym_type \<Rightarrow> bool" where
  "type_texts_ok t \<longleftrightarrow> utf8_valid (ty_name t) \<and> utf8_valid (ty_type_name t) \<and> utf8_valid (ty_comment t) \<and>
     list_all field_texts_ok (ty_fields t) \<and> pred_option utf8_valid (ty_guid t) \<and>
     pred_option (list_all method_texts_ok) (ty_methods t) \<and>
     pred_option (list_all attribute_texts_ok) (ty_attributes t) \<and>
     pred_option (list_all enum_texts_ok) (ty_enum_info t)"

lemmas texts_ok_defs = attribute_texts_ok_def enum_texts_ok_def param_texts_ok_def method_texts_ok_def
  field_texts_ok_def type_texts_ok_def

text \<open>Whatever a decoder returns has a property.\<close>

definition yields :: "('a \<Rightarrow> bool) \<Rightarrow> 'a parser \<Rightarrow> bool" where
  "yields P p \<longleftrightarrow> (\<forall>s x t. p s = Ok (x, t) \<longrightarrow> P x)"

lemma yieldsD: "yields P p \<Longrightarrow> p s = Ok (x, t) \<Longrightarrow> P x"
  unfolding yields_def by blast

lemma yields_ret: "P x \<Longrightarrow> yields P (pret x)"
  by (simp add: yields_def)

lemma yields_bind: "yields Q p \<Longrightarrow> (\<And>x. Q x \<Longrightarrow> yields P (f x)) \<Longrightarrow> yields P (pbind p f)"
  unfolding yields_def pbind_eq_Ok by blast

lemma yields_skip: "(\<And>x. yields P (f x)) \<Longrightarrow> yields P (pbind p f)"
  unfolding yields_def pbind_eq_Ok by blast

lemma yields_fail: "yields P (pfail e)"
  by (simp add: yields_def)

lemma yields_str: "yields utf8_valid (read_str n)"
  using read_str_utf8 by (auto simp: yields_def)

lemma yields_times: "yields P p \<Longrightarrow> yields (list_all P) (ptimes n p)"
proof (induction n)
  case (Suc n)
  show ?case unfolding ptimes.simps
    by (rule yields_bind [OF Suc.prems], rule yields_bind [OF Suc.IH [OF Suc.prems]]) (simp add: yields_ret)
qed (simp add: yields_ret)

lemma yields_optionally: "yields P p \<Longrightarrow> yields (pred_option P) (optionally b p)"
  unfolding optionally_def by (auto intro!: yields_ret elim!: yields_bind)

lemma yields_if_flag: "yields (list_all P) p \<Longrightarrow> yields (list_all P) (if b then p else pret [])"
  by (simp add: yields_ret)

lemma yields_sub_entry: "(\<And>d x. f d = Ok x \<Longrightarrow> P x) \<Longrightarrow> yields P (sub_entry c m f)"
  by (auto simp: yields_def sub_entry_def pbind_eq_Ok plift_def split: if_splits)

lemma yields_run: "yields P p \<Longrightarrow> rmap fst (p s) = Ok x \<Longrightarrow> P x"
  by (cases "p s") (auto dest: yieldsD)

lemma yields_if: "yields P p \<Longrightarrow> yields P q \<Longrightarrow> yields P (if b then p else q)"
  by simp

text \<open>
  A sequence of readers: a text, or a part with texts of its own, is kept with its property; what
  else is read in between is passed over.
\<close>

lemma yields_attribute: "yields attribute_texts_ok parse_attribute"
  unfolding parse_attribute_def
  by (rule yields_bind [OF yields_str] yields_skip)+ (simp add: yields_ret attribute_texts_ok_def)

lemma yields_attributes: "yields (list_all attribute_texts_ok) parse_attributes"
  unfolding parse_attributes_def by (intro yields_skip yields_times yields_attribute)

lemma yields_enum_info: "yields enum_texts_ok (parse_enum_info sz bt)"
  unfolding parse_enum_info_def
  by (rule yields_bind [OF yields_str] yields_skip)+ (simp add: yields_ret enum_texts_ok_def)

lemma param_texts: "parse_rpc_method_parameter data = Ok x \<Longrightarrow> param_texts_ok x"
  unfolding parse_rpc_method_parameter_def Let_def
  by (erule yields_run [rotated], (rule yields_bind [OF yields_str] yields_bind [OF yields_if_flag [OF yields_attributes]] yields_skip)+, rule yields_ret)
    (simp add: param_texts_ok_def)

lemma yields_param: "yields param_texts_ok (sub_entry c m parse_rpc_method_parameter)"
  by (rule yields_sub_entry) (rule param_texts)

lemma method_texts: "parse_rpc_method data = Ok x \<Longrightarrow> method_texts_ok x"
  unfolding parse_rpc_method_def Let_def
  by (erule yields_run [rotated], (rule yields_bind [OF yields_str] yields_bind [OF yields_if_flag [OF yields_attributes]]
        yields_bind [OF yields_times [OF yields_param]] yields_skip)+, rule yields_ret)
    (simp add: method_texts_ok_def)

lemma yields_methods: "yields (list_all method_texts_ok) parse_method_infos"
  unfolding parse_method_infos_def by (intro yields_skip yields_times yields_sub_entry method_texts)

lemma hex_pad_ascii: "list_all (\<lambda>b. unat b < 128) (hex_pad k n)"
proof (induction k arbitrary: n)
  case (Suc k)
  have "unat (if d < 10 then of_nat (48 + d) else of_nat (87 + d) :: u8) < 128" if "d < 16" for d
    using that unat_of_nat_u8 [of "48 + d"] unat_of_nat_u8 [of "87 + d"] by auto
  from this [of "n mod 16"] Suc show ?case by (simp add: Let_def)
qed simp

lemma guid_text_utf8: "utf8_valid (guid_text g)"
proof (rule utf8_valid_ascii)
  have "list_all (\<lambda>b. unat b < 128) (concat (map (\<lambda>b. hex_pad 2 (unat b)) bs))" for bs :: bytes
    by (induction bs) (simp_all add: hex_pad_ascii del: hex_pad.simps)
  then show "list_all (\<lambda>b. unat b < 128) (guid_text g)"
    by (simp add: guid_text_def hex_pad_ascii del: hex_pad.simps)
qed

lemma yields_guid: "yields utf8_valid parse_guid"
  unfolding parse_guid_def by (intro yields_skip yields_ret guid_text_utf8)

lemma yields_field_attributes: "yields (pred_option (list_all attribute_texts_ok)) (parse_field_attributes flags sz)"
  unfolding parse_field_attributes_def by (intro yields_skip yields_optionally yields_attributes)

lemma yields_head:
  "yields (\<lambda>h. utf8_valid (th_name h) \<and> utf8_valid (th_type_name h) \<and> utf8_valid (th_comment h)) (decode_type_head ovf)"
  unfolding decode_type_head_def
  by (rule yields_bind [OF yields_str] yields_skip yields_if yields_fail)+ (simp add: yields_ret)

lemma field_texts: "decode_field_info ovf data = Ok x \<Longrightarrow> field_texts_ok x"
  unfolding decode_field_info_def
  by (erule yields_run [rotated], (rule yields_bind [OF yields_head] yields_bind [OF yields_field_attributes])+, rule yields_ret)
    (simp add: field_texts_ok_def)

lemma yields_fields: "yields field_texts_ok (sub_entry c m (decode_field_info ovf))"
  by (rule yields_sub_entry) (rule field_texts)

lemma yields_type_flags:
  assumes "type_texts_ok t"
  shows "yields type_texts_ok (parse_type_flags t)"
  unfolding parse_type_flags_def parse_enum_infos_def
  by (rule yields_bind [OF yields_optionally [OF yields_guid]] yields_bind [OF yields_optionally [OF yields_methods]]
      yields_bind [OF yields_optionally [OF yields_attributes]]
      yields_bind [OF yields_optionally [OF yields_skip [OF yields_times [OF yields_enum_info]]]] yields_skip)+
    (use assms in \<open>simp add: yields_ret type_texts_ok_def\<close>)

lemma type_texts: "decode_type_info ovf data = Ok x \<Longrightarrow> type_texts_ok x"
  unfolding decode_type_info_def
  by (erule yields_run [rotated], (rule yields_bind [OF yields_head] yields_bind [OF yields_times [OF yields_fields]])+, rule yields_type_flags)
    (simp add: type_texts_ok_def)

definition named_types :: "type_map \<Rightarrow> bool" where
  "named_types m \<longleftrightarrow> (\<forall>n t. m n = Some t \<longrightarrow> ty_name t = n \<and> type_texts_ok t)"

lemma decode_types_named: "decode_types ovf s m = Ok m' \<Longrightarrow> named_types m \<Longrightarrow> named_types m'"
proof (induction ovf s m arbitrary: m' rule: decode_types.induct)
  case (1 ovf s m)
  show ?case
  proof (cases "s = []")
    case True
    with "1.prems" show ?thesis by (simp add: decode_types.simps)
  next
    case False
    with "1.prems"(1) obtain e rest t where te: "table_entry type_ctx s = Ok (e, rest)"
      and t: "decode_type_info ovf e = Ok t" and m': "decode_types ovf rest (m(ty_name t \<mapsto> t)) = Ok m'"
      by (subst (asm) decode_types.simps) auto
    have "named_types (m(ty_name t \<mapsto> t))"
      using "1.prems"(2) type_texts [OF t] by (simp add: named_types_def)
    then show ?thesis by (rule "1.IH" [OF False te refl t m'])
  qed
qed

text \<open>
  C37. Whatever the device sends, a decoded table has at most one symbol per 30 bytes, every type
  stands under its own name, and every text in it is valid UTF-8: names and types of symbols and, for each
  type, its names, comment and GUID and all texts of its fields, methods, parameters, enum variants and
  attributes.
\<close>

theorem decode_symbol_info_sane:
  assumes "decode_symbol_info ovf symbol_data type_data = Ok (syms, tm)"
  shows "30 * length syms \<le> length symbol_data \<and> list_all symbol_texts_ok syms \<and>
    (\<forall>n t. tm n = Some t \<longrightarrow> ty_name t = n \<and> type_texts_ok t)"
proof -
  from assms have s: "decode_symbols symbol_data = Ok syms" and t: "decode_types ovf type_data Map.empty = Ok tm"
    by (auto simp: decode_symbol_info_def)
  have "named_types tm" by (rule decode_types_named [OF t]) (simp add: named_types_def)
  with decode_symbols_Ok_facts [OF s] show ?thesis by (simp add: named_types_def symbol_texts_ok_def [abs_def])
qed

lemma demo_wf_bare: "wf_symbol p (demo_symbol, [])"
  by (simp add: wf_symbol_def demo_symbol_def demo_strings [THEN wf_str8] enc_symbol_def frame_fits_def enc_str_def)

theorem decode_symbol_info_sane_witness:
  "\<exists>tm. decode_symbol_info True (enc_symbols (\<lambda>_. 0) [(demo_symbol, [])]) (enc_types (\<lambda>_. 5) [demo_type]) =
      Ok ([demo_symbol], tm) \<and>
    30 * length [demo_symbol] \<le> length (enc_symbols (\<lambda>_. 0) [(demo_symbol, [])]) \<and>
    list_all symbol_texts_ok [demo_symbol] \<and> tm (bytes_of ''E'') = Some (te_type demo_type) \<and> type_texts_ok (te_type demo_type)"
proof -
  have ok: "decode_symbol_info True (enc_symbols (\<lambda>_. 0) [(demo_symbol, [])]) (enc_types (\<lambda>_. 5) [demo_type]) =
      Ok ([demo_symbol], [bytes_of ''E'' \<mapsto> te_type demo_type])"
    using decode_types_enc [of True "\<lambda>_. 5" "[demo_type]"]
    by (simp add: decode_symbol_info_def decode_symbols_enc demo_wf_bare demo_type_wf) (simp add: demo_type_def)
  from decode_symbol_info_sane [OF ok] ok show ?thesis by simp
qed

definition corrupt_frame :: "bytes \<Rightarrow> bool" where
  "corrupt_frame t \<longleftrightarrow>
     4 \<le> length t \<and> (unat (le_u32 (take 4 t)) < 4 \<or> length t < unat (le_u32 (take 4 t)))"

lemma decode_symbols_panic_split:
  "decode_symbols s = Panic \<Longrightarrow>
     \<exists>es t. s = concat (map table_frame es) @ t \<and> list_all (\<lambda>e. frame_fits e \<and> is_ok (decode_symbol e)) es \<and>
       corrupt_frame t"
proof (induction s rule: decode_symbols.induct)
  case (1 s)
  then have ne: "s \<noteq> []" by (auto simp: decode_symbols.simps)
  show ?case
  proof (cases "table_entry ''decoding symbol info'' s")
    case Panic
    then show ?thesis
      by (intro exI [of _ "[]"] exI [of _ s]) (simp add: table_entry_Panic corrupt_frame_def)
  next
    case (Err e)
    with "1.prems" ne show ?thesis by (simp add: decode_symbols.simps [of s])
  next
    case (Ok p)
    obtain e rest where p: "p = (e, rest)" by (cases p)
    with "1.prems" ne Ok obtain x where x: "decode_symbol e = Ok x" and r: "decode_symbols rest = Panic"
      by (auto simp: decode_symbols.simps [of s] decode_symbol_not_Panic)
    obtain es t where "rest = concat (map table_frame es) @ t"
      "list_all (\<lambda>e. frame_fits e \<and> is_ok (decode_symbol e)) es" "corrupt_frame t"
      using "1.IH" [OF ne Ok p [symmetric] x r] by blast
    then show ?thesis
      using Ok x p by (intro exI [of _ "e # es"] exI [of _ t]) (simp add: table_entry_Ok)
  qed
qed

lemma decode_symbols_corrupt:
  "list_all (\<lambda>e. frame_fits e \<and> is_ok (decode_symbol e)) es \<Longrightarrow> corrupt_frame t \<Longrightarrow>
     decode_symbols (concat (map table_frame es) @ t) = Panic"
proof (induction es)
  case Nil
  then have "t \<noteq> []" by (auto simp: corrupt_frame_def)
  with Nil show ?case
    using table_entry_Panic [of "''decoding symbol info''" t] by (simp add: decode_symbols.simps corrupt_frame_def)
next
  case (Cons e es)
  then show ?case
    by (auto simp: decode_symbols.simps [of "_ @ _"] table_entry_frame is_ok_iff)
qed

text \<open>
  The decoder of the symbol table panics exactly on a corrupt frame behind entries it could
  decode: a length below four or beyond the end of the data. No record makes it panic.
\<close>

theorem decode_symbols_panic_iff:
  "decode_symbols s = Panic \<longleftrightarrow>
     (\<exists>es t. s = concat (map table_frame es) @ t \<and> list_all (\<lambda>e. frame_fits e \<and> is_ok (decode_symbol e)) es \<and>
        corrupt_frame t)"
  using decode_symbols_panic_split decode_symbols_corrupt by blast

section \<open>Queries\<close>

lemma read_exact_served:
  assumes "comm Read addr [index_length_bytes \<lparr>index_group = grp, index_offset = ofs, il_length = of_nat (length d)\<rparr>]
      [u32_le 0, data] s = (Ok (k, [u32_le (of_nat (length d)), d]), s')"
    and "length d = length data" and "length data < 2 ^ 32"
  shows "read_exact comm addr grp ofs data s = (Ok d, s')"
  using assms by (simp add: read_exact_def dev_read_def ibind_def try_u32_def)

text \<open>The block of sizes that precedes an upload.\<close>

definition upload_info :: "(nat \<Rightarrow> u8) \<Rightarrow> nat \<Rightarrow> nat \<Rightarrow> bytes" where
  "upload_info p symbol_len types_len =
     junk p 0 4 @ u32_le (of_nat symbol_len) @ junk p 4 4 @ u32_le (of_nat types_len) @ junk p 8 48"

definition upload_request :: "u32 \<Rightarrow> nat \<Rightarrow> bytes list" where
  "upload_request grp n = [index_length_bytes \<lparr>index_group = grp, index_offset = 0, il_length = of_nat n\<rparr>]"

text \<open>
  C22. \<open>get_symbol_info\<close> reads the sizes, then both tables with buffers of exactly these sizes, types
  first, and returns the device's symbols and types.
\<close>

theorem get_symbol_info_uploads:
  assumes "list_all (wf_symbol p) ss" and "list_all (wf_type ovf p) ts"
    and "sd = enc_symbols p ss" and "td = enc_types p ts" and "length sd < 2 ^ 32" and "length td < 2 ^ 32"
    and "comm Read addr (upload_request SYM_UPLOAD_INFO2 64) [u32_le 0, replicate 64 0] s =
      (Ok (k, [u32_le 64, upload_info p (length sd) (length td)]), s1)"
    and "comm Read addr (upload_request SYM_DT_UPLOAD (length td)) [u32_le 0, replicate (length td) 0] s1 =
      (Ok (k1, [u32_le (of_nat (length td)), td]), s2)"
    and "comm Read addr (upload_request SYM_UPLOAD (length sd)) [u32_le 0, replicate (length sd) 0] s2 =
      (Ok (k2, [u32_le (of_nat (length sd)), sd]), s3)"
  shows "get_symbol_info ovf comm addr s =
    (Ok (map fst ss, map_of (rev (map (\<lambda>x. (ty_name (te_type x), te_type x)) ts))), s3)"
proof -
  let ?info = "upload_info p (length sd) (length td)"
  have "read_exact comm addr SYM_UPLOAD_INFO2 0 (replicate 64 0) s = (Ok ?info, s1)"
    using assms(7) by (intro read_exact_served) (simp_all add: upload_request_def upload_info_def)
  moreover have "unat (le_u32 (take 4 (drop 4 ?info))) = length sd" "unat (le_u32 (take 4 (drop 12 ?info))) = length td"
    using assms(5,6) by (simp_all add: upload_info_def)
  moreover have "read_exact comm addr SYM_DT_UPLOAD 0 (replicate (length td) 0) s1 = (Ok td, s2)"
    using assms(6,8) by (intro read_exact_served) (simp_all add: upload_request_def)
  moreover have "read_exact comm addr SYM_UPLOAD 0 (replicate (length sd) 0) s2 = (Ok sd, s3)"
    using assms(5,9) by (intro read_exact_served) (simp_all add: upload_request_def)
  moreover have "decode_symbol_info ovf sd td =
      Ok (map fst ss, map_of (rev (map (\<lambda>x. (ty_name (te_type x), te_type x)) ts)))"
    by (simp add: decode_symbol_info_def assms(3,4) decode_symbols_enc [OF assms(1)] decode_types_enc [OF assms(2)])
  ultimately show ?thesis by (simp add: get_symbol_info_def ibind_def)
qed

definition demo_uploads :: "bytes list" where
  "demo_uploads = (let sd = enc_symbols (\<lambda>_. 5) [(demo_symbol, [9])] in
     [upload_info (\<lambda>_. 5) (length sd) 0, [], sd])"

lemma demo_symbols_length: "length (enc_symbols p [(demo_symbol, [9])]) = 40"
  by (simp add: enc_symbols_def table_frame_def enc_symbol_def demo_symbol_def enc_str_def)

theorem get_symbol_info_uploads_witness:
  "get_symbol_info True scripted demo_addr (demo_client, demo_uploads) =
     (Ok ([demo_symbol], Map.empty), (demo_client, []))"
  using get_symbol_info_uploads [of "\<lambda>_. 5" "[(demo_symbol, [9])]" True "[]" _ _ scripted demo_addr
      "(demo_client, demo_uploads)" 0 _ 0 _ 0, OF _ _ refl refl]
  by (simp add: demo_wf scripted_def demo_uploads_def Let_def enc_types_def upload_info_def demo_symbols_length)

text \<open>
  A query for a single type returns the type of the device's answer; behind the entry the
  answer may hold anything.
\<close>

theorem type_query_returns_type:
  assumes "wf_type ovf p x" and "length (table_frame (enc_type p x)) \<le> n"
    and "write_read comm addr GET_TYPEINFO_BYNAME_EX 0 name (replicate 4096 0) s = (Ok (n, buf), s')"
    and "buf = table_frame (enc_type p x) @ rest" and "n \<le> length buf"
  shows "get_type_info_by_name ovf comm addr name s = (Ok (te_type x), s')"
proof -
  let ?e = "enc_type p x"
  have f: "frame_fits ?e" using assms(1) by (simp add: wf_type_def Let_def)
  have l: "4 + length ?e \<le> n" using assms(2) by (simp add: table_frame_def)
  obtain d where d: "d = take n buf" by simp
  then have sl: "(slice_of buf 0 n :: bytes res) = Ok d" and ld: "length d = n"
    using assms(5) by (simp_all add: slice_of_def)
  have "take 4 d = u32_le (of_nat (4 + length ?e))"
    using l by (simp add: d assms(4) table_frame_def del: of_nat_add)
  then have k: "unat (le_u32 (take 4 d)) = 4 + length ?e"
    using unat_fits [OF f] by (simp del: of_nat_add)
  have "take (length ?e) (drop 4 d) = ?e"
    using l by (simp add: d assms(4) table_frame_def drop_take min_def)
  then have "(slice_of d 4 (4 + length ?e) :: bytes res) = Ok ?e"
    using l ld by (simp add: slice_of_def)
  with k l show ?thesis
    using assms(3) decode_type_info_enc [OF assms(1)]
    by (simp add: get_type_info_by_name_def ibind_def Let_def min_def sl ld)
qed

lemma demo_type_length:
  "unat (of_nat (length (table_frame (enc_type p demo_type))) :: u32) = length (table_frame (enc_type p demo_type))"
  using demo_type_wf [of p]
  by (intro unat_of_nat_lt) (simp add: wf_type_def Let_def table_frame_def frame_fits_def)

theorem type_query_returns_type_witness:
  "get_type_info_by_name True scripted demo_addr (bytes_of ''E'')
     (demo_client, [table_frame (enc_type (\<lambda>_. 5) demo_type)]) = (Ok (te_type demo_type), (demo_client, []))"
  by (rule type_query_returns_type [OF demo_type_wf order_refl, where rest = "[]" and p = "\<lambda>_. 5",
        OF _ append_Nil2 [symmetric]])
    (simp_all add: write_read_def ibind_def try_u32_def scripted_def demo_type_length)

text \<open>
  A query for a single type panics when the device reports more data than the buffer of 4096
  bytes holds, or an entry length below four.
\<close>

theorem type_query_panics:
  assumes "write_read comm addr GET_TYPEINFO_BYNAME_EX 0 name (replicate 4096 0) s = (Ok (n, buf), s')"
    and "length buf < n \<or> 4 \<le> n \<and> unat (le_u32 (take 4 buf)) < 4"
  shows "get_type_info_by_name ovf comm addr name s = (Panic, s')"
  using assms by (auto simp: get_type_info_by_name_def ibind_def slice_of_def Let_def min_def)

theorem type_query_panics_witness:
  "get_type_info_by_name True scripted demo_addr (bytes_of ''E'') (demo_client, [u32_le 3]) =
     (Panic, (demo_client, []))"
  by (rule type_query_panics [of scripted _ _ _ 4 "u32_le 3"])
    (simp_all add: write_read_def ibind_def try_u32_def scripted_def bytes_of_def)

end
