(* ===== verification/Ads_Task_Info.thy ===== *)
theory Ads_Task_Info
  imports Ads_Symbol
begin

text \<open>
  Task telemetry (\<open>src/task_info.rs\<close>): validation of the layout of a task entry against the type
  of the symbol table, the reader built from it, and the decoding of a sample. \<open>usize\<close> has 64
  bits. The fraction \<open>utilisation\<close> is in \<open>Ads_Utilisation\<close>.
\<close>

section \<open>Constants and data\<close>

definition TASK_PREFIX_SIZE :: nat where "TASK_PREFIX_SIZE = 32"
definition TASK_NAME_SIZE :: nat where "TASK_NAME_SIZE = 64"
definition APP_INFO_TASK_COUNT_SIZE :: nat where "APP_INFO_TASK_COUNT_SIZE = 8"
definition APP_INFO_TASK_COUNT_OFFSET :: nat where "APP_INFO_TASK_COUNT_OFFSET = 4"
definition TICK_NANOS :: nat where "TICK_NANOS = 100"
definition MAX_TASK_INFO_SIZE :: nat where "MAX_TASK_INFO_SIZE = 16 * 1024 * 1024"

record task_info_location =
  tl_index_group :: u32
  tl_index_offset :: u32
  tl_size :: nat

record task_info_layout =
  entry_size :: nat
  task_name_offset :: "nat option"

text \<open>Durations are counted in nanoseconds.\<close>

record plc_task_system_info =
  ti_index :: i32
  ti_object_id :: u32
  ti_ads_port :: u16
  ti_priority :: u16
  ti_cycle_time :: nat
  ti_last_exec_time :: nat
  ti_dc_task_time :: i64
  ti_cycle_count :: u32
  ti_first_cycle :: bool
  ti_cycle_time_exceeded :: bool
  ti_in_call_after_output_update :: bool
  ti_rt_violation :: bool
  ti_name :: "rstring option"

datatype reported_task_count = Available u32 | Unavailable error

record plc_task_info_snapshot =
  reported_task_count :: "reported_task_count option"
  tasks :: "plc_task_system_info list"

record task_info_reader =
  tr_target :: ams_addr
  tr_symbol_generation :: u64
  tr_task_info :: task_info_location
  tr_app_info :: "task_info_location option"
  tr_layout :: task_info_layout
  tr_first_index :: i32

section \<open>Checked arithmetic\<close>

definition checked_i32 :: "int \<Rightarrow> int option" where
  "checked_i32 x = (if in_i32 x then Some x else None)"

definition checked_usize :: "nat \<Rightarrow> nat option" where
  "checked_usize n = (if n < 2 ^ 64 then Some n else None)"

section \<open>The layout of an entry\<close>

definition required_fields :: "(rstring \<times> u32 \<times> nat \<times> u32) list" where
  "required_fields =
    [(bytes_of ''ObjId'', 0, 4, 19),
     (bytes_of ''CycleTime'', 4, 4, 19),
     (bytes_of ''Priority'', 8, 2, 18),
     (bytes_of ''AdsPort'', 10, 2, 18),
     (bytes_of ''CycleCount'', 12, 4, 19),
     (bytes_of ''DcTaskTime'', 16, 8, 20),
     (bytes_of ''LastExecTime'', 24, 4, 19),
     (bytes_of ''FirstCycle'', 28, 1, 33),
     (bytes_of ''CycleTimeExceeded'', 29, 1, 33),
     (bytes_of ''InCallAfterOutputUpdate'', 30, 1, 33),
     (bytes_of ''RTViolation'', 31, 1, 33)]"

primrec check_required :: "field list \<Rightarrow> (rstring \<times> u32 \<times> nat \<times> u32) list \<Rightarrow> unit res" where
  "check_required fs [] = Ok ()"
| "check_required fs (r # rs) = (case r of (name, offset, sz, base_type) \<Rightarrow>
     (case find (\<lambda>f. fd_name f = name) fs of
        None \<Rightarrow> Err (TaskInfoLayoutError ''a required task field is missing'')
      | Some f \<Rightarrow>
          if fd_offset f \<noteq> Some offset \<or> fd_size f \<noteq> sz \<or> fd_base_type f \<noteq> base_type \<or> fd_array f \<noteq> []
          then Err (TaskInfoLayoutError ''a required task field has an unsupported type, size, or offset'')
          else check_required fs rs))"

definition task_name_field_ok :: "nat \<Rightarrow> field \<Rightarrow> bool" where
  "task_name_field_ok entry_sz f \<longleftrightarrow>
     (case fd_offset f of
        None \<Rightarrow> False
      | Some ofs \<Rightarrow>
          unat ofs \<ge> TASK_PREFIX_SIZE \<and>
          (case checked_usize (unat ofs + TASK_NAME_SIZE) of None \<Rightarrow> False | Some e \<Rightarrow> e \<le> entry_sz)) \<and>
     fd_size f = TASK_NAME_SIZE \<and> fd_base_type f = 30 \<and> fd_array f = []"

definition from_entry_type :: "sym_type \<Rightarrow> task_info_layout res" where
  "from_entry_type entry =
     (if ty_size entry < TASK_PREFIX_SIZE
      then Err (TaskInfoLayoutError ''task entry is shorter than documented prefix'')
      else rbind (check_required (ty_fields entry) required_fields) (\<lambda>_.
        rbind (case find (\<lambda>f. fd_name f = bytes_of ''TaskName'') (ty_fields entry) of
                 Some f \<Rightarrow>
                   (if task_name_field_ok (ty_size entry) f then Ok (map_option unat (fd_offset f))
                    else Err (TaskInfoLayoutError ''TaskName has an unsupported type, size, or offset''))
               | None \<Rightarrow> Ok None) (\<lambda>ofs.
        Ok \<lparr>entry_size = ty_size entry, task_name_offset = ofs\<rparr>)))"

section \<open>The reader\<close>

definition reader_new ::
  "ams_addr \<Rightarrow> u64 \<Rightarrow> task_info_location \<Rightarrow> i32 \<times> i32 \<Rightarrow> task_info_layout \<Rightarrow> task_info_reader res" where
  "reader_new target symbol_generation task_info array_bounds layout = (case array_bounds of (first_index, last_index) \<Rightarrow>
     let count = Option.bind
           (case checked_i32 (sint last_index - sint first_index) of
              Some c \<Rightarrow> (if c \<ge> 0 then Some c else None) | None \<Rightarrow> None)
           (\<lambda>n. checked_i32 (n + 1))
     in case count of
          None \<Rightarrow> Err (TaskInfoLayoutError ''task array bounds are invalid'')
        | Some c \<Rightarrow>
            if tl_size task_info = 0 \<or> tl_size task_info > MAX_TASK_INFO_SIZE \<or>
               checked_usize (nat c * entry_size layout) \<noteq> Some (tl_size task_info)
            then Err (TaskInfoLayoutError ''task array bounds and symbol size disagree'')
            else Ok \<lparr>tr_target = target, tr_symbol_generation = symbol_generation, tr_task_info = task_info,
                     tr_app_info = None, tr_layout = layout, tr_first_index = first_index\<rparr>)"

definition with_app_info :: "task_info_reader \<Rightarrow> task_info_location \<Rightarrow> task_info_reader res" where
  "with_app_info r app_info =
     (if tl_size app_info < APP_INFO_TASK_COUNT_SIZE
      then Err (TaskInfoLayoutError ''app-info symbol is shorter than TaskCnt'')
      else Ok (r\<lparr>tr_app_info := Some app_info\<rparr>))"

text \<open>\<open>name_bytes.iter().position(|b| *b == 0).unwrap_or(name_bytes.len())\<close> and the slice up to there.\<close>

definition until_nul :: "bytes \<Rightarrow> bytes" where
  "until_nul b = takeWhile (\<lambda>x. x \<noteq> 0) b"

definition decode_task_name :: "bytes \<Rightarrow> nat option \<Rightarrow> rstring option res" where
  "decode_task_name entry name_offset =
     (case name_offset of
        None \<Rightarrow> Ok None
      | Some ofs \<Rightarrow>
          if ofs \<le> length entry \<and> TASK_NAME_SIZE \<le> length (drop ofs entry)
          then Ok (Some (utf8_lossy (until_nul (take TASK_NAME_SIZE (drop ofs entry)))))
          else Err (Io ''decoding task info'' (io_of_kind UnexpectedEof)))"

definition decode_task :: "bytes \<Rightarrow> i32 \<Rightarrow> nat option \<Rightarrow> plc_task_system_info res" where
  "decode_task entry index name_offset =
     (let c = ''decoding task info'' in
      rmap fst (pbind (rd_u32 c) (\<lambda>object_id.
        pbind (rd_u32 c) (\<lambda>cycle_time.
        pbind (rd_u16 c) (\<lambda>priority.
        pbind (rd_u16 c) (\<lambda>ads_port.
        pbind (rd_u32 c) (\<lambda>cycle_count.
        pbind (rd_u64 c) (\<lambda>dc_task_time.
        pbind (rd_u32 c) (\<lambda>last_exec_time.
        pbind (rd_u8 c) (\<lambda>first_cycle.
        pbind (rd_u8 c) (\<lambda>cycle_time_exceeded.
        pbind (rd_u8 c) (\<lambda>in_call_after_output_update.
        pbind (rd_u8 c) (\<lambda>rt_violation.
        pbind (plift (decode_task_name entry name_offset)) (\<lambda>name.
        pret \<lparr>ti_index = index, ti_object_id = object_id, ti_ads_port = ads_port, ti_priority = priority,
              ti_cycle_time = unat cycle_time * TICK_NANOS, ti_last_exec_time = unat last_exec_time * TICK_NANOS,
              ti_dc_task_time = dc_task_time, ti_cycle_count = cycle_count, ti_first_cycle = (first_cycle \<noteq> 0),
              ti_cycle_time_exceeded = (cycle_time_exceeded \<noteq> 0),
              ti_in_call_after_output_update = (in_call_after_output_update \<noteq> 0),
              ti_rt_violation = (rt_violation \<noteq> 0), ti_name = name\<rparr>)))))))))))) entry))"

text \<open>\<open>bytes.chunks_exact(n)\<close> for \<open>n > 0\<close>; an incomplete chunk at the end is left out.\<close>

function chunks_exact :: "nat \<Rightarrow> bytes \<Rightarrow> bytes list" where
  "chunks_exact n b = (if n = 0 \<or> length b < n then [] else take n b # chunks_exact n (drop n b))"
  by pat_completeness auto
termination
  by (relation "measure (\<lambda>(n, b). length b)") auto

declare chunks_exact.simps [simp del]

primrec decode_entries :: "i32 \<Rightarrow> nat option \<Rightarrow> nat \<Rightarrow> bytes list \<Rightarrow> plc_task_system_info list res" where
  "decode_entries first_index ofs slot [] = Ok []"
| "decode_entries first_index ofs slot (entry # es) =
     (case checked_i32 (sint first_index + sint (of_nat slot :: i32)) of
        None \<Rightarrow> Err (Reply ''decoding task info'' ''task array index overflow'' (of_nat slot))
      | Some index \<Rightarrow>
          rbind (decode_task entry (word_of_int index) ofs) (\<lambda>task.
          rmap (Cons task) (decode_entries first_index ofs (slot + 1) es)))"

definition decode_tasks :: "task_info_reader \<Rightarrow> bytes \<Rightarrow> plc_task_system_info list res" where
  "decode_tasks r b =
     (if length b \<noteq> tl_size (tr_task_info r)
      then Err (Reply ''decoding task info'' ''unexpected task-info read length'' (of_nat (length b)))
      else if entry_size (tr_layout r) = 0 then Panic
      else decode_entries (tr_first_index r) (task_name_offset (tr_layout r)) 0
             (chunks_exact (entry_size (tr_layout r)) b))"

definition read_app_task_count :: "'w comm \<Rightarrow> ams_addr \<Rightarrow> task_info_location \<Rightarrow> ('w, u32) op" where
  "read_app_task_count comm addr location =
     ibind (read_exact comm addr (tl_index_group location) (tl_index_offset location)
         (replicate APP_INFO_TASK_COUNT_SIZE 0)) (\<lambda>b.
     ilift (rmap fst (rd_u32 ''decoding app task count'' (drop APP_INFO_TASK_COUNT_OFFSET b))))"

definition task_info_read ::
  "task_info_reader \<Rightarrow> 'w comm \<Rightarrow> ams_addr \<Rightarrow> u64 \<Rightarrow> ('w, plc_task_info_snapshot) op" where
  "task_info_read r comm addr current_generation =
     (if current_generation \<noteq> tr_symbol_generation r then ilift (Err TaskInfoInvalidated)
      else if addr \<noteq> tr_target r then
        ilift (Err (TaskInfoLayoutError ''reader was used with a different ADS target''))
      else
        ibind (read_exact comm addr (tl_index_group (tr_task_info r)) (tl_index_offset (tr_task_info r))
            (replicate (tl_size (tr_task_info r)) 0)) (\<lambda>b.
        ibind (ilift (decode_tasks r b)) (\<lambda>ts.
        case tr_app_info r of
          None \<Rightarrow> iret \<lparr>reported_task_count = None, tasks = ts\<rparr>
        | Some location \<Rightarrow>
            ibind (icatch (read_app_task_count comm addr location) (\<lambda>x.
                case x of Ok n \<Rightarrow> iret (Available n) | Err e \<Rightarrow> iret (Unavailable e) | Panic \<Rightarrow> ilift Panic)) (\<lambda>n.
            iret \<lparr>reported_task_count = Some n, tasks = ts\<rparr>))))"

section \<open>A validated reader decodes every sample\<close>

lemma find_SomeD: "find P xs = Some x \<Longrightarrow> x \<in> set xs \<and> P x"
  by (auto simp: find_Some_iff)

lemma check_required_sound:
  "check_required fs rs = Ok () \<Longrightarrow> (name, ofs, sz, base) \<in> set rs \<Longrightarrow>
     \<exists>f \<in> set fs. fd_name f = name \<and> fd_offset f = Some ofs \<and> fd_size f = sz \<and> fd_base_type f = base \<and> fd_array f = []"
proof (induction rs)
  case Nil
  then show ?case by simp
next
  case (Cons r rs)
  then show ?case
    by (cases r) (auto split: option.splits if_splits dest!: find_SomeD)
qed

definition layout_ok :: "task_info_layout \<Rightarrow> bool" where
  "layout_ok l \<longleftrightarrow> TASK_PREFIX_SIZE \<le> entry_size l \<and>
     (case task_name_offset l of
        None \<Rightarrow> True
      | Some ofs \<Rightarrow> TASK_PREFIX_SIZE \<le> ofs \<and> ofs + TASK_NAME_SIZE \<le> entry_size l)"

lemma from_entry_type_ok: "from_entry_type t = Ok l \<Longrightarrow> layout_ok l \<and> entry_size l = ty_size t"
  by (auto simp: from_entry_type_def layout_ok_def task_name_field_ok_def checked_usize_def
      split: if_splits option.splits)

text \<open>What an entry says, read off at the documented offsets.\<close>

definition flag_at :: "bytes \<Rightarrow> nat \<Rightarrow> bool" where
  "flag_at entry i \<longleftrightarrow> entry ! i \<noteq> 0"

definition task_spec :: "nat option \<Rightarrow> i32 \<Rightarrow> bytes \<Rightarrow> plc_task_system_info" where
  "task_spec name_offset index entry =
     \<lparr>ti_index = index, ti_object_id = le_u32 (take 4 entry), ti_ads_port = le_u16 (take 2 (drop 10 entry)),
      ti_priority = le_u16 (take 2 (drop 8 entry)),
      ti_cycle_time = unat (le_u32 (take 4 (drop 4 entry))) * 100,
      ti_last_exec_time = unat (le_u32 (take 4 (drop 24 entry))) * 100,
      ti_dc_task_time = le_u64 (take 8 (drop 16 entry)), ti_cycle_count = le_u32 (take 4 (drop 12 entry)),
      ti_first_cycle = flag_at entry 28, ti_cycle_time_exceeded = flag_at entry 29,
      ti_in_call_after_output_update = flag_at entry 30, ti_rt_violation = flag_at entry 31,
      ti_name = map_option (\<lambda>ofs. utf8_lossy (takeWhile (\<lambda>x. x \<noteq> 0) (take 64 (drop ofs entry)))) name_offset\<rparr>"

lemma decode_task_spec:
  assumes "layout_ok l" and "length entry = entry_size l"
  shows "decode_task entry i (task_name_offset l) = Ok (task_spec (task_name_offset l) i entry)"
proof -
  have "32 \<le> length entry" using assms by (simp add: layout_ok_def TASK_PREFIX_SIZE_def)
  then have bounds: "4 \<le> length entry" "4 \<le> length entry - 4" "2 \<le> length entry - 8" "2 \<le> length entry - 10"
    "4 \<le> length entry - 12" "8 \<le> length entry - 16" "4 \<le> length entry - 24" "Suc 0 \<le> length entry - 28"
    "Suc 0 \<le> length entry - 29" "Suc 0 \<le> length entry - 30" "Suc 0 \<le> length entry - 31"
    "28 < length entry" "29 < length entry" "30 < length entry" "31 < length entry"
    by linarith+
  have "decode_task_name entry (task_name_offset l) =
      Ok (map_option (\<lambda>ofs. utf8_lossy (takeWhile (\<lambda>x. x \<noteq> 0) (take 64 (drop ofs entry)))) (task_name_offset l))"
    using assms by (auto simp: layout_ok_def decode_task_name_def until_nul_def TASK_NAME_SIZE_def split: option.splits)
  then show ?thesis
    by (simp add: decode_task_def Let_def pbind_def rd_ifs task_spec_def TICK_NANOS_def flag_at_def hd_drop_conv_nth
        bounds)
qed

lemma chunks_exact_even:
  "0 < n \<Longrightarrow> length b = k * n \<Longrightarrow> chunks_exact n b = map (\<lambda>i. take n (drop (i * n) b)) [0..<k]"
proof (induction k arbitrary: b)
  case 0
  then show ?case by (simp add: chunks_exact.simps)
next
  case (Suc k)
  then have "chunks_exact n (drop n b) = map (\<lambda>i. take n (drop (i * n) (drop n b))) [0..<k]"
    by simp
  with Suc.prems show ?case
    by (simp add: chunks_exact.simps [of n b] upt_conv_Cons map_Suc_upt [symmetric] comp_def del: upt_Suc)
      (simp add: add.commute)
qed

lemma sint_of_nat_i32: "j < 2 ^ 31 \<Longrightarrow> sint (of_nat j :: i32) = int j"
  by (simp add: signed_of_nat signed_take_bit_int_eq_self)

lemma decode_entries_spec:
  assumes l: "layout_ok l"
  shows "list_all (\<lambda>e. length e = entry_size l) es \<Longrightarrow> slot + length es < 2 ^ 31 \<Longrightarrow>
    sint fi + int (slot + length es) \<le> 2 ^ 31 \<Longrightarrow>
    decode_entries fi (task_name_offset l) slot es =
      Ok (map (\<lambda>(j, e). task_spec (task_name_offset l) (fi + of_nat j) e) (enumerate slot es))"
proof (induction es arbitrary: slot)
  case Nil
  then show ?case by simp
next
  case (Cons e es)
  have j: "sint (of_nat slot :: i32) = int slot"
    using Cons.prems(2) by (intro sint_of_nat_i32) simp
  have "in_i32 (sint fi + int slot)"
    using Cons.prems(3) sint_ge [of fi] by (simp add: in_i32_def)
  moreover have "word_of_int (sint fi + int slot) = fi + of_nat slot"
    by simp
  ultimately show ?case
    using Cons by (simp add: checked_i32_def j decode_task_spec [OF l])
qed

lemma decode_tasks_spec:
  assumes l: "layout_ok (tr_layout r)" and k: "k < 2 ^ 31" "sint (tr_first_index r) + int k \<le> 2 ^ 31"
    and b: "length b = k * entry_size (tr_layout r)" "length b = tl_size (tr_task_info r)"
  shows "decode_tasks r b = Ok (map (\<lambda>i. task_spec (task_name_offset (tr_layout r)) (tr_first_index r + of_nat i)
      (take (entry_size (tr_layout r)) (drop (i * entry_size (tr_layout r)) b))) [0..<k])"
proof -
  let ?n = "entry_size (tr_layout r)" and ?fi = "tr_first_index r" and ?ofs = "task_name_offset (tr_layout r)"
  let ?f = "\<lambda>i. take ?n (drop (i * ?n) b)"
  have pos: "0 < ?n" using l by (simp add: layout_ok_def TASK_PREFIX_SIZE_def)
  have c: "chunks_exact ?n b = map ?f [0..<k]"
    by (rule chunks_exact_even [OF pos b(1)])
  have "length (?f i) = ?n" if "i < k" for i
    using mult_le_mono1 [of "Suc i" k ?n] that b(1) by simp
  then have "list_all (\<lambda>e. length e = ?n) (map ?f [0..<k])"
    by (simp add: list_all_iff)
  then have "decode_entries ?fi ?ofs 0 (map ?f [0..<k]) =
      Ok (map (\<lambda>(j, e). task_spec ?ofs (?fi + of_nat j) e) (enumerate 0 (map ?f [0..<k])))"
    using k by (intro decode_entries_spec [OF l]) simp_all
  then show ?thesis
    using b pos by (simp add: decode_tasks_def c enumerate_map_upt comp_def)
qed

lemma reader_new_facts:
  assumes "reader_new target gen loc (fi, la) l = Ok r"
  shows "sint fi \<le> sint la" "sint la - sint fi + 1 < 2 ^ 31" "nat (sint la - sint fi + 1) * entry_size l = tl_size loc"
    "r = \<lparr>tr_target = target, tr_symbol_generation = gen, tr_task_info = loc, tr_app_info = None, tr_layout = l,
          tr_first_index = fi\<rparr>"
  using assms
  by (auto simp: reader_new_def Let_def checked_i32_def checked_usize_def in_i32_def bind_eq_Some_conv
      split: option.splits if_splits)

text \<open>
  C18. A reader whose layout passed the validation and whose bounds agree with the size of the symbol
  decodes every sample of that size without an error: one task per index of the PLC array, in
  order, each read off its own entry at the documented offsets.
\<close>

theorem task_reader_decodes_all:
  assumes "from_entry_type t = Ok l" and "reader_new target gen loc (fi, la) l = Ok r" and "length b = tl_size loc"
  shows "sint fi \<le> sint la \<and> nat (sint la - sint fi + 1) * ty_size t = length b \<and>
    decode_tasks r b = Ok (map (\<lambda>i. task_spec (task_name_offset l) (fi + of_nat i)
        (take (ty_size t) (drop (i * ty_size t) b))) [0..<nat (sint la - sint fi + 1)])"
proof -
  let ?k = "nat (sint la - sint fi + 1)"
  have l: "layout_ok l" and sz: "entry_size l = ty_size t"
    using from_entry_type_ok [OF assms(1)] by simp_all
  then have pos: "0 < ty_size t" by (simp add: layout_ok_def TASK_PREFIX_SIZE_def)
  from assms(2) have le: "sint fi \<le> sint la" and k: "sint la - sint fi + 1 < 2 ^ 31"
    and m: "?k * entry_size l = tl_size loc" and r: "tr_task_info r = loc" "tr_layout r = l" "tr_first_index r = fi"
    using reader_new_facts [OF assms(2)] by simp_all
  have b: "length b = ?k * ty_size t" using m sz assms(3) by simp
  have "decode_tasks r b = Ok (map (\<lambda>i. task_spec (task_name_offset l) (fi + of_nat i)
        (take (ty_size t) (drop (i * ty_size t) b))) [0..<?k])"
    using decode_tasks_spec [of r ?k b] l le k b sint_lt [of la] by (simp add: r sz assms(3))
  with le b show ?thesis by simp
qed

definition demo_task_field :: "rstring \<times> u32 \<times> nat \<times> u32 \<Rightarrow> field" where
  "demo_task_field x = (case x of (name, ofs, sz, base) \<Rightarrow>
     \<lparr>fd_name = name, fd_typ = [], fd_offset = Some ofs, fd_size = sz, fd_array = [], fd_base_type = base,
      fd_flags = 0, fd_comment = [], fd_attributes = None\<rparr>)"

definition demo_task_type :: sym_type where
  "demo_task_type =
     \<lparr>ty_name = bytes_of ''PlcTaskSystemInfo'', ty_type_name = [], ty_comment = [], ty_size = 128, ty_array = [],
      ty_fields = map demo_task_field (required_fields @ [(bytes_of ''TaskName'', 64, 64, 30)]),
      ty_base_type = 65, ty_flags = 0, ty_guid = None, ty_methods = None, ty_attributes = None, ty_enum_info = None\<rparr>"

definition demo_layout :: task_info_layout where
  "demo_layout = \<lparr>entry_size = 128, task_name_offset = Some 64\<rparr>"

definition demo_location :: task_info_location where
  "demo_location = \<lparr>tl_index_group = 0x4040, tl_index_offset = 16, tl_size = 256\<rparr>"

definition demo_reader :: "ams_addr \<Rightarrow> task_info_reader" where
  "demo_reader target = \<lparr>tr_target = target, tr_symbol_generation = 3, tr_task_info = demo_location,
     tr_app_info = None, tr_layout = demo_layout, tr_first_index = 1\<rparr>"

lemma demo_layout_valid: "from_entry_type demo_task_type = Ok demo_layout"
  by (simp add: from_entry_type_def demo_task_type_def demo_layout_def demo_task_field_def required_fields_def
      TASK_PREFIX_SIZE_def TASK_NAME_SIZE_def task_name_field_ok_def checked_usize_def bytes_of_def)

lemma demo_reader_valid: "reader_new target 3 demo_location (1, 2) demo_layout = Ok (demo_reader target)"
  by (simp add: reader_new_def demo_reader_def demo_location_def demo_layout_def checked_i32_def checked_usize_def
      in_i32_def MAX_TASK_INFO_SIZE_def)

theorem task_reader_decodes_all_witness:
  "decode_tasks (demo_reader demo_addr) (replicate 128 0 @ replicate 128 1) =
     Ok [task_spec (Some 64) 1 (replicate 128 0), task_spec (Some 64) 2 (replicate 128 1)]"
  using task_reader_decodes_all [OF demo_layout_valid demo_reader_valid [of demo_addr], of "replicate 128 0 @ replicate 128 1"]
  by (simp add: demo_location_def demo_task_type_def demo_layout_def upt_conv_Cons)

text \<open>A field of the entry type as the documentation of the structure gives it.\<close>

definition documented :: "sym_type \<Rightarrow> rstring \<times> u32 \<times> nat \<times> u32 \<Rightarrow> bool" where
  "documented t d = (case d of (name, ofs, sz, base) \<Rightarrow>
     list_ex (\<lambda>f. fd_name f = name \<and> fd_offset f = Some ofs \<and> fd_size f = sz \<and> fd_base_type f = base \<and> fd_array f = [])
       (ty_fields t))"

text \<open>
  A layout is accepted only for a type that has all eleven documented fields at their offsets,
  with their sizes and base types; a task name, if there is one, lies inside the entry and
  behind the documented prefix.
\<close>

theorem layout_validated:
  assumes "from_entry_type t = Ok l"
  shows "list_all (documented t) required_fields \<and> entry_size l = ty_size t \<and> layout_ok l"
proof -
  have "check_required (ty_fields t) required_fields = Ok ()"
    using assms by (auto simp: from_entry_type_def split: if_splits)
  then have "list_all (documented t) required_fields"
    by (auto simp: list_all_iff documented_def list_ex_iff dest: check_required_sound)
  with from_entry_type_ok [OF assms] show ?thesis by simp
qed

theorem layout_validated_witness:
  "from_entry_type demo_task_type = Ok demo_layout \<and> list_all (documented demo_task_type) required_fields \<and>
    entry_size demo_layout = ty_size demo_task_type \<and> layout_ok demo_layout"
  using demo_layout_valid layout_validated [OF demo_layout_valid] by simp

text \<open>
  A reader of another generation of the metadata, or of another target, sends no request: the
  connection is as before.
\<close>

theorem stale_reader_sends_nothing:
  assumes "current \<noteq> tr_symbol_generation r \<or> addr \<noteq> tr_target r"
  shows "\<exists>e. task_info_read r comm addr current s = (Err e, s) \<and>
    (e = TaskInfoInvalidated \<longleftrightarrow> current \<noteq> tr_symbol_generation r)"
  using assms by (auto simp: task_info_read_def)

theorem stale_reader_sends_nothing_witness:
  "\<exists>e. task_info_read (demo_reader demo_addr) (communicate (demo_net Read [])) demo_addr 4 (demo_client, ()) =
      (Err e, (demo_client, ())) \<and> (e = TaskInfoInvalidated \<longleftrightarrow> (4 :: u64) \<noteq> 3)"
  using stale_reader_sends_nothing [of 4 "demo_reader demo_addr" demo_addr "communicate (demo_net Read [])" "(demo_client, ())"]
  by (simp add: demo_reader_def)

text \<open>
  The task count is read after the tasks, and whether that succeeds or fails the tasks are in
  the snapshot; a failure is recorded in it.
\<close>

theorem snapshot_keeps_tasks:
  assumes "tr_app_info r = Some loc" and "length b = tl_size (tr_task_info r)" and "decode_tasks r b = Ok ts"
    and "read_exact comm (tr_target r) (tl_index_group (tr_task_info r)) (tl_index_offset (tr_task_info r))
      (replicate (length b) 0) s = (Ok b, s1)"
    and "read_app_task_count comm (tr_target r) loc s1 = (x, s2)" and "x \<noteq> Panic"
  shows "task_info_read r comm (tr_target r) (tr_symbol_generation r) s =
    (Ok \<lparr>reported_task_count = Some (case x of Ok n \<Rightarrow> Available n | Err e \<Rightarrow> Unavailable e), tasks = ts\<rparr>, s2)"
  using assms by (cases x) (simp_all add: task_info_read_def ibind_def icatch_def)

definition demo_sample :: bytes where
  "demo_sample = replicate 128 0 @ replicate 128 1"

lemma demo_decode: "is_ok (decode_tasks ((demo_reader target)\<lparr>tr_app_info := Some demo_location\<rparr>) demo_sample)"
  using decode_tasks_spec [of "(demo_reader target)\<lparr>tr_app_info := Some demo_location\<rparr>" 2 demo_sample]
  by (simp add: demo_reader_def demo_layout_def demo_location_def layout_ok_def TASK_PREFIX_SIZE_def TASK_NAME_SIZE_def
      demo_sample_def)

theorem snapshot_keeps_tasks_witness:
  "\<exists>ts. task_info_read ((demo_reader demo_addr)\<lparr>tr_app_info := Some demo_location\<rparr>) scripted demo_addr 3
      (demo_client, [demo_sample, replicate 4 0 @ u32_le 2]) =
    (Ok \<lparr>reported_task_count = Some (Available 2), tasks = ts\<rparr>, (demo_client, []))"
proof -
  let ?r = "(demo_reader demo_addr)\<lparr>tr_app_info := Some demo_location\<rparr>"
  obtain ts where ts: "decode_tasks ?r demo_sample = Ok ts"
    using demo_decode [of demo_addr] by (auto simp: is_ok_iff)
  have "read_app_task_count scripted (tr_target ?r) demo_location (demo_client, [replicate 4 0 @ u32_le 2]) =
      (Ok 2, (demo_client, []))"
    using rd_u32_append [of _ 2 "[]"]
    by (simp add: read_app_task_count_def scripted_read_exact ibind_def APP_INFO_TASK_COUNT_SIZE_def
        APP_INFO_TASK_COUNT_OFFSET_def)
  then show ?thesis
    using snapshot_keeps_tasks [of ?r demo_location demo_sample ts scripted
        "(demo_client, [demo_sample, replicate 4 0 @ u32_le 2])"] ts
    by (simp add: scripted_read_exact demo_reader_def demo_location_def demo_sample_def)
qed

end
