(* ===== verification/Ads_Tool_Data.thy ===== *)
theory Ads_Tool_Data
  imports Ads_Symbol "HOL-Library.Signed_Division"
begin

text \<open>
  The values of the command line tool (\<open>examples/adstool.rs\<close>): the target of a command, the types
  of variables with their conversion from and to text, GUIDs, file times and hex dumps. The
  crates the tool uses are parameters: \<open>parse_int\<close> for integers, \<open>chrono\<close> for dates, the class of
  decimal digits of \<open>regex\<close>; so are parsing and printing of floating point numbers.
\<close>

section \<open>Formatting\<close>

text \<open>\<open>{:x}\<close>, \<open>{:X}\<close> and the padded forms of numbers and texts. The width of a text counts characters.\<close>

definition hex_digit :: "bool \<Rightarrow> nat \<Rightarrow> u8" where
  "hex_digit upper d = (if d < 10 then of_nat (48 + d) else of_nat ((if upper then 55 else 87) + d))"

fun show_hex :: "bool \<Rightarrow> nat \<Rightarrow> bytes" where
  "show_hex upper n =
     (if n < 16 then [hex_digit upper n] else show_hex upper (n div 16) @ [hex_digit upper (n mod 16)])"

declare show_hex.simps [simp del]

definition pad_left :: "u8 \<Rightarrow> nat \<Rightarrow> bytes \<Rightarrow> bytes" where
  "pad_left c w s = replicate (w - length s) c @ s"

definition char_count :: "rstring \<Rightarrow> nat" where
  "char_count s = length (filter (\<lambda>b. \<not> is_cont b) s)"

definition pad_right :: "nat \<Rightarrow> rstring \<Rightarrow> rstring" where
  "pad_right w s = s @ replicate (w - char_count s) 32"

definition fmt_hex :: "bool \<Rightarrow> nat \<Rightarrow> nat \<Rightarrow> bytes" where
  "fmt_hex upper w n = pad_left 48 w (show_hex upper n)"

definition show_int :: "int \<Rightarrow> bytes" where
  "show_int v = (if v < 0 then 45 # show_nat (nat (- v)) else show_nat (nat v))"

definition println :: "bytes \<Rightarrow> bytes" where
  "println s = s @ [10]"

section \<open>Variable types\<close>

datatype var_type =
  Bool | Byte | Sint | Word | IntT | Dword | Dint | Lword | Lint | StringT | Real | Lreal

primrec var_size :: "var_type \<Rightarrow> nat" where
  "var_size Bool = 1"
| "var_size Byte = 1"
| "var_size Sint = 1"
| "var_size Word = 2"
| "var_size IntT = 2"
| "var_size Real = 4"
| "var_size Dword = 4"
| "var_size Dint = 4"
| "var_size Lreal = 8"
| "var_size Lword = 8"
| "var_size Lint = 8"
| "var_size StringT = 255"

definition var_types :: "(string \<times> var_type) list" where
  "var_types = [(''BOOL'', Bool), (''BYTE'', Byte), (''SINT'', Sint), (''WORD'', Word), (''INT'', IntT),
     (''DWORD'', Dword), (''DINT'', Dint), (''LWORD'', Lword), (''LINT'', Lint), (''STRING'', StringT),
     (''REAL'', Real), (''LREAL'', Lreal)]"

definition var_type_from_str :: "string \<Rightarrow> var_type option" where
  "var_type_from_str s = map_of var_types s"

text \<open>The range of an integer type; its values are the ones the parser of that type can return.\<close>

fun var_range :: "var_type \<Rightarrow> (int \<times> int) option" where
  "var_range Byte = Some (0, 2 ^ 8)"
| "var_range Sint = Some (- (2 ^ 7), 2 ^ 7)"
| "var_range Word = Some (0, 2 ^ 16)"
| "var_range IntT = Some (- (2 ^ 15), 2 ^ 15)"
| "var_range Dword = Some (0, 2 ^ 32)"
| "var_range Dint = Some (- (2 ^ 31), 2 ^ 31)"
| "var_range Lword = Some (0, 2 ^ 64)"
| "var_range Lint = Some (- (2 ^ 63), 2 ^ 63)"
| "var_range _ = None"

datatype tool_error = Lib error | IoE io_error | StrE string

type_synonym 'a tres = "('a, tool_error) outcome"

text \<open>Conversions of text the tool leaves to libraries.\<close>

record parsers =
  ps_int :: "var_type \<Rightarrow> rstring \<Rightarrow> int option"
  ps_f32 :: "rstring \<Rightarrow> u32 option"
  ps_f64 :: "rstring \<Rightarrow> u64 option"
  ps_show_f32 :: "u32 \<Rightarrow> rstring"
  ps_show_f64 :: "u64 \<Rightarrow> rstring"

text \<open>\<open>to_le_bytes\<close> of an integer of \<open>n\<close> bytes.\<close>

definition int_le :: "nat \<Rightarrow> int \<Rightarrow> bytes" where
  "int_le n v = le_bytes n (nat (v mod 2 ^ (8 * n)))"

definition get_write_value :: "parsers \<Rightarrow> var_type \<Rightarrow> rstring \<Rightarrow> bytes tres" where
  "get_write_value ps typ value =
     (case typ of
        StringT \<Rightarrow> Ok value
      | Bool \<Rightarrow>
          if value = bytes_of ''TRUE'' then Ok [1]
          else if value = bytes_of ''FALSE'' then Ok [0]
          else Err (StrE ''invalid BOOL value'')
      | Real \<Rightarrow>
          (case ps_f32 ps value of Some f \<Rightarrow> Ok (u32_le f)
           | None \<Rightarrow> Err (StrE ''expected floating point number''))
      | Lreal \<Rightarrow>
          (case ps_f64 ps value of Some f \<Rightarrow> Ok (u64_le f)
           | None \<Rightarrow> Err (StrE ''expected floating point number''))
      | _ \<Rightarrow>
          (case ps_int ps typ value of Some v \<Rightarrow> Ok (int_le (var_size typ) v)
           | None \<Rightarrow> Err (StrE ''expected integer'')))"

definition print_int :: "bool \<Rightarrow> int \<Rightarrow> bytes" where
  "print_int hex v =
     println (if hex then bytes_of ''0x'' @ show_hex False (nat (v mod 2 ^ 128)) else show_int v)"

definition print_read_value :: "parsers \<Rightarrow> var_type \<Rightarrow> bytes \<Rightarrow> bool \<Rightarrow> (bytes, 'e) outcome" where
  "print_read_value ps typ buf hex =
     (let b1 = rmap hd (slice_of buf 0 1); b2 = rmap le_u16 (slice_of buf 0 2);
          b4 = rmap le_u32 (slice_of buf 0 4); b8 = rmap le_u64 (slice_of buf 0 8)
      in case typ of
        StringT \<Rightarrow> Ok (println (takeWhile (\<lambda>b. b \<noteq> 0) (utf8_lossy buf)))
      | Bool \<Rightarrow> rmap (\<lambda>b. println (if b = 0 then bytes_of ''FALSE'' else if b = 1 then bytes_of ''TRUE''
                     else bytes_of ''non-bool ('' @ show_nat (unat b) @ bytes_of '')'')) b1
      | Real \<Rightarrow> rmap (\<lambda>f. println (ps_show_f32 ps f)) b4
      | Lreal \<Rightarrow> rmap (\<lambda>f. println (ps_show_f64 ps f)) b8
      | Byte \<Rightarrow> rmap (\<lambda>b. print_int hex (uint b)) b1
      | Sint \<Rightarrow> rmap (\<lambda>b. print_int hex (sint b)) b1
      | Word \<Rightarrow> rmap (\<lambda>w. print_int hex (uint w)) b2
      | IntT \<Rightarrow> rmap (\<lambda>w. print_int hex (sint w)) b2
      | Dword \<Rightarrow> rmap (\<lambda>w. print_int hex (uint w)) b4
      | Dint \<Rightarrow> rmap (\<lambda>w. print_int hex (sint w)) b4
      | Lword \<Rightarrow> rmap (\<lambda>w. print_int hex (uint w)) b8
      | Lint \<Rightarrow> rmap (\<lambda>w. print_int hex (sint w)) b8)"

section \<open>Hex dumps\<close>

definition printable :: "u8 \<Rightarrow> u8" where
  "printable ch = (if ch \<ge> 32 \<and> ch \<le> 127 then ch else 46)"

text \<open>\<open>{:#08x}\<close> of an \<open>i32\<close>: the prefix counts towards the width.\<close>

definition fmt_addr :: "i32 \<Rightarrow> bytes" where
  "fmt_addr a = bytes_of ''0x'' @ fmt_hex False 6 (unat a)"

definition hexdump_line :: "i32 \<Rightarrow> bytes \<Rightarrow> bytes" where
  "hexdump_line addr ln =
     println (fmt_addr addr @ bytes_of '': '' @ join_with 32 (map (\<lambda>b. fmt_hex False 2 (unat b)) ln) @
       concat (replicate (16 - length ln) (bytes_of ''   '')) @ bytes_of '' | '' @ map printable ln)"

function hexdump_loop :: "bool \<Rightarrow> i32 \<Rightarrow> bytes \<Rightarrow> (bytes, 'e) outcome" where
  "hexdump_loop ovf addr data =
     (if data = [] then Ok []
      else if ovf \<and> \<not> in_i32 (sint addr + 16) then Panic
      else rmap (\<lambda>t. hexdump_line addr (take 16 data) @ t) (hexdump_loop ovf (addr + 16) (drop 16 data)))"
  by pat_completeness auto
termination
  by (relation "measure (\<lambda>(ovf, addr, data). length data)") auto

declare hexdump_loop.simps [simp del]

definition hexdump :: "bool \<Rightarrow> bytes \<Rightarrow> (bytes, 'e) outcome" where
  "hexdump ovf data = rmap println (hexdump_loop ovf 0 data)"

section \<open>File times and GUIDs\<close>

definition EPOCH_OFFSET :: int where
  "EPOCH_OFFSET = 11644473600"

definition convert_filetime :: "(int \<Rightarrow> 'd option) \<Rightarrow> i64 \<Rightarrow> 'd option" where
  "convert_filetime from_timestamp ft =
     (if ft = 0 then None else from_timestamp (sint ft sdiv 10000000 - EPOCH_OFFSET))"

definition format_guid :: "bytes \<Rightarrow> (bytes, 'e) outcome" where
  "format_guid guid =
     (if length guid < 16 then Panic
      else Ok (fmt_hex True 8 (unat (le_u32 (take 4 guid))) @ [45] @
               fmt_hex True 4 (unat (le_u16 (take 2 (drop 4 guid)))) @ [45] @
               fmt_hex True 4 (unat (le_u16 (take 2 (drop 6 guid)))) @ [45] @
               fmt_hex True 4 (le_val (rev (take 2 (drop 8 guid)))) @ [45] @
               fmt_hex True 12 (le_val (rev (take 6 (drop 10 guid))))))"

section \<open>The target of a command\<close>

text \<open>Texts are lists of characters here, since the digits of the pattern are Unicode digits.\<close>

record target =
  tg_host :: "nat list"
  tg_port :: "u16 option"
  tg_netid :: "ams_netid option"
  tg_amsport :: "u16 option"

text \<open>\<open>(:(?P<name>\d+))?\<close> in front of a text: the digits, if there are some, and the rest.\<close>

definition opt_number :: "(nat \<Rightarrow> bool) \<Rightarrow> nat list \<Rightarrow> nat list option \<times> nat list" where
  "opt_number is_nd s =
     (case s of
        c # r \<Rightarrow>
          if c = 58 \<and> takeWhile is_nd r \<noteq> [] then (Some (takeWhile is_nd r), dropWhile is_nd r) else (None, s)
      | [] \<Rightarrow> (None, s))"

definition is_netid_char :: "nat \<Rightarrow> bool" where
  "is_netid_char c \<longleftrightarrow> 48 \<le> c \<and> c \<le> 57 \<or> c = 46"

text \<open>\<open>rx.captures(s)\<close> for the pattern \<open>RX\<close>: host, port, NetID and AMS port.\<close>

definition rx_captures ::
  "(nat \<Rightarrow> bool) \<Rightarrow> nat list \<Rightarrow> (nat list \<times> nat list option \<times> nat list option \<times> nat list option) option" where
  "rx_captures is_nd s =
     (let host = takeWhile (\<lambda>c. c \<noteq> 58 \<and> c \<noteq> 47) s;
          (prt, s1) = opt_number is_nd (dropWhile (\<lambda>c. c \<noteq> 58 \<and> c \<noteq> 47) s)
      in if host = [] then None
         else (case s1 of
                 [] \<Rightarrow> Some (host, prt, None, None)
               | c # s2 \<Rightarrow>
                   if c \<noteq> 47 then None
                   else let nid = takeWhile is_netid_char s2;
                            (ams, s3) = opt_number is_nd (dropWhile is_netid_char s2)
                        in if s3 \<noteq> [] then None
                           else Some (host, prt, if nid = [] then None else Some nid, ams)))"

text \<open>\<open>p.as_str().parse().expect("from rx")\<close> as \<open>u16\<close>.\<close>

definition expect_u16 :: "nat list option \<Rightarrow> (u16 option, 'e) outcome" where
  "expect_u16 cs =
     (case cs of
        None \<Rightarrow> Ok None
      | Some ds \<Rightarrow>
          if \<not> list_all (\<lambda>c. c < 128) ds then Panic
          else (case parse_uint 65535 (map of_nat ds) of Some n \<Rightarrow> Ok (Some (of_nat n)) | None \<Rightarrow> Panic))"

definition target_from_str :: "(nat \<Rightarrow> bool) \<Rightarrow> nat list \<Rightarrow> (target, string) outcome" where
  "target_from_str is_nd s =
     (case rx_captures is_nd s of
        None \<Rightarrow> Err ''target format is host[:port][/netid[:amsport]]''
      | Some (host, prt, nid, ams) \<Rightarrow>
          rbind (expect_u16 prt) (\<lambda>p.
          rbind (case nid of None \<Rightarrow> Ok None | Some cs \<Rightarrow> rmap Some (netid_from_str (map of_nat cs))) (\<lambda>n.
          rbind (expect_u16 ams) (\<lambda>a.
          Ok \<lparr>tg_host = host, tg_port = p, tg_netid = n, tg_amsport = a\<rparr>))))"

section \<open>Values written are the values read\<close>

lemma of_nat_nat_mod: "(of_nat (nat (v mod 2 ^ LENGTH('a))) :: 'a::len word) = word_of_int v"
  by (simp add: word_uint_eq_iff uint_word_of_int of_nat_nat)

lemma le_int_le:
  "le_u16 (int_le 2 v) = word_of_int v" "le_u32 (int_le 4 v) = word_of_int v" "le_u64 (int_le 8 v) = word_of_int v"
  "hd (int_le 1 v) = word_of_int v"
  using of_nat_nat_mod [where 'a = 16, of v] of_nat_nat_mod [where 'a = 32, of v]
    of_nat_nat_mod [where 'a = 64, of v] of_nat_nat_mod [where 'a = 8, of v]
  by (simp_all add: int_le_def le_u16_def le_u32_def le_u64_def le_val_le_bytes nat_mod_distrib)

lemma length_int_le [simp]: "length (int_le n v) = n"
  by (simp add: int_le_def)

lemma word_of_int_values:
  "0 \<le> v \<Longrightarrow> v < 2 ^ LENGTH('a) \<Longrightarrow> uint (word_of_int v :: 'a::len word) = v"
  "- (2 ^ (LENGTH('a) - 1)) \<le> v \<Longrightarrow> v < 2 ^ (LENGTH('a) - 1) \<Longrightarrow> sint (word_of_int v :: 'a::len word) = v"
  by (simp_all add: uint_word_of_int sint_sbintrunc' signed_take_bit_int_eq_self)

text \<open>
  C39. A number written as a value of an integer type occupies the size of the type and is printed
  back as the same number, for every type and every value the parser can return.
\<close>

theorem written_value_reads_back:
  assumes "var_range typ = Some (lo, hi)" and "ps_int ps typ value = Some v" and "lo \<le> v" and "v < hi"
  shows "\<exists>b. get_write_value ps typ value = Ok b \<and> length b = var_size typ \<and>
    print_read_value ps typ b False = Ok (println (show_int v))"
proof -
  have "get_write_value ps typ value = Ok (int_le (var_size typ) v)"
    using assms(1,2) by (cases "typ") (simp_all add: get_write_value_def)
  moreover have "print_read_value ps typ (int_le (var_size typ) v) False = Ok (println (show_int v))"
    using assms(1,3,4)
    by (cases "typ") (auto simp: print_read_value_def Let_def slice_of_def le_int_le le_int_le(4) [simplified]
        print_int_def word_of_int_values)
  ultimately show ?thesis by simp
qed

definition demo_parsers :: parsers where
  "demo_parsers = \<lparr>ps_int = (\<lambda>t s. case s of b # r \<Rightarrow>
       if b = 45 then map_option (\<lambda>n. - int n) (parse_uint 128 r) else map_option int (parse_uint 127 s) | [] \<Rightarrow> None),
     ps_f32 = (\<lambda>_. None), ps_f64 = (\<lambda>_. None), ps_show_f32 = (\<lambda>_. []), ps_show_f64 = (\<lambda>_. [])\<rparr>"

theorem written_value_reads_back_witness:
  "\<exists>b. get_write_value demo_parsers Sint [45, 53] = Ok b \<and> length b = 1 \<and>
    print_read_value demo_parsers Sint b False = Ok (println (show_int (- 5)))"
  using written_value_reads_back [of Sint "- 128" 128 demo_parsers "[45, 53]" "- 5"]
  by (simp add: demo_parsers_def parse_uint_def)

section \<open>Dumps\<close>

lemma length_show_hex: "0 < k \<Longrightarrow> n < 16 ^ k \<Longrightarrow> length (show_hex u n) \<le> k"
proof (induction k arbitrary: n)
  case 0
  then show ?case by simp
next
  case (Suc k)
  show ?case
  proof (cases "n < 16")
    case True
    then show ?thesis by (simp add: show_hex.simps)
  next
    case False
    moreover from False Suc.prems have "0 < k" by (cases k) simp_all
    ultimately show ?thesis
      using Suc.IH [of "n div 16"] Suc.prems by (simp add: show_hex.simps [of u n] less_mult_imp_div_less mult.commute)
  qed
qed

lemma length_fmt_hex: "0 < k \<Longrightarrow> n < 16 ^ k \<Longrightarrow> length (fmt_hex u k n) = k"
  using length_show_hex [of k n u] by (simp add: fmt_hex_def pad_left_def)

lemma length_fmt_byte [simp]: "length (fmt_hex u 2 (unat (b :: u8))) = 2"
  by (rule length_fmt_hex) (use unat_u8_lt [of b] in \<open>simp_all add: power2_eq_square\<close>)

text \<open>The columns of the bytes of a line, separated by one character.\<close>

lemma length_join_with:
  "list_all (\<lambda>p. length p = k) ps \<Longrightarrow> length (join_with c ps) = (if ps = [] then 0 else (k + 1) * length ps - 1)"
  by (induction c ps rule: join_with.induct) (auto simp: algebra_simps)

lemma column_join_with:
  "list_all (\<lambda>p. length p = k) ps \<Longrightarrow> j < length ps \<Longrightarrow>
     take k (drop ((k + 1) * j) (join_with c ps @ t)) = ps ! j"
proof (induction c ps arbitrary: j t rule: join_with.induct)
  case (1 c)
  then show ?case by simp
next
  case (2 c part)
  then show ?case by simp
next
  case (3 c part p ps)
  then show ?case by (cases j) (simp_all add: algebra_simps)
qed

definition dump_lines :: "bytes \<Rightarrow> nat" where
  "dump_lines data = (length data + 15) div 16"

lemma dump_lines_step:
  assumes "data \<noteq> []"
  shows "dump_lines data = Suc (dump_lines (drop 16 data))"
proof (cases "16 \<le> length data")
  case True
  then obtain k where "length data = 16 + k" using le_Suc_ex by blast
  then show ?thesis by (simp add: dump_lines_def)
next
  case False
  moreover from assms have "0 < length data" by simp
  ultimately have "(length data + 15) div 16 = 1" by (intro div_nat_eqI) (simp_all add: Suc_le_eq)
  with False show ?thesis by (simp add: dump_lines_def)
qed

lemma sint_add_16: "sint (a :: i32) + 16 < 2 ^ 31 \<Longrightarrow> sint (a + 16) = sint a + 16"
proof -
  assume "sint a + 16 < 2 ^ 31"
  then have "sint (word_of_int (sint a + 16) :: i32) = sint a + 16"
    using sint_ge [of a] by (intro word_of_int_values(2)) simp_all
  then show ?thesis by simp
qed

lemma hexdump_loop_lines:
  "\<not> ovf \<or> sint a + 16 * int (dump_lines data) < 2 ^ 31 \<Longrightarrow>
     hexdump_loop ovf a data = Ok (concat (map (\<lambda>i. hexdump_line (a + of_nat (16 * i)) (take 16 (drop (16 * i) data)))
       [0..<dump_lines data]))"
proof (induction ovf a data rule: hexdump_loop.induct)
  case (1 ovf a data)
  show ?case
  proof (cases "data = []")
    case True
    then show ?thesis by (simp add: hexdump_loop.simps dump_lines_def)
  next
    case False
    note n = dump_lines_step [OF False]
    have i: "\<not> (ovf \<and> \<not> in_i32 (sint a + 16))"
      using "1.prems" n sint_ge [of a] by (auto simp: in_i32_def)
    have "\<not> ovf \<or> sint (a + 16) + 16 * int (dump_lines (drop 16 data)) < 2 ^ 31"
      using "1.prems" n sint_add_16 [of a] by auto
    note IH = "1.IH" [OF False i this]
    have "map (\<lambda>i. hexdump_line (a + 16 + of_nat (16 * i)) (take 16 (drop (16 * i) (drop 16 data))))
          [0..<m] = map (\<lambda>i. hexdump_line (a + of_nat (16 * i)) (take 16 (drop (16 * i) data))) [Suc 0..<Suc m]" for m
      unfolding map_Suc_upt [symmetric] map_map by (simp add: comp_def algebra_simps)
    then show ?thesis
      using False i by (simp add: hexdump_loop.simps [of ovf a data] IH n upt_conv_Cons del: upt_Suc)
  qed
qed

lemma hexdump_line_columns:
  assumes "length ln \<le> 16" and "j < length ln" and "unat a < 2 ^ 24"
  shows "take 2 (drop (10 + 3 * j) (hexdump_line a ln)) = fmt_hex False 2 (unat (ln ! j))"
    and "drop 60 (hexdump_line a ln) = println (map printable ln)"
proof -
  define cols where "cols = map (\<lambda>b. fmt_hex False 2 (unat b)) ln"
  have cols: "list_all (\<lambda>p. length p = 2) cols" by (simp add: cols_def list_all_iff)
  have addr: "length (fmt_addr a @ bytes_of '': '') = 10"
    using assms(3) by (simp add: fmt_addr_def length_fmt_hex bytes_of_def)
  define rest where "rest = concat (replicate (16 - length ln) (bytes_of ''   '')) @ bytes_of '' | ''"
  have line: "hexdump_line a ln = (fmt_addr a @ bytes_of '': '') @ join_with 32 cols @ rest @ println (map printable ln)"
    by (simp add: hexdump_line_def cols_def rest_def println_def)
  show "take 2 (drop (10 + 3 * j) (hexdump_line a ln)) = fmt_hex False 2 (unat (ln ! j))"
  proof -
    have "drop 10 (hexdump_line a ln) = join_with 32 cols @ (rest @ println (map printable ln))"
      using addr by (simp add: line)
    then have "take 2 (drop (3 * j) (drop 10 (hexdump_line a ln))) = cols ! j"
      using column_join_with [OF cols, of j 32 "rest @ println (map printable ln)"] assms(2) by (simp add: cols_def)
    then show ?thesis using assms(2) by (simp add: cols_def add.commute)
  qed
  have "length (join_with 32 cols) = 3 * length ln - 1"
    using length_join_with [OF cols, of 32] assms(2) by (auto simp: cols_def)
  then have "length (join_with 32 cols) + length rest = 50"
    using assms(1,2) by (simp add: rest_def length_concat sum_list_replicate bytes_of_def)
  then show "drop 60 (hexdump_line a ln) = println (map printable ln)"
    using addr by (simp add: line)
qed

text \<open>
  A hex dump has one line for every 16 bytes. In each line the byte with number \<open>j\<close> stands as two
  hexadecimal digits in column \<open>10 + 3j\<close>, and the text column begins in column 60 of every line,
  also of a last line with fewer bytes.
\<close>

theorem hexdump_readable:
  assumes "length data < 2 ^ 24" and "i < dump_lines data" and "j < length (take 16 (drop (16 * i) data))"
    and "ln = hexdump_line (of_nat (16 * i)) (take 16 (drop (16 * i) data))"
  shows "hexdump ovf data = Ok (println (concat (map
      (\<lambda>i. hexdump_line (of_nat (16 * i)) (take 16 (drop (16 * i) data))) [0..<dump_lines data]))) \<and>
    take 2 (drop (10 + 3 * j) ln) = fmt_hex False 2 (unat (data ! (16 * i + j))) \<and>
    drop 60 ln = println (map printable (take 16 (drop (16 * i) data)))"
proof -
  have n: "16 * dump_lines data \<le> length data + 15" by (simp add: dump_lines_def)
  with assms(1,2) have "unat (of_nat (16 * i) :: i32) < 2 ^ 24"
    by (subst unat_of_nat_lt) simp_all
  note cols = hexdump_line_columns [OF _ assms(3) this]
  have "\<not> ovf \<or> sint (0 :: i32) + 16 * int (dump_lines data) < 2 ^ 31"
    using n assms(1) by simp
  note lines = hexdump_loop_lines [OF this]
  have "drop (16 * i) data ! j = data ! (16 * i + j)" using assms(3) by (intro nth_drop) auto
  then show ?thesis
    unfolding hexdump_def lines using cols assms(3) by (simp add: assms(4) add.commute)
qed

theorem hexdump_readable_witness:
  "hexdump True [65, 0] = Ok (println (hexdump_line 0 [65, 0])) \<and>
    take 2 (drop 13 (hexdump_line 0 [65, 0])) = [48, 48] \<and> drop 60 (hexdump_line 0 [65, 0]) = [65, 46, 10]"
  using hexdump_readable [of "[65, 0]" 0 1 "hexdump_line 0 [65, 0]" True]
  by (simp add: dump_lines_def printable_def println_def fmt_hex_def show_hex.simps pad_left_def hex_digit_def)

section \<open>GUIDs\<close>

text \<open>The upper-case form of a text of lower-case hexadecimal digits.\<close>

definition upper_hex :: "u8 \<Rightarrow> u8" where
  "upper_hex b = (if 97 \<le> unat b \<and> unat b \<le> 102 then b - 32 else b)"

lemma fmt_hex_step:
  assumes "0 < k" and "n < 16 ^ Suc k"
  shows "fmt_hex u (Suc k) n = fmt_hex u k (n div 16) @ [hex_digit u (n mod 16)]"
proof (cases "n < 16")
  case True
  moreover have "replicate k (48 :: u8) = replicate (k - 1) 48 @ [48]"
    using assms(1) by (cases k) (simp_all add: replicate_append_same)
  ultimately show ?thesis
    by (simp add: fmt_hex_def pad_left_def show_hex.simps [of u n] show_hex.simps [of u 0] hex_digit_def)
next
  case False
  with assms(2) show ?thesis
    by (simp add: fmt_hex_def pad_left_def show_hex.simps [of u n])
qed

lemma upper_hex_digit:
  assumes "d < 16"
  shows "upper_hex (if d < 10 then of_nat (48 + d) else of_nat (87 + d)) = hex_digit True d"
proof -
  have "list_all (\<lambda>d. upper_hex (if d < 10 then of_nat (48 + d) else of_nat (87 + d)) = hex_digit True d) [0..<16]"
    by (simp add: upt_conv_Cons upper_hex_def hex_digit_def)
  with assms show ?thesis by (simp add: list_all_iff)
qed

lemma fmt_hex_pad: "0 < k \<Longrightarrow> n < 16 ^ k \<Longrightarrow> fmt_hex True k n = map upper_hex (hex_pad k n)"
proof (induction k arbitrary: n)
  case 0
  then show ?case by simp
next
  case (Suc k)
  show ?case
  proof (cases "k = 0")
    case True
    with Suc.prems show ?thesis
      using upper_hex_digit [of n] by (simp add: fmt_hex_def pad_left_def show_hex.simps Let_def)
  next
    case False
    moreover from Suc.prems have "n div 16 < 16 ^ k" by (simp add: less_mult_imp_div_less mult.commute)
    ultimately show ?thesis
      using Suc upper_hex_digit [of "n mod 16"] by (simp add: fmt_hex_step Let_def)
  qed
qed

lemma hex_pad_bytes: "hex_pad (2 * length xs) (le_val (rev xs)) = concat (map (\<lambda>b. hex_pad 2 (unat b)) xs)"
proof (induction xs rule: rev_induct)
  case Nil
  then show ?case by simp
next
  case (snoc b xs)
  have "unat b div 16 div 16 = 0" by (simp add: div_mult2_eq [symmetric])
  then have "(unat b + 256 * m) mod 16 = unat b mod 16" "(unat b + 256 * m) div 16 mod 16 = unat b div 16 mod 16"
    "(unat b + 256 * m) div 16 div 16 = m" for m
    using mod_mult_self2 [of "unat b" 16 "16 * m"] div_mult_self2 [of 16 "unat b" "16 * m"]
      mod_mult_self2 [of "unat b div 16" 16 m] div_mult_self2 [of 16 "unat b div 16" m]
    by (simp_all add: mult.assoc [symmetric])
  with snoc show ?case by (simp add: numeral_2_eq_2)
qed

text \<open>
  The two GUID formats of the repository agree: the tool prints a GUID as the library does,
  in upper case.
\<close>

theorem guid_formats_agree:
  assumes "length g = 16"
  shows "format_guid g = Ok (map upper_hex (guid_text g))"
proof -
  have w: "fmt_hex True 8 (unat x) = map upper_hex (hex_pad 8 (unat x))"
    "fmt_hex True 4 (unat y) = map upper_hex (hex_pad 4 (unat y))" for x :: u32 and y :: u16
    using unat_lt [of x] unat_lt [of y] by (intro fmt_hex_pad; simp)+
  have t: "fmt_hex True 4 (le_val (rev (take 2 (drop 8 g)))) = map upper_hex (hex_pad 4 (le_val (rev (take 2 (drop 8 g)))))"
    "fmt_hex True 12 (le_val (rev (take 6 (drop 10 g)))) = map upper_hex (hex_pad 12 (le_val (rev (take 6 (drop 10 g)))))"
    using le_val_bound [of "rev (take 2 (drop 8 g))"] le_val_bound [of "rev (take 6 (drop 10 g))"] assms
    by (intro fmt_hex_pad; simp)+
  have "hex_pad 4 (le_val (rev (take 2 (drop 8 g)))) = concat (map (\<lambda>b. hex_pad 2 (unat b)) (take 2 (drop 8 g)))"
    "hex_pad 12 (le_val (rev (take 6 (drop 10 g)))) = concat (map (\<lambda>b. hex_pad 2 (unat b)) (drop 10 g))"
    using hex_pad_bytes [of "take 2 (drop 8 g)"] hex_pad_bytes [of "take 6 (drop 10 g)"] assms by simp_all
  moreover have "upper_hex 45 = 45" by (simp add: upper_hex_def)
  ultimately show ?thesis
    unfolding format_guid_def guid_text_def w t using assms by simp
qed

theorem guid_formats_agree_witness:
  "format_guid (replicate 16 0xAB) = Ok (map upper_hex (guid_text (replicate 16 0xAB)))"
  by (rule guid_formats_agree) simp

section \<open>Targets\<close>

text \<open>What the documentation of \<open>\d\<close> promises for ASCII characters.\<close>

definition ascii_digits :: "(nat \<Rightarrow> bool) \<Rightarrow> bool" where
  "ascii_digits is_nd \<longleftrightarrow> (\<forall>c<128. is_nd c \<longleftrightarrow> 48 \<le> c \<and> c \<le> 57)"

definition chars_of :: "bytes \<Rightarrow> nat list" where
  "chars_of b = map unat b"

definition number_text :: "u16 option \<Rightarrow> nat list" where
  "number_text v = (case v of None \<Rightarrow> [] | Some p \<Rightarrow> 58 # chars_of (show_nat (unat p)))"

definition target_text :: "target \<Rightarrow> nat list" where
  "target_text t = tg_host t @ number_text (tg_port t) @
     (if tg_netid t = None \<and> tg_amsport t = None then []
      else 47 # (case tg_netid t of None \<Rightarrow> [] | Some n \<Rightarrow> chars_of (netid_display n)) @ number_text (tg_amsport t))"

definition wf_target :: "target \<Rightarrow> bool" where
  "wf_target t \<longleftrightarrow> tg_host t \<noteq> [] \<and> list_all (\<lambda>c. c \<noteq> 58 \<and> c \<noteq> 47) (tg_host t)"

lemma of_nat_chars [simp]: "map of_nat (chars_of b) = b"
  by (induction b) (simp_all add: chars_of_def)

lemma chars_of_Nil [simp]: "chars_of b = [] \<longleftrightarrow> b = []"
  by (simp add: chars_of_def)

lemma show_nat_nd: "ascii_digits is_nd \<Longrightarrow> list_all is_nd (chars_of (show_nat n))"
  by (auto simp: list_all_iff chars_of_def ascii_digits_def dest!: show_nat_digits)

lemma takeWhile_all_stop:
  "list_all P xs \<Longrightarrow> ys = [] \<or> \<not> P (hd ys) \<Longrightarrow> takeWhile P (xs @ ys) = xs \<and> dropWhile P (xs @ ys) = ys"
  by (induction xs) (cases ys; auto)+

lemma opt_number_text:
  assumes "ascii_digits is_nd" and "s = [] \<or> hd s = 47"
  shows "opt_number is_nd (number_text v @ s) = (map_option (\<lambda>p. chars_of (show_nat (unat p))) v, s)"
proof (cases v)
  case None
  with assms(2) show ?thesis by (cases s) (auto simp: number_text_def opt_number_def)
next
  case (Some p)
  have "s = [] \<or> \<not> is_nd (hd s)" using assms by (auto simp: ascii_digits_def)
  then have "takeWhile is_nd (chars_of (show_nat (unat p)) @ s) = chars_of (show_nat (unat p)) \<and>
      dropWhile is_nd (chars_of (show_nat (unat p)) @ s) = s"
    by (rule takeWhile_all_stop [OF show_nat_nd [OF assms(1)]])
  with Some show ?thesis by (simp add: number_text_def opt_number_def)
qed

lemma expect_u16_show [simp]: "expect_u16 (map_option (\<lambda>p. chars_of (show_nat (unat p))) v) = Ok v"
proof (cases v)
  case (Some p)
  have "list_all (\<lambda>c. c < 128) (chars_of (show_nat (unat p)))"
    by (auto simp: list_all_iff chars_of_def dest!: show_nat_digits)
  moreover have "unat p \<le> 65535" using unat_lt [of p] by simp
  ultimately show ?thesis using Some by (simp add: expect_u16_def)
qed (simp add: expect_u16_def)

lemma netid_display_chars: "list_all is_netid_char (chars_of (netid_display n))" "netid_display n \<noteq> []"
proof -
  have "set (netid_display n) \<subseteq> insert 46 (\<Union> (set ` (\<lambda>b. show_nat (unat b)) ` set (netid_bytes n)))"
    using join_with_set [of 46 "map (\<lambda>b. show_nat (unat b)) (netid_bytes n)"] by (simp add: netid_display_def)
  then show "list_all is_netid_char (chars_of (netid_display n))"
    by (fastforce simp: list_all_iff chars_of_def is_netid_char_def dest!: show_nat_digits)
  show "netid_display n \<noteq> []"
    by (cases n) (simp add: netid_display_def)
qed

lemma number_text_stops: "\<not> P 58 \<Longrightarrow> s = [] \<or> \<not> P (hd s) \<Longrightarrow>
    number_text v @ s = [] \<or> \<not> P (hd (number_text v @ s))"
  by (cases v) (auto simp: number_text_def)

lemma rx_captures_text:
  assumes "ascii_digits is_nd" and "wf_target t"
  shows "rx_captures is_nd (target_text t) =
    Some (tg_host t, map_option (\<lambda>p. chars_of (show_nat (unat p))) (tg_port t),
      map_option (\<lambda>n. chars_of (netid_display n)) (tg_netid t),
      map_option (\<lambda>p. chars_of (show_nat (unat p))) (tg_amsport t))"
proof -
  let ?P = "\<lambda>c. c \<noteq> 58 \<and> c \<noteq> (47 :: nat)"
  define nid where "nid = (case tg_netid t of None \<Rightarrow> [] | Some n \<Rightarrow> chars_of (netid_display n))"
  define rest where "rest = (if tg_netid t = None \<and> tg_amsport t = None then [] else 47 # nid @ number_text (tg_amsport t))"
  have rest: "rest = [] \<or> hd rest = 47" by (simp add: rest_def)
  have parts: "target_text t = tg_host t @ number_text (tg_port t) @ rest"
    by (simp add: target_text_def rest_def nid_def)
  have "number_text (tg_port t) @ rest = [] \<or> \<not> ?P (hd (number_text (tg_port t) @ rest))"
    using rest by (intro number_text_stops) auto
  then have host: "takeWhile ?P (target_text t) = tg_host t \<and> dropWhile ?P (target_text t) = number_text (tg_port t) @ rest"
    unfolding parts using assms(2) by (intro takeWhile_all_stop) (simp_all add: wf_target_def)
  have nid: "list_all is_netid_char nid" "nid = [] \<longleftrightarrow> tg_netid t = None"
    using netid_display_chars by (auto simp: nid_def split: option.splits)
  have "number_text (tg_amsport t) @ [] = [] \<or> \<not> is_netid_char (hd (number_text (tg_amsport t) @ []))"
    by (rule number_text_stops) (simp_all add: is_netid_char_def)
  then have "takeWhile is_netid_char (nid @ number_text (tg_amsport t)) = nid \<and>
      dropWhile is_netid_char (nid @ number_text (tg_amsport t)) = number_text (tg_amsport t)"
    by (intro takeWhile_all_stop [OF nid(1)]) simp
  then show ?thesis
    using assms(2) host opt_number_text [OF assms(1) rest] opt_number_text [OF assms(1), of "[]" "tg_amsport t"] nid(2)
    by (cases "tg_netid t") (auto simp: rx_captures_def Let_def wf_target_def rest_def nid_def)
qed

text \<open>
  A target written as \<open>host[:port][/netid[:amsport]]\<close> is parsed back to the same target, whatever
  parts are present and whatever the digits of other scripts are.
\<close>

theorem target_text_parses:
  assumes "ascii_digits is_nd" and "wf_target t"
  shows "target_from_str is_nd (target_text t) = Ok t"
  by (cases "tg_netid t") (simp_all add: target_from_str_def rx_captures_text [OF assms])

theorem target_text_parses_witness:
  "target_from_str (\<lambda>c. 48 \<le> c \<and> c \<le> 57) (chars_of (bytes_of ''plc'') @ [58, 55] @ [47, 58, 56]) =
    Ok \<lparr>tg_host = chars_of (bytes_of ''plc''), tg_port = Some 7, tg_netid = None, tg_amsport = Some 8\<rparr>"
  using target_text_parses [of "\<lambda>c. 48 \<le> c \<and> c \<le> 57"
      "\<lparr>tg_host = chars_of (bytes_of ''plc''), tg_port = Some 7, tg_netid = None, tg_amsport = Some 8\<rparr>"]
  by (simp add: ascii_digits_def wf_target_def target_text_def number_text_def chars_of_def bytes_of_def show_nat.simps)

lemma parse_digits_too_big: "mx < n \<Longrightarrow> parse_digits mx 0 (show_nat n) = None"
proof (induction n rule: show_nat.induct)
  case (1 n)
  show ?case
  proof (cases "n < 10")
    case True
    with "1.prems" show ?thesis by (simp add: show_nat.simps [of n])
  next
    case False
    have "parse_digits mx 0 (show_nat (n div 10)) = (if mx < n div 10 then None else Some (n div 10))"
      using "1.IH" [OF False] parse_digits_show [of "n div 10" mx] by auto
    with "1.prems" False show ?thesis by (simp add: show_nat.simps [of n] parse_digits_append)
  qed
qed

lemma parse_uint_too_big: "mx < n \<Longrightarrow> parse_uint mx (show_nat n) = None"
proof -
  assume n: "mx < n"
  obtain b r where br: "show_nat n = b # r" by (cases "show_nat n") auto
  then have "b \<noteq> 43" using show_nat_digits [of b n] by auto
  with br parse_digits_too_big [OF n] show ?thesis by (simp add: parse_uint_def)
qed

text \<open>A port that is a number, but too big, makes the parser panic.\<close>

theorem target_port_panics:
  assumes "ascii_digits is_nd" and "65535 < n" and "host \<noteq> []" and "list_all (\<lambda>c. c \<noteq> 58 \<and> c \<noteq> 47) host"
  shows "target_from_str is_nd (host @ 58 # chars_of (show_nat n)) = Panic"
proof -
  have h: "takeWhile (\<lambda>c. c \<noteq> 58 \<and> c \<noteq> 47) (host @ 58 # chars_of (show_nat n)) = host \<and>
      dropWhile (\<lambda>c. c \<noteq> 58 \<and> c \<noteq> 47) (host @ 58 # chars_of (show_nat n)) = 58 # chars_of (show_nat n)"
    by (rule takeWhile_all_stop [OF assms(4)]) simp
  have "opt_number is_nd (58 # chars_of (show_nat n)) = (Some (chars_of (show_nat n)), [])"
    using show_nat_nd [OF assms(1), of n]
    by (simp add: opt_number_def list_all_iff takeWhile_eq_all_conv [THEN iffD2] dropWhile_eq_Nil_conv [THEN iffD2])
  with h assms(3) have "rx_captures is_nd (host @ 58 # chars_of (show_nat n)) =
      Some (host, Some (chars_of (show_nat n)), None, None)"
    by (simp add: rx_captures_def Let_def)
  then show ?thesis
    by (simp add: target_from_str_def expect_u16_def parse_uint_too_big [OF assms(2)])
qed

end
