(* ===== verification/Ads_Tool.thy ===== *)
theory Ads_Tool
  imports Ads_Tool_Data Ads_Udp Ads_File
begin

text \<open>
  The commands of the tool (\<open>connect\<close> and \<open>main_inner\<close> of \<open>examples/adstool.rs\<close>). A command runs on a
  connection and a standard output; errors end it, and what was printed before stays printed.
  Standard input, the crates for XML and dates, lower-casing and the order of a hash map are
  parameters. Standard output never fails.
\<close>

section \<open>Arguments\<close>

record add_route_args =
  ar_addr :: rstring
  ar_netid :: ams_netid
  ar_routename :: "rstring option"
  ar_password :: rstring
  ar_username :: rstring
  ar_temporary :: bool

datatype route_action = RouteAdd add_route_args | RouteList

datatype file_action = FileList bytes | FileRead bytes | FileWrite bytes bool | FileDelete bytes

datatype license_action = Platformid | Systemid | Volumeno | Modules

datatype raw_action =
    RawRead u32 u32 "nat option" "var_type option" bool
  | RawWrite u32 u32
  | RawWriteRead u32 u32 "nat option" "var_type option" bool

datatype var_action =
    VarList "rstring option"
  | VarListTypes "rstring option"
  | VarRead rstring "var_type option" "nat option" bool
  | VarWrite rstring "rstring option" "var_type option"

record exec_args =
  ex_program :: rstring
  ex_workingdir :: "rstring option"
  ex_args :: "rstring list"

datatype cmd =
    Info
  | TargetDesc
  | Route route_action
  | File file_action
  | License license_action
  | State "ads_state option"
  | Raw raw_action
  | Var var_action
  | Exec exec_args

section \<open>Connecting\<close>

text \<open>What a host answers: over UDP, and to the set-up of a connection.\<close>

record 'sa host_env =
  he_udp :: "nat list \<Rightarrow> u16 \<Rightarrow> udp_env"
  he_os :: "nat list \<Rightarrow> u16 \<Rightarrow> 'sa os_env"

definition is_local_host :: "nat list \<Rightarrow> bool" where
  "is_local_host host \<longleftrightarrow> host = chars_of (bytes_of ''127.0.0.1'') \<or> host = chars_of (bytes_of ''localhost'')"

definition with_default :: "'a option \<Rightarrow> 'a \<Rightarrow> 'a" where
  "with_default v d = (case v of Some x \<Rightarrow> x | None \<Rightarrow> d)"

definition connect_client :: "'sa host_env \<Rightarrow> target \<Rightarrow> u16 \<Rightarrow> (client \<times> ams_addr) res" where
  "connect_client env t defport =
     rbind (case tg_netid t of Some n \<Rightarrow> Ok n | None \<Rightarrow> get_netid (he_udp env (tg_host t) UDP_PORT)) (\<lambda>target_netid.
     let amsaddr = AmsAddr target_netid (with_default (tg_amsport t) defport);
         src = (if is_local_host (tg_host t) then Request else Auto)
     in rmap (\<lambda>cl. (cl, amsaddr))
          (client_new (he_os env (tg_host t) (with_default (tg_port t) PORT)) timeouts_none src))"

text \<open>The end of a client: its handles are deleted, an opened port is given back to the router.\<close>

definition close_client :: "'w net \<Rightarrow> 'w conn \<Rightarrow> 'w" where
  "close_client net s =
     (case client_drop (communicate net) s of
        (Ok (Some msg), (_, w)) \<Rightarrow> snd (net w msg)
      | (_, (_, w)) \<Rightarrow> w)"

definition route_failed_text :: bytes where
  "route_failed_text = println (bytes_of ''Device info failed, trying to set a route...'')"

definition ip_text :: "ams_netid \<Rightarrow> rstring" where
  "ip_text n = join_with 46 (map (\<lambda>b. show_nat (unat b)) (take 4 (netid_bytes n)))"

text \<open>
  With \<open>autoroute\<close> a connection is probed. When the probe fails with an I/O error, a route is set and a
  second connection made, without another probe; \<open>env'\<close> is what the host answers then. The first
  client ends with this. The result comes with the state of the network and the printed text.
\<close>

definition connect ::
  "bool \<Rightarrow> 'sa host_env \<Rightarrow> 'sa host_env \<Rightarrow> 'w net \<Rightarrow> target \<Rightarrow> bool \<Rightarrow> u16 \<Rightarrow> 'w \<Rightarrow>
     (client \<times> ams_addr) res \<times> 'w \<times> bytes" where
  "connect ovf env env' net t autoroute defport w =
     (case connect_client env t defport of
        Err e \<Rightarrow> (Err e, w, [])
      | Panic \<Rightarrow> (Panic, w, [])
      | Ok (cl, amsaddr) \<Rightarrow>
          if \<not> autoroute then (Ok (cl, amsaddr), w, [])
          else
            (case get_info (communicate net) (device_addr cl amsaddr) (cl, w) of
               (Err (Io _ _), (cl', w')) \<Rightarrow>
                 ((case add_route ovf (he_udp env (tg_host t) UDP_PORT) (netid (source cl')) (ip_text (netid (source cl')))
                      None None None True of
                     Err e \<Rightarrow> Err e
                   | Panic \<Rightarrow> Panic
                   | Ok () \<Rightarrow> connect_client env' t defport), close_client net (cl', w'), route_failed_text)
             | (Panic, (cl', w')) \<Rightarrow> (Panic, close_client net (cl', w'), [])
             | (_, (cl', w')) \<Rightarrow> (Ok (cl', amsaddr), w', [])))"

section \<open>Running on a connection\<close>

type_synonym ('w, 'a) tool = "('w conn \<times> bytes, 'a, tool_error) io"

definition out :: "bytes \<Rightarrow> ('w, unit) tool" where
  "out t s = (Ok (), (fst s, snd s @ t))"

text \<open>An operation on the connection, with the conversion of its errors.\<close>

definition on_dev :: "('e \<Rightarrow> tool_error) \<Rightarrow> ('w conn, 'a, 'e) io \<Rightarrow> ('w, 'a) tool" where
  "on_dev conv m s = (case map_err conv m (fst s) of (r, c) \<Rightarrow> (r, (c, snd s)))"

abbreviation dev :: "('w, 'a) op \<Rightarrow> ('w, 'a) tool" where
  "dev \<equiv> on_dev Lib"

text \<open>\<open>print\<close> what can panic while it is computed.\<close>

definition out_res :: "(bytes, tool_error) outcome \<Rightarrow> ('w, unit) tool" where
  "out_res r = ibind (ilift r) out"

section \<open>Routes\<close>

definition route_flags_text :: "u32 \<Rightarrow> bytes" where
  "route_flags_text flags =
     (if has_flag flags 1 then bytes_of '' temporary'' else []) @
     (if has_flag flags 0x80 then bytes_of '' unidirectional'' else []) @
     (if has_flag flags 0x100 then bytes_of '' virtual/nat'' else [])"

text \<open>\<open>b[..n - 1]\<close>: a length of 0 underflows, and panics also where that wraps.\<close>

definition slice_before_nul :: "bytes \<Rightarrow> nat \<Rightarrow> (bytes, 'e) outcome" where
  "slice_before_nul b n = (if n = 0 then Panic else slice_of b 0 (n - 1))"

definition route_entry :: "bytes \<Rightarrow> (bytes, 'e) outcome" where
  "route_entry routeinfo =
     (case netid_from_slice (take 6 routeinfo) of
        None \<Rightarrow> Panic
      | Some nid \<Rightarrow>
          let flags = le_u32 (take 4 (drop 8 routeinfo));
              hostlen = unat (le_u32 (take 4 (drop 32 routeinfo)));
              namelen = unat (le_u32 (take 4 (drop 36 routeinfo)))
          in rbind (slice_before_nul (drop 44 routeinfo) hostlen) (\<lambda>host.
             rbind (slice_of routeinfo (44 + hostlen) (length routeinfo)) (\<lambda>tail.
             rbind (slice_before_nul tail namelen) (\<lambda>name.
             Ok (println (pad_right 20 (utf8_lossy name) @ bytes_of '' '' @ netid_display nid @ bytes_of '' '' @
                   pad_right 18 (utf8_lossy host) @ route_flags_text flags))))))"

definition route_header :: bytes where
  "route_header = println (pad_right 20 (bytes_of ''Name'') @ bytes_of '' '' @ pad_right 22 (bytes_of ''NetID'') @
     bytes_of '' '' @ pad_right 18 (bytes_of ''Host/IP'') @ bytes_of '' Flags'')"

definition route_short_text :: "u32 \<Rightarrow> bytes" where
  "route_short_text subindex =
     println (bytes_of ''Route entry '' @ show_nat (unat subindex) @ bytes_of '' too short'')"

text \<open>\<open>for subindex in 0..\<close>: the device ends the loop; the counter is trapped at its end or wraps.\<close>

partial_function (option) route_list_loop ::
  "bool \<Rightarrow> 'w comm \<Rightarrow> ams_addr \<Rightarrow> u32 \<Rightarrow> bytes \<Rightarrow> 'w conn \<times> bytes \<Rightarrow>
     (unit tres \<times> ('w conn \<times> bytes)) option" where
  "route_list_loop ovf comm addr subindex routeinfo s =
     (if ovf \<and> subindex = - 1 then Some (Panic, s)
      else case dev_read comm addr ROUTE_LIST subindex routeinfo (fst s) of
             (Err e, c) \<Rightarrow>
               (case e of
                  Ads _ _ n \<Rightarrow> Some (if n = 0x716 then Ok () else Err (Lib e), (c, snd s))
                | _ \<Rightarrow> Some (Err (Lib e), (c, snd s)))
           | (Panic, c) \<Rightarrow> Some (Panic, (c, snd s))
           | (Ok r, c) \<Rightarrow>
               (case (if fst r \<ge> 48 then route_entry (snd r) else Ok (route_short_text subindex)) of
                  Ok t \<Rightarrow> route_list_loop ovf comm addr (subindex + 1) (snd r) (c, snd s @ t)
                | Err e \<Rightarrow> Some (Err e, (c, snd s))
                | Panic \<Rightarrow> Some (Panic, (c, snd s))))"

definition route_list ::
  "bool \<Rightarrow> 'w comm \<Rightarrow> ams_addr \<Rightarrow> 'w conn \<times> bytes \<Rightarrow> (unit tres \<times> ('w conn \<times> bytes)) option" where
  "route_list ovf comm addr s =
     route_list_loop ovf comm addr 0 (replicate 2048 0) (fst s, snd s @ route_header)"

section \<open>System information\<close>

definition version_text :: "nat \<Rightarrow> nat \<Rightarrow> nat \<Rightarrow> bytes" where
  "version_text a b c = show_nat a @ [46] @ show_nat b @ [46] @ show_nat c"

definition info_text :: "sys_info \<Rightarrow> bytes" where
  "info_text info =
     (case si_twincat_version info of (a, b, c) \<Rightarrow>
      case si_os_version info of (platform, major, minor, build, extra) \<Rightarrow>
        println (bytes_of ''NetID: '' @ netid_display (si_netid info)) @
        println (bytes_of ''Hostname: '' @ si_hostname info) @
        println (bytes_of ''TwinCAT version: '' @ version_text (unat a) (unat b) (unat c)) @
        println (bytes_of ''OS version: '' @ bytes_of platform @ bytes_of '' '' @
          version_text (unat major) (unat minor) (unat build) @ bytes_of '' '' @ extra) @
        (if si_fingerprint info \<noteq> [] then println (bytes_of ''Fingerprint: '' @ si_fingerprint info) else []))"

text \<open>The events of the XML reader, and the texts of an element with the path of its names.\<close>

datatype xml_event = XStart bytes | XEnd | XText bytes | XEof | XOther | XError string

fun target_desc_events :: "rstring list \<Rightarrow> xml_event list \<Rightarrow> ('w, unit) tool" where
  "target_desc_events stack [] = iret ()"
| "target_desc_events stack (ev # evs) =
     (case ev of
        XStart name \<Rightarrow>
          target_desc_events
            (if name \<noteq> bytes_of ''TcTargetDesc'' then stack @ [utf8_lossy name] else stack) evs
      | XEnd \<Rightarrow> target_desc_events (butlast stack) evs
      | XText t \<Rightarrow>
          if stack \<noteq> [] then
            ibind (out (println (join_with 46 stack @ bytes_of '': '' @ utf8_lossy t))) (\<lambda>_.
            target_desc_events stack evs)
          else target_desc_events stack evs
      | XEof \<Rightarrow> iret ()
      | XError e \<Rightarrow> ilift (Err (StrE (''error parsing target desc XML: '' @ e)))
      | XOther \<Rightarrow> target_desc_events stack evs)"

definition target_desc :: "(bytes \<Rightarrow> xml_event list) \<Rightarrow> 'w comm \<Rightarrow> ams_addr \<Rightarrow> ('w, unit) tool" where
  "target_desc xml_events comm addr =
     ibind (dev (dev_read comm addr TARGET_DESC 1 (replicate 2048 0))) (\<lambda>(_, xml).
     ibind (target_desc_events [] (xml_events xml)) (\<lambda>_.
     ibind (out (println [])) (\<lambda>_.
     ibind (dev (dev_read comm addr TARGET_DESC 4 xml)) (\<lambda>(n, xml1).
     ibind (out_res (rmap (\<lambda>b. println (bytes_of ''Platform: '' @ utf8_lossy b)) (slice_before_nul xml1 n))) (\<lambda>_.
     ibind (dev (dev_read comm addr TARGET_DESC 7 xml1)) (\<lambda>(n, xml2).
     out_res (rmap (\<lambda>b. println (bytes_of ''Project name: '' @ utf8_lossy b)) (slice_before_nul xml2 n))))))))"

section \<open>Files\<close>

definition dir_entry_text :: "dir_entry \<Rightarrow> bytes" where
  "dir_entry_text e = (case e of (name, attr, sz) \<Rightarrow>
     println ((if has_flag attr DIRECTORY then bytes_of ''D'' else bytes_of '' '') @ bytes_of '' '' @
       pad_left 32 8 (show_nat (unat sz)) @ bytes_of '' '' @ utf8_lossy name))"

definition file_list ::
  "'w comm \<Rightarrow> ams_addr \<Rightarrow> bytes \<Rightarrow> 'w conn \<times> bytes \<Rightarrow> (unit tres \<times> ('w conn \<times> bytes)) option" where
  "file_list comm addr path s =
     (case listdir comm addr path (fst s) of
        None \<Rightarrow> None
      | Some (r, c) \<Rightarrow>
          Some (case r of
            Ok entries \<Rightarrow> (Ok (), (c, snd s @ concat (map dir_entry_text entries)))
          | Err e \<Rightarrow> (Err (Lib e), (c, snd s))
          | Panic \<Rightarrow> (Panic, (c, snd s))))"

text \<open>
  \<open>std::io::copy\<close> from a file to standard output: read until a read returns nothing; an interrupted
  read is repeated; a count beyond the buffer panics. The buffer has a size of the library's choice.
\<close>

record io_params =
  ip_text_of :: "io_error \<Rightarrow> string"
  ip_interrupted :: "io_error \<Rightarrow> bool"
  ip_bufsize :: nat

partial_function (option) copy_to_stdout ::
  "io_params \<Rightarrow> 'w comm \<Rightarrow> ams_addr \<Rightarrow> u32 \<Rightarrow> bytes \<Rightarrow> 'w conn \<times> bytes \<Rightarrow>
     (unit tres \<times> ('w conn \<times> bytes)) option" where
  "copy_to_stdout ps comm addr hdl buf s =
     (case file_read (ip_text_of ps) comm addr hdl buf (fst s) of
        (Ok r, c) \<Rightarrow>
          if fst r > length (snd r) then Some (Panic, (c, snd s))
          else if fst r = 0 then Some (Ok (), (c, snd s))
          else copy_to_stdout ps comm addr hdl (snd r) (c, snd s @ take (fst r) (snd r))
      | (Err e, c) \<Rightarrow>
          if ip_interrupted ps e then copy_to_stdout ps comm addr hdl buf (c, snd s)
          else Some (Err (IoE e), (c, snd s))
      | (Panic, c) \<Rightarrow> Some (Panic, (c, snd s)))"

text \<open>The value is dropped at the end of its scope, whatever the outcome.\<close>

definition drop_after :: "('w, unit) op \<Rightarrow> 'a tres \<times> ('w conn \<times> bytes) \<Rightarrow> 'a tres \<times> ('w conn \<times> bytes)" where
  "drop_after d x = (fst x, (snd (d (fst (snd x))), snd (snd x)))"

definition file_read_cmd ::
  "io_params \<Rightarrow> 'w comm \<Rightarrow> ams_addr \<Rightarrow> bytes \<Rightarrow> 'w conn \<times> bytes \<Rightarrow> (unit tres \<times> ('w conn \<times> bytes)) option" where
  "file_read_cmd ps comm addr path s =
     (case dev (file_open comm addr path (READ OR BINARY OR ENSURE_DIR)) s of
        (Ok hdl, s') \<Rightarrow>
          map_option (drop_after (file_drop comm addr hdl))
            (copy_to_stdout ps comm addr hdl (replicate (ip_bufsize ps) 0) s')
      | (Err e, s') \<Rightarrow> Some (Err e, s')
      | (Panic, s') \<Rightarrow> Some (Panic, s'))"

text \<open>Copying from standard input: its chunks, each written in full by one \<open>write\<close>, and how it ends.\<close>

fun copy_from_stdin ::
  "io_params \<Rightarrow> 'w comm \<Rightarrow> ams_addr \<Rightarrow> u32 \<Rightarrow> bytes list \<Rightarrow> (unit, io_error) outcome \<Rightarrow> ('w, unit) tool" where
  "copy_from_stdin ps comm addr hdl [] fin = (case fin of Ok _ \<Rightarrow> iret () | Err e \<Rightarrow> ilift (Err (IoE e)) | Panic \<Rightarrow> ilift Panic)"
| "copy_from_stdin ps comm addr hdl (b # bs) fin =
     ibind (on_dev IoE (file_write (ip_text_of ps) comm addr hdl b)) (\<lambda>_. copy_from_stdin ps comm addr hdl bs fin)"

definition file_write_cmd ::
  "io_params \<Rightarrow> 'w comm \<Rightarrow> ams_addr \<Rightarrow> bytes \<Rightarrow> bool \<Rightarrow> bytes list \<Rightarrow> (unit, io_error) outcome \<Rightarrow> ('w, unit) tool" where
  "file_write_cmd ps comm addr path appending chunks fin s =
     (let flag = (if appending then APPEND else WRITE) in
      case dev (file_open comm addr path (flag OR BINARY OR PLUS OR ENSURE_DIR)) s of
        (Ok hdl, s') \<Rightarrow> drop_after (file_drop comm addr hdl) (copy_from_stdin ps comm addr hdl chunks fin s')
      | (Err e, s') \<Rightarrow> (Err e, s')
      | (Panic, s') \<Rightarrow> (Panic, s'))"

definition file_delete_cmd :: "'w comm \<Rightarrow> ams_addr \<Rightarrow> bytes \<Rightarrow> ('w, unit) tool" where
  "file_delete_cmd comm addr path = dev (file_delete comm addr path ENABLE_DIR)"

section \<open>State and licenses\<close>

primrec ads_state_name :: "ads_state \<Rightarrow> string" where
  "ads_state_name Invalid = ''Invalid''"
| "ads_state_name Idle = ''Idle''"
| "ads_state_name Reset = ''Reset''"
| "ads_state_name Init = ''Init''"
| "ads_state_name Start = ''Start''"
| "ads_state_name Run = ''Run''"
| "ads_state_name Stop = ''Stop''"
| "ads_state_name SaveCfg = ''SaveCfg''"
| "ads_state_name LoadCfg = ''LoadCfg''"
| "ads_state_name PowerFail = ''PowerFail''"
| "ads_state_name PowerGood = ''PowerGood''"
| "ads_state_name Error = ''Error''"
| "ads_state_name Shutdown = ''Shutdown''"
| "ads_state_name Suspend = ''Suspend''"
| "ads_state_name Resume = ''Resume''"
| "ads_state_name Config = ''Config''"
| "ads_state_name Reconfig = ''Reconfig''"
| "ads_state_name Stopping = ''Stopping''"
| "ads_state_name Incompatible = ''Incompatible''"
| "ads_state_name Exception = ''Exception''"

definition state_cmd :: "'w comm \<Rightarrow> ams_addr \<Rightarrow> ads_state option \<Rightarrow> ('w, unit) tool" where
  "state_cmd comm addr target_state =
     ibind (dev (get_info comm addr)) (\<lambda>info.
     ibind (out (println (bytes_of ''Device: '' @ di_name info @ bytes_of '' '' @
         version_text (unat (di_major info)) (unat (di_minor info)) (unat (di_version info))))) (\<lambda>_.
     ibind (dev (get_state comm addr)) (\<lambda>(state, dev_state).
     ibind (out (println (bytes_of ''Current state: '' @ bytes_of (ads_state_name state)))) (\<lambda>_.
     case target_state of
       None \<Rightarrow> iret ()
     | Some newstate \<Rightarrow>
         ibind (out (println (bytes_of ''Set new state: '' @ bytes_of (ads_state_name newstate)))) (\<lambda>_.
         dev (write_control comm addr newstate dev_state))))))"

text \<open>One module of 0x30 bytes; dates are printed by a parameter.\<close>

definition module_text :: "(int \<Rightarrow> 'd option) \<Rightarrow> ('d \<Rightarrow> bytes) \<Rightarrow> bytes \<Rightarrow> (bytes, 'e) outcome" where
  "module_text from_timestamp show_date m =
     (let expires = le_u64 (take 8 (drop 0x10 m));
          inst_total = le_u32 (take 4 (drop 0x18 m));
          inst_used = le_u32 (take 4 (drop 0x1C m))
      in rbind (format_guid (take 0x10 m)) (\<lambda>guid.
         Ok (println (bytes_of ''ID: '' @ guid) @
             (case convert_filetime from_timestamp expires of
                Some d \<Rightarrow> println (bytes_of ''    Expires: '' @ show_date d) | None \<Rightarrow> []) @
             (if inst_total \<noteq> 0
              then println (bytes_of ''    Instances used: '' @ show_nat (unat inst_used) @ [47] @ show_nat (unat inst_total))
              else []))))"

fun modules_text :: "(int \<Rightarrow> 'd option) \<Rightarrow> ('d \<Rightarrow> bytes) \<Rightarrow> nat \<Rightarrow> nat \<Rightarrow> bytes \<Rightarrow> (bytes, 'e) outcome" where
  "modules_text ft sd i 0 data = Ok []"
| "modules_text ft sd i (Suc k) data =
     rbind (module_text ft sd (take 0x30 (drop (0x30 * i) data))) (\<lambda>t.
     rmap (\<lambda>ts. t @ ts) (modules_text ft sd (Suc i) k data))"

definition license_cmd ::
  "(int \<Rightarrow> 'd option) \<Rightarrow> ('d \<Rightarrow> bytes) \<Rightarrow> 'w comm \<Rightarrow> ams_addr \<Rightarrow> license_action \<Rightarrow> ('w, unit) tool" where
  "license_cmd ft sd comm addr object =
     (case object of
        Platformid \<Rightarrow>
          ibind (dev (read_exact comm addr LICENSE 2 (replicate 2 0))) (\<lambda>b. out (println (show_nat (unat (le_u16 b)))))
      | Systemid \<Rightarrow>
          ibind (dev (read_exact comm addr LICENSE 1 (replicate 16 0))) (\<lambda>b. out_res (rmap println (format_guid b)))
      | Volumeno \<Rightarrow>
          ibind (dev (read_exact comm addr LICENSE 5 (replicate 4 0))) (\<lambda>b. out (println (show_nat (unat (le_u32 b)))))
      | Modules \<Rightarrow>
          ibind (dev (read_exact comm addr LICENSE_MODULES 0 (replicate 4 0))) (\<lambda>count.
          let nmodules = unat (le_u32 count) in
          ibind (dev (read_exact comm addr LICENSE_MODULES 0 (replicate (0x30 * nmodules) 0))) (\<lambda>data.
          out_res (modules_text ft sd 0 nmodules data))))"

section \<open>Raw access\<close>

definition print_data :: "bool \<Rightarrow> bool \<Rightarrow> bytes \<Rightarrow> ('w, unit) tool" where
  "print_data ovf hex data = (if hex then out_res (hexdump ovf data) else out data)"

definition raw_read ::
  "bool \<Rightarrow> parsers \<Rightarrow> 'w comm \<Rightarrow> ams_addr \<Rightarrow> u32 \<Rightarrow> u32 \<Rightarrow> nat option \<Rightarrow> var_type option \<Rightarrow> bool \<Rightarrow> ('w, unit) tool" where
  "raw_read ovf ps comm addr grp ofs len typ hex =
     (case len of
        Some n \<Rightarrow>
          ibind (dev (dev_read comm addr grp ofs (replicate n 0))) (\<lambda>(nread, read_data).
          ibind (ilift (slice_of read_data 0 nread)) (print_data ovf hex))
      | None \<Rightarrow>
          (case typ of
             Some t \<Rightarrow>
               ibind (dev (read_exact comm addr grp ofs (replicate (var_size t) 0))) (\<lambda>read_data.
               out_res (print_read_value ps t read_data hex))
           | None \<Rightarrow> iret ()))"

definition raw_write :: "'w comm \<Rightarrow> ams_addr \<Rightarrow> u32 \<Rightarrow> u32 \<Rightarrow> (bytes, io_error) outcome \<Rightarrow> ('w, unit) tool" where
  "raw_write comm addr grp ofs stdin =
     ibind (on_dev IoE (ilift stdin)) (\<lambda>write_data. dev (dev_write comm addr grp ofs write_data))"

definition raw_write_read ::
  "bool \<Rightarrow> parsers \<Rightarrow> 'w comm \<Rightarrow> ams_addr \<Rightarrow> u32 \<Rightarrow> u32 \<Rightarrow> nat option \<Rightarrow> var_type option \<Rightarrow> bool \<Rightarrow>
     (bytes, io_error) outcome \<Rightarrow> ('w, unit) tool" where
  "raw_write_read ovf ps comm addr grp ofs len typ hex stdin =
     ibind (on_dev IoE (ilift stdin)) (\<lambda>write_data.
     case len of
       Some n \<Rightarrow>
         ibind (dev (write_read comm addr grp ofs write_data (replicate n 0))) (\<lambda>(nread, read_data).
         ibind (ilift (slice_of read_data 0 nread)) (print_data ovf hex))
     | None \<Rightarrow>
         (case typ of
            Some t \<Rightarrow>
              ibind (dev (write_read_exact comm addr grp ofs write_data (replicate (var_size t) 0))) (\<lambda>read_data.
              out_res (print_read_value ps t read_data hex))
          | None \<Rightarrow> iret ()))"

section \<open>Variables\<close>

definition spaces :: "nat \<Rightarrow> bytes" where
  "spaces n = replicate n 32"

definition attribute_text :: "nat \<Rightarrow> attribute \<Rightarrow> bytes" where
  "attribute_text indent a =
     println (spaces (12 + indent) @ bytes_of ''@'' @ attr_name a @ bytes_of '' = '' @ attr_value a)"

definition field_line :: "u32 \<Rightarrow> field \<Rightarrow> nat \<Rightarrow> bytes" where
  "field_line absolute f level =
     println (spaces 5 @ pad_left 32 6 (show_hex False (unat absolute)) @ bytes_of '' ('' @
       pad_left 32 6 (show_hex False (fd_size f)) @ bytes_of '') '' @ spaces (2 * level) @ bytes_of ''.'' @
       pad_right (39 - 2 * level) (fd_name f) @ bytes_of '' '' @ fd_typ f)"

definition field_attributes_text :: "field \<Rightarrow> nat \<Rightarrow> bytes" where
  "field_attributes_text f level =
     (case fd_attributes f of
        None \<Rightarrow> [] | Some attrs \<Rightarrow> concat (map (attribute_text (2 * (level + 1))) attrs))"

text \<open>
  The fields of a type and, one level deeper, the fields of their types. The width of a column,
  \<open>39 - 2 * level\<close>, underflows from level 20 on; where that wraps, the width is beyond what
  formatting accepts. Both panic, which also ends the recursion for a type that contains itself.
\<close>

function print_fields :: "bool \<Rightarrow> type_map \<Rightarrow> u32 \<Rightarrow> rstring \<Rightarrow> nat \<Rightarrow> (bytes, 'e) outcome"
  and print_field_list :: "bool \<Rightarrow> type_map \<Rightarrow> u32 \<Rightarrow> field list \<Rightarrow> nat \<Rightarrow> (bytes, 'e) outcome"
where
  "print_fields ovf tm base_offset typ level =
     (case tm typ of None \<Rightarrow> Ok [] | Some t \<Rightarrow> print_field_list ovf tm base_offset (ty_fields t) level)"
| "print_field_list ovf tm base_offset [] level = Ok []"
| "print_field_list ovf tm base_offset (f # fs) level =
     (case fd_offset f of
        None \<Rightarrow> print_field_list ovf tm base_offset fs level
      | Some offset \<Rightarrow>
          if ovf \<and> unat base_offset + unat offset \<ge> 2 ^ 32 then Panic
          else if level \<ge> 20 then Panic
          else
            rbind (print_fields ovf tm (base_offset + offset) (fd_typ f) (level + 1)) (\<lambda>inner.
            rbind (print_field_list ovf tm base_offset fs level) (\<lambda>rest.
            Ok (field_line (base_offset + offset) f level @ field_attributes_text f level @ inner @ rest))))"
  by pat_completeness auto
termination
  by (relation "measures [\<lambda>x. 20 - (case x of Inl (_, _, _, _, l) \<Rightarrow> l | Inr (_, _, _, _, l) \<Rightarrow> l),
      \<lambda>x. (case x of Inl _ \<Rightarrow> 1 | Inr _ \<Rightarrow> 0),
      \<lambda>x. (case x of Inl _ \<Rightarrow> 0 | Inr (_, _, _, fs, _) \<Rightarrow> length fs)]") auto

declare print_fields.simps [simp del]

text \<open>\<open>str::contains\<close> for a text.\<close>

definition contains :: "rstring \<Rightarrow> rstring \<Rightarrow> bool" where
  "contains s pat = list_ex (\<lambda>i. take (length pat) (drop i s) = pat) [0..<length s + 1]"

definition symbol_line :: "symbol \<Rightarrow> bytes" where
  "symbol_line y =
     println (pad_left 32 4 (show_hex False (unat (sy_ix_group y))) @ bytes_of '':'' @
       pad_left 32 6 (show_hex False (unat (sy_ix_offset y))) @ bytes_of '' ('' @
       pad_left 32 6 (show_hex False (sy_size y)) @ bytes_of '') '' @ pad_right 40 (sy_name y) @ bytes_of '' '' @ sy_typ y)"

fun list_symbols :: "bool \<Rightarrow> (rstring \<Rightarrow> rstring) \<Rightarrow> type_map \<Rightarrow> rstring \<Rightarrow> symbol list \<Rightarrow> ('w, unit) tool" where
  "list_symbols ovf lower tm filt [] = iret ()"
| "list_symbols ovf lower tm filt (y # ys) =
     ibind (if contains (lower (sy_name y)) filt
            then ibind (out (symbol_line y)) (\<lambda>_. out_res (print_fields ovf tm (sy_ix_offset y) (sy_typ y) 1))
            else iret ()) (\<lambda>_. list_symbols ovf lower tm filt ys)"

definition list_variables ::
  "bool \<Rightarrow> (rstring \<Rightarrow> rstring) \<Rightarrow> 'w comm \<Rightarrow> ams_addr \<Rightarrow> rstring option \<Rightarrow> ('w, unit) tool" where
  "list_variables ovf lower comm addr filt =
     ibind (dev (get_symbol_info ovf comm addr)) (\<lambda>(symbols, tm).
     list_symbols ovf lower tm (lower (with_default filt [])) symbols)"

definition join_text :: "bytes \<Rightarrow> bytes list \<Rightarrow> bytes" where
  "join_text sep ts = (case ts of [] \<Rightarrow> [] | t # ts' \<Rightarrow> t @ concat (map (\<lambda>x. sep @ x) ts'))"

definition method_text :: "rpc_method \<Rightarrow> bytes" where
  "method_text m =
     println (spaces 12 @ bytes_of ''Method: '' @ rm_name m @ bytes_of ''('' @
       join_text (bytes_of '', '') (map (\<lambda>p. rp_name p @ bytes_of '': '' @ rp_typ p @ bytes_of '' ['' @
          bytes_of (variable_kind_as_str (rp_variable_kind p)) @ bytes_of '']'') (rm_parameters m)) @ bytes_of '')'' @
       (if rm_return_type m = [] then [] else bytes_of '' -> '' @ rm_return_type m)) @
     (if rm_comment m = [] then [] else println (spaces 14 @ bytes_of ''Comment: '' @ rm_comment m)) @
     concat (map (attribute_text 2) (rm_attributes m))"

definition type_text :: "rstring \<Rightarrow> sym_type \<Rightarrow> bytes" where
  "type_text name t =
     println (bytes_of ''**          ('' @ pad_left 32 6 (show_hex False (ty_size t)) @ bytes_of '') '' @ pad_right 40 name) @
     (case ty_guid t of Some g \<Rightarrow> println (spaces 12 @ bytes_of ''GUID: '' @ g) | None \<Rightarrow> []) @
     (if ty_comment t = [] then [] else println (spaces 12 @ bytes_of ''Comment: '' @ ty_comment t)) @
     (if ty_array t = [] then []
      else println (spaces 12 @ bytes_of ''Array: '' @
        concat (map (\<lambda>(lo, hi). [91] @ show_int (sint lo) @ bytes_of ''..'' @ show_int (sint hi) @ [93]) (ty_array t)))) @
     (case ty_attributes t of Some as \<Rightarrow> concat (map (attribute_text 0) as) | None \<Rightarrow> []) @
     (case ty_enum_info t of
        Some es \<Rightarrow> concat (map (\<lambda>e. println (spaces 12 @ bytes_of ''Enum: '' @ ei_name e @ bytes_of '' = '' @
          show_int (sint (ei_value e)))) es)
      | None \<Rightarrow> []) @
     (case ty_methods t of Some ms \<Rightarrow> concat (map method_text ms) | None \<Rightarrow> [])"

fun list_type_entries ::
  "bool \<Rightarrow> (rstring \<Rightarrow> rstring) \<Rightarrow> type_map \<Rightarrow> rstring \<Rightarrow> (rstring \<times> sym_type) list \<Rightarrow> ('w, unit) tool" where
  "list_type_entries ovf lower tm filt [] = iret ()"
| "list_type_entries ovf lower tm filt ((name, t) # ts) =
     ibind (if contains (lower name) filt
            then ibind (out (type_text name t)) (\<lambda>_. out_res (print_fields ovf tm 0 name 1))
            else iret ()) (\<lambda>_. list_type_entries ovf lower tm filt ts)"

text \<open>The iteration order of the hash map is a parameter.\<close>

definition list_types ::
  "bool \<Rightarrow> (rstring \<Rightarrow> rstring) \<Rightarrow> (type_map \<Rightarrow> (rstring \<times> sym_type) list) \<Rightarrow> 'w comm \<Rightarrow> ams_addr \<Rightarrow>
     rstring option \<Rightarrow> ('w, unit) tool" where
  "list_types ovf lower order comm addr filt =
     ibind (dev (get_symbol_info ovf comm addr)) (\<lambda>(_, tm).
     list_type_entries ovf lower tm (lower (with_default filt [])) (order tm))"

text \<open>A handle lives until the end of the command and is then released.\<close>

definition with_handle :: "'w comm \<Rightarrow> ams_addr \<Rightarrow> rstring \<Rightarrow> (u32 \<Rightarrow> ('w, unit) tool) \<Rightarrow> ('w, unit) tool" where
  "with_handle comm addr name body s =
     (case dev (handle_new comm addr name) s of
        (Ok h, s') \<Rightarrow> drop_after (handle_drop comm addr h) (body h s')
      | (Err e, s') \<Rightarrow> (Err e, s')
      | (Panic, s') \<Rightarrow> (Panic, s'))"

definition var_read ::
  "bool \<Rightarrow> parsers \<Rightarrow> 'w comm \<Rightarrow> ams_addr \<Rightarrow> rstring \<Rightarrow> var_type option \<Rightarrow> nat option \<Rightarrow> bool \<Rightarrow> ('w, unit) tool" where
  "var_read ovf ps comm addr name typ len hex =
     with_handle comm addr name (\<lambda>h.
       case typ of
         Some t \<Rightarrow>
           ibind (dev (handle_read comm addr h (replicate (var_size t) 0))) (\<lambda>read_data.
           out_res (print_read_value ps t read_data hex))
       | None \<Rightarrow>
           ibind (case len of Some l \<Rightarrow> iret l | None \<Rightarrow> dev (get_size comm addr name)) (\<lambda>n.
           ibind (dev (handle_read comm addr h (replicate n 0))) (print_data ovf hex)))"

definition var_write ::
  "parsers \<Rightarrow> 'w comm \<Rightarrow> ams_addr \<Rightarrow> rstring \<Rightarrow> rstring option \<Rightarrow> var_type option \<Rightarrow> (bytes, io_error) outcome \<Rightarrow>
     ('w, unit) tool" where
  "var_write ps comm addr name val typ stdin =
     with_handle comm addr name (\<lambda>h.
       case typ of
         Some t \<Rightarrow>
           ibind (ilift (case val of Some v \<Rightarrow> get_write_value ps t v | None \<Rightarrow> Panic)) (\<lambda>write_data.
           dev (handle_write comm addr h write_data))
       | None \<Rightarrow>
           ibind (on_dev IoE (ilift stdin)) (\<lambda>write_data. dev (handle_write comm addr h write_data)))"

section \<open>Execution\<close>

definition exec_data :: "exec_args \<Rightarrow> bytes" where
  "exec_data a =
     (let workingdir = with_default (ex_workingdir a) [];
          args = join_with 32 (ex_args a)
      in u32_le (of_nat (length (ex_program a))) @ u32_le (of_nat (length workingdir)) @ u32_le (of_nat (length args)) @
         ex_program a @ [0] @ workingdir @ [0] @ args @ [0])"

definition exec_cmd :: "'w comm \<Rightarrow> ams_addr \<Rightarrow> exec_args \<Rightarrow> ('w, unit) tool" where
  "exec_cmd comm addr a = dev (dev_write comm addr EXECUTE 0 (exec_data a))"

section \<open>The commands\<close>

record 'd tool_params =
  tp_io :: io_params
  tp_parsers :: parsers
  tp_lower :: "rstring \<Rightarrow> rstring"
  tp_order :: "type_map \<Rightarrow> (rstring \<times> sym_type) list"
  tp_xml :: "bytes \<Rightarrow> xml_event list"
  tp_from_timestamp :: "int \<Rightarrow> 'd option"
  tp_show_date :: "'d \<Rightarrow> bytes"
  tp_stdin :: "(bytes, io_error) outcome"
  tp_stdin_chunks :: "bytes list \<times> (unit, io_error) outcome"

text \<open>The port a command talks to when the target names none; two commands need no connection.\<close>

fun default_port :: "cmd \<Rightarrow> u16 option" where
  "default_port Info = None"
| "default_port (Route (RouteAdd _)) = None"
| "default_port (License _) = Some LICENSE_SERVER"
| "default_port (Raw _) = Some TC3_PLC_SYSTEM1"
| "default_port (Var _) = Some TC3_PLC_SYSTEM1"
| "default_port _ = Some SYSTEM_SERVICE"

fun run_cmd ::
  "bool \<Rightarrow> 'd tool_params \<Rightarrow> 'w comm \<Rightarrow> ams_addr \<Rightarrow> cmd \<Rightarrow> 'w conn \<times> bytes \<Rightarrow>
     (unit tres \<times> ('w conn \<times> bytes)) option" where
  "run_cmd ovf tp comm addr (Route RouteList) s = route_list ovf comm addr s"
| "run_cmd ovf tp comm addr TargetDesc s = Some (target_desc (tp_xml tp) comm addr s)"
| "run_cmd ovf tp comm addr (File (FileList path)) s = file_list comm addr path s"
| "run_cmd ovf tp comm addr (File (FileRead path)) s = file_read_cmd (tp_io tp) comm addr path s"
| "run_cmd ovf tp comm addr (File (FileWrite path app)) s =
     Some (file_write_cmd (tp_io tp) comm addr path app (fst (tp_stdin_chunks tp)) (snd (tp_stdin_chunks tp)) s)"
| "run_cmd ovf tp comm addr (File (FileDelete path)) s = Some (file_delete_cmd comm addr path s)"
| "run_cmd ovf tp comm addr (State st) s = Some (state_cmd comm addr st s)"
| "run_cmd ovf tp comm addr (License obj) s =
     Some (license_cmd (tp_from_timestamp tp) (tp_show_date tp) comm addr obj s)"
| "run_cmd ovf tp comm addr (Raw (RawRead grp ofs len typ hex)) s =
     Some (raw_read ovf (tp_parsers tp) comm addr grp ofs len typ hex s)"
| "run_cmd ovf tp comm addr (Raw (RawWrite grp ofs)) s = Some (raw_write comm addr grp ofs (tp_stdin tp) s)"
| "run_cmd ovf tp comm addr (Raw (RawWriteRead grp ofs len typ hex)) s =
     Some (raw_write_read ovf (tp_parsers tp) comm addr grp ofs len typ hex (tp_stdin tp) s)"
| "run_cmd ovf tp comm addr (Var (VarList filt)) s = Some (list_variables ovf (tp_lower tp) comm addr filt s)"
| "run_cmd ovf tp comm addr (Var (VarListTypes filt)) s =
     Some (list_types ovf (tp_lower tp) (tp_order tp) comm addr filt s)"
| "run_cmd ovf tp comm addr (Var (VarRead name typ len hex)) s =
     Some (var_read ovf (tp_parsers tp) comm addr name typ len hex s)"
| "run_cmd ovf tp comm addr (Var (VarWrite name val typ)) s =
     Some (var_write (tp_parsers tp) comm addr name val typ (tp_stdin tp) s)"
| "run_cmd ovf tp comm addr (Exec a) s = Some (exec_cmd comm addr a s)"
| "run_cmd ovf tp comm addr _ s = Some (Ok (), s)"

text \<open>The commands over UDP.\<close>

definition udp_cmd :: "bool \<Rightarrow> udp_env \<Rightarrow> cmd \<Rightarrow> (bytes, tool_error) outcome" where
  "udp_cmd ovf env c =
     (case c of
        Route (RouteAdd a) \<Rightarrow>
          (case add_route ovf env (ar_netid a) (ar_addr a) (ar_routename a) (Some (ar_username a))
              (Some (ar_password a)) (ar_temporary a) of
             Ok _ \<Rightarrow> Ok (println (bytes_of ''Success.'')) | Err e \<Rightarrow> Err (Lib e) | Panic \<Rightarrow> Panic)
      | Info \<Rightarrow>
          (case udp_get_info env of Ok info \<Rightarrow> Ok (info_text info) | Err e \<Rightarrow> Err (Lib e) | Panic \<Rightarrow> Panic)
      | _ \<Rightarrow> Ok [])"

text \<open>The client of a command ends with it, also when the command fails or panics.\<close>

definition main_inner ::
  "bool \<Rightarrow> 'd tool_params \<Rightarrow> 'sa host_env \<Rightarrow> 'sa host_env \<Rightarrow> 'w net \<Rightarrow> target \<Rightarrow> bool \<Rightarrow> cmd \<Rightarrow> 'w \<Rightarrow>
     (unit tres \<times> 'w \<times> bytes) option" where
  "main_inner ovf tp env env' net t autoroute c w =
     (case default_port c of
        None \<Rightarrow>
          Some (case udp_cmd ovf (he_udp env (tg_host t) (with_default (tg_port t) UDP_PORT)) c of
                  Ok o' \<Rightarrow> (Ok (), w, o') | Err e \<Rightarrow> (Err e, w, []) | Panic \<Rightarrow> (Panic, w, []))
      | Some defport \<Rightarrow>
          (case connect ovf env env' net t autoroute defport w of
             (Err e, w', o') \<Rightarrow> Some (Err (Lib e), w', o')
           | (Panic, w', o') \<Rightarrow> Some (Panic, w', o')
           | (Ok (cl, amsaddr), w', o') \<Rightarrow>
               map_option (\<lambda>(r, (s', o'')). (r, close_client net s', o''))
                 (run_cmd ovf tp (communicate net) (device_addr cl amsaddr) c ((cl, w'), o'))))"

text \<open>
  The arguments as \<open>clap\<close> has parsed them, and \<open>main\<close>: the exit status, the text on standard error,
  the network, the printed text. A panic ends the process with status 101; its message is left out.
\<close>

record args =
  ag_cmd :: cmd
  ag_autoroute :: bool
  ag_target :: target

primrec tool_error_display :: "(io_error \<Rightarrow> string) \<Rightarrow> tool_error \<Rightarrow> string" where
  "tool_error_display io_text (Lib e) = error_display io_text e"
| "tool_error_display io_text (IoE e) = io_text e"
| "tool_error_display io_text (StrE t) = t"

definition tool_main ::
  "bool \<Rightarrow> 'd tool_params \<Rightarrow> (io_error \<Rightarrow> string) \<Rightarrow> 'sa host_env \<Rightarrow> 'sa host_env \<Rightarrow> 'w net \<Rightarrow> args \<Rightarrow> 'w \<Rightarrow>
     (nat \<times> bytes \<times> 'w \<times> bytes) option" where
  "tool_main ovf tp io_text env env' net a w =
     map_option (\<lambda>(r, w', o').
         (case r of
            Ok _ \<Rightarrow> (0, [], w', o')
          | Err e \<Rightarrow> (1, println (bytes_of (''Error: '' @ tool_error_display io_text e)), w', o')
          | Panic \<Rightarrow> (101, [], w', o')))
       (main_inner ovf tp env env' net (ag_target a) (ag_autoroute a) (ag_cmd a) w)"

section \<open>Properties\<close>

text \<open>Types whose inline fields nest at most \<open>d\<close> levels deep.\<close>

primrec nests :: "type_map \<Rightarrow> nat \<Rightarrow> rstring \<Rightarrow> bool" where
  "nests tm 0 n \<longleftrightarrow> (case tm n of None \<Rightarrow> True | Some t \<Rightarrow> list_all (\<lambda>f. fd_offset f = None) (ty_fields t))"
| "nests tm (Suc d) n \<longleftrightarrow>
     (case tm n of None \<Rightarrow> True | Some t \<Rightarrow> list_all (\<lambda>f. fd_offset f = None \<or> nests tm d (fd_typ f)) (ty_fields t))"

lemma nests_alt:
  "nests tm d n \<longleftrightarrow> (case tm n of None \<Rightarrow> True | Some t \<Rightarrow>
     list_all (\<lambda>f. fd_offset f = None \<or> 0 < d \<and> nests tm (d - 1) (fd_typ f)) (ty_fields t))"
  by (cases d) (simp_all split: option.split)

lemma print_fields_ok:
  shows "\<not> ovf \<Longrightarrow> level \<le> 20 \<Longrightarrow>
      is_ok (print_fields ovf tm base n level :: (bytes, 'e) outcome) \<longleftrightarrow> nests tm (20 - level) n"
    and "\<not> ovf \<Longrightarrow> level \<le> 20 \<Longrightarrow>
      is_ok (print_field_list ovf tm base fs level :: (bytes, 'e) outcome) \<longleftrightarrow>
      list_all (\<lambda>f. fd_offset f = None \<or> level < 20 \<and> nests tm (19 - level) (fd_typ f)) fs"
proof (induction ovf tm base n level and ovf tm base fs level rule: print_fields_print_field_list.induct [where 'a = 'e])
  case (1 ovf tm base n level)
  then show ?case
    by (auto simp: print_fields.simps nests_alt [of tm "20 - level"] split: option.split)
next
  case (2 ovf tm base level)
  then show ?case by simp
next
  case (3 ovf tm base f fs level)
  show ?case
  proof (cases "fd_offset f")
    case None
    then show ?thesis using 3 by simp
  next
    case (Some ofs)
    have r: "is_ok (rbind r (\<lambda>x. rbind r' (\<lambda>y. Ok (g x y)))) \<longleftrightarrow> is_ok r \<and> is_ok r'"
      for r r' :: "(bytes, 'e) outcome" and g :: "bytes \<Rightarrow> bytes \<Rightarrow> bytes"
      by (cases r; cases r') simp_all
    let ?p = "print_fields ovf tm (base + ofs) (fd_typ f) (level + 1) :: (bytes, 'e) outcome"
    show ?thesis
    proof (cases "level < 20")
      case False
      then show ?thesis using Some "3.prems" by simp
    next
      case True
      then have p: "is_ok ?p \<longleftrightarrow> nests tm (19 - level) (fd_typ f)"
        using 3(2) [OF Some] "3.prems" by simp
      have "is_ok (print_field_list ovf tm base fs level :: (bytes, 'e) outcome) \<longleftrightarrow>
          list_all (\<lambda>f. fd_offset f = None \<or> level < 20 \<and> nests tm (19 - level) (fd_typ f)) fs" if "is_ok ?p"
        using that 3(3) [OF Some] True "3.prems" by (auto simp: is_ok_iff)
      with p True show ?thesis using Some "3.prems" by (auto simp: r)
    qed
  qed
qed

lemma nests_self:
  "tm n = Some t \<Longrightarrow> list_ex (\<lambda>f. fd_offset f \<noteq> None \<and> fd_typ f = n) (ty_fields t) \<Longrightarrow> \<not> nests tm d n"
  by (induction d) (auto simp: list_ex_iff list_all_iff)

text \<open>
  C40. The listing of the fields of a type always ends, and in a build without overflow checks, where the
  sum of the offsets wraps, it succeeds exactly when the inline fields nest less than 20 levels deep; so a type
  that contains itself cannot be listed.
\<close>

theorem print_fields_succeeds_iff:
  assumes "level \<le> 20"
  shows "(is_ok (print_fields False tm base n level :: (bytes, error) outcome) \<longleftrightarrow> nests tm (20 - level) n) \<and>
    (case tm n of None \<Rightarrow> True
     | Some t \<Rightarrow> list_ex (\<lambda>f. fd_offset f \<noteq> None \<and> fd_typ f = n) (ty_fields t) \<longrightarrow>
         \<not> is_ok (print_fields False tm base n level :: (bytes, error) outcome))"
  using assms nests_self [of tm n _ "20 - level"] by (simp add: print_fields_ok split: option.split)

definition demo_struct :: "rstring \<Rightarrow> rstring \<Rightarrow> sym_type" where
  "demo_struct name inner =
     \<lparr>ty_name = name, ty_type_name = [], ty_comment = [], ty_size = 4, ty_array = [],
      ty_fields = [\<lparr>fd_name = [97], fd_typ = inner, fd_offset = Some 0, fd_size = 4, fd_array = [], fd_base_type = 65,
        fd_flags = 0, fd_comment = [], fd_attributes = None\<rparr>],
      ty_base_type = 65, ty_flags = 0, ty_guid = None, ty_methods = None, ty_attributes = None, ty_enum_info = None\<rparr>"

theorem print_fields_succeeds_iff_witness:
  "is_ok (print_fields False [[65] \<mapsto> demo_struct [65] [66]] 0 [65] 1 :: (bytes, error) outcome) \<and>
   \<not> is_ok (print_fields False [[65] \<mapsto> demo_struct [65] [65]] 0 [65] 1 :: (bytes, error) outcome)"
proof
  have "nests [[65] \<mapsto> demo_struct [65] [66]] 19 [65]"
    by (simp add: nests_alt [of _ 19] nests_alt [of _ 18] demo_struct_def)
  with print_fields_succeeds_iff [of 1 "[[65] \<mapsto> demo_struct [65] [66]]" 0 "[65]"]
  show "is_ok (print_fields False [[65] \<mapsto> demo_struct [65] [66]] 0 [65] 1 :: (bytes, error) outcome)" by simp
  show "\<not> is_ok (print_fields False [[65] \<mapsto> demo_struct [65] [65]] 0 [65] 1 :: (bytes, error) outcome)"
    using print_fields_succeeds_iff [of 1 "[[65] \<mapsto> demo_struct [65] [65]]" 0 "[65]", THEN conjunct2]
    by (auto simp: demo_struct_def)
qed

text \<open>How a receiver takes the data of an execution request apart: three lengths, three texts, each with a null byte.\<close>

definition exec_parser :: "(rstring \<times> rstring \<times> rstring) parser" where
  "exec_parser =
     pbind (rd_u32 ''exec'') (\<lambda>np. pbind (rd_u32 ''exec'') (\<lambda>nd. pbind (rd_u32 ''exec'') (\<lambda>na.
     pbind (rd_exact ''exec'' (unat np)) (\<lambda>prog. pbind (rd_exact ''exec'' 1) (\<lambda>z1.
     pbind (rd_exact ''exec'' (unat nd)) (\<lambda>dir. pbind (rd_exact ''exec'' 1) (\<lambda>z2.
     pbind (rd_exact ''exec'' (unat na)) (\<lambda>args. pbind (rd_exact ''exec'' 1) (\<lambda>z3.
     if z1 @ z2 @ z3 = [0, 0, 0] then pret (prog, dir, args) else pfail Overflow)))))))))"

text \<open>
  The request to execute a program can be taken apart again: it yields the program, the
  working directory (empty when none was given) and the arguments joined by blanks, and nothing
  is left over.
\<close>

theorem exec_data_decodes:
  assumes "length (ex_program a) < 2 ^ 32" and "length (with_default (ex_workingdir a) []) < 2 ^ 32"
    and "length (join_with 32 (ex_args a)) < 2 ^ 32"
  shows "exec_parser (exec_data a) =
    Ok ((ex_program a, with_default (ex_workingdir a) [], join_with 32 (ex_args a)), [])"
  using assms by (simp add: exec_parser_def exec_data_def Let_def pbind_def rd_exact_def)

theorem exec_data_decodes_witness:
  "exec_parser (exec_data \<lparr>ex_program = [97, 98], ex_workingdir = None, ex_args = [[99], [100, 101]]\<rparr>) =
   Ok (([97, 98], [], [99, 32, 100, 101]), [])"
  using exec_data_decodes [of "\<lparr>ex_program = [97, 98], ex_workingdir = None, ex_args = [[99], [100, 101]]\<rparr>"]
  by (simp add: with_default_def)

end
