(* ===== verification/Ads_Tool_Run.thy ===== *)
theory Ads_Tool_Run
  imports Ads_Tool
begin

text \<open>
  The life of a connection under the command line tool: no command, however it ends, changes the
  identity of its client, so that the end of the client gives an opened port back to the router.
\<close>

section \<open>What operations keep\<close>

text \<open>An operation keeps a view of its state.\<close>

definition keeping :: "('s \<Rightarrow> 'k) \<Rightarrow> ('s, 'a, 'e) io \<Rightarrow> bool" where
  "keeping k m \<longleftrightarrow> (\<forall>s. k (snd (m s)) = k s)"

named_theorems keeps_intros \<open>operations that keep a view of the state\<close>

lemma keepingI: "(\<And>s r s'. m s = (r, s') \<Longrightarrow> k s' = k s) \<Longrightarrow> keeping k m"
  unfolding keeping_def by (metis surjective_pairing)

lemma keepingD: "keeping k m \<Longrightarrow> m s = (r, s') \<Longrightarrow> k s' = k s"
  unfolding keeping_def by (metis snd_conv)

lemma keeping_snd: "keeping k m \<Longrightarrow> k (snd (m s)) = k s"
  by (simp add: keeping_def del: split_paired_All)

lemma keeping_iret [keeps_intros]: "keeping k (iret x)"
  by (simp add: keeping_def iret_def)

lemma keeping_Pair [keeps_intros]: "keeping k (Pair r)"
  by (simp add: keeping_def)

lemma keeping_ilift [keeps_intros]: "keeping k (ilift r)"
  by (simp add: keeping_def ilift_def)

lemma keeping_ibind [keeps_intros]: "keeping k m \<Longrightarrow> (\<And>x. keeping k (f x)) \<Longrightarrow> keeping k (ibind m f)"
  by (rule keepingI) (auto simp: ibind_def split: prod.splits outcome.splits, (metis keepingD)+)

lemma keeping_icatch [keeps_intros]: "keeping k m \<Longrightarrow> (\<And>x. keeping k (f x)) \<Longrightarrow> keeping k (icatch m f)"
  by (rule keepingI) (auto simp: icatch_def split: prod.splits outcome.splits, (metis keepingD)+)

lemma keeping_map_err [keeps_intros]: "keeping k m \<Longrightarrow> keeping k (map_err f m)"
  by (rule keepingI) (auto simp: map_err_def split: prod.splits outcome.splits dest: keepingD)

lemma keeping_case_prod [keeps_intros]: "(\<And>a b. keeping k (f a b)) \<Longrightarrow> keeping k (case p of (a, b) \<Rightarrow> f a b)"
  by (cases p) simp

lemma keeping_case_option [keeps_intros]:
  "keeping k m \<Longrightarrow> (\<And>x. keeping k (f x)) \<Longrightarrow> keeping k (case v of None \<Rightarrow> m | Some x \<Rightarrow> f x)"
  by (cases v) simp_all

lemma keeping_case_outcome [keeps_intros]:
  "(\<And>x. keeping k (f x)) \<Longrightarrow> (\<And>e. keeping k (g e)) \<Longrightarrow> keeping k m \<Longrightarrow>
     keeping k (case r of Ok x \<Rightarrow> f x | Err e \<Rightarrow> g e | Panic \<Rightarrow> m)"
  by (cases r) simp_all

lemma keeping_if [keeps_intros]: "keeping k m \<Longrightarrow> keeping k m' \<Longrightarrow> keeping k (if b then m else m')"
  by simp

section \<open>The identity of a client\<close>

definition identity :: "'w conn \<Rightarrow> (ams_addr \<times> u32) set \<times> ams_addr \<times> bool" where
  "identity s = (notif_handles (fst s), source (fst s), source_port_opened (fst s))"

definition tool_identity :: "'w conn \<times> bytes \<Rightarrow> (ams_addr \<times> u32) set \<times> ams_addr \<times> bool" where
  "tool_identity s = identity (fst s)"

lemma keeping_out [keeps_intros]: "keeping tool_identity (out t)"
  by (simp add: keeping_def out_def tool_identity_def)

lemma keeping_on_dev [keeps_intros]: "keeping identity m \<Longrightarrow> keeping tool_identity (on_dev conv m)"
  by (rule keepingI)
    (auto simp: on_dev_def tool_identity_def split: prod.splits dest!: keepingD [OF keeping_map_err])

lemma keeping_out_res [keeps_intros]: "keeping tool_identity (out_res r)"
  unfolding out_res_def by (intro keeps_intros)

lemma keeping_drop_after:
  "keeping identity d \<Longrightarrow> tool_identity (snd (drop_after d x)) = tool_identity (snd x)"
  by (simp add: keeping_snd drop_after_def tool_identity_def)

text \<open>A resource is opened, used, and released whatever the use results in.\<close>

lemma keeping_bracket:
  assumes "keeping tool_identity m" and "\<And>x. keeping tool_identity (body x)" and "\<And>x. keeping identity (d x)"
  shows "keeping tool_identity (\<lambda>s. case m s of
      (Ok x, s') \<Rightarrow> drop_after (d x) (body x s') | (Err e, s') \<Rightarrow> (Err e, s') | (Panic, s') \<Rightarrow> (Panic, s'))"
  unfolding keeping_def
proof
  fix s
  obtain r s' where m: "m s = (r, s')" by (metis surj_pair)
  with keepingD [OF assms(1) m] show "tool_identity (snd (case m s of
      (Ok x, s') \<Rightarrow> drop_after (d x) (body x s') | (Err e, s') \<Rightarrow> (Err e, s') | (Panic, s') \<Rightarrow> (Panic, s'))) =
    tool_identity s"
    by (cases r) (simp_all add: keeping_drop_after assms(3) keeping_snd [OF assms(2)])
qed

context transport
begin

lemma keeping_comm [keeps_intros]: "keeping identity (comm cmd target ws rs)"
  by (rule keepingI) (use keeps in \<open>auto simp: identity_def\<close>)

lemma keeping_dev_read [keeps_intros]: "keeping identity (dev_read comm addr grp ofs buf)"
  unfolding dev_read_def by (intro keeps_intros)

lemma keeping_read_exact [keeps_intros]: "keeping identity (read_exact comm addr grp ofs buf)"
  unfolding read_exact_def by (intro keeps_intros)

lemma keeping_dev_write [keeps_intros]: "keeping identity (dev_write comm addr grp ofs buf)"
  unfolding dev_write_def by (intro keeps_intros)

lemma keeping_write_read [keeps_intros]: "keeping identity (write_read comm addr grp ofs wbuf rbuf)"
  unfolding write_read_def by (intro keeps_intros)

lemma keeping_write_read_exact [keeps_intros]: "keeping identity (write_read_exact comm addr grp ofs wbuf rbuf)"
  unfolding write_read_exact_def by (intro keeps_intros)

lemma keeping_get_info [keeps_intros]: "keeping identity (get_info comm addr)"
  unfolding get_info_def Let_def by (intro keeps_intros)

lemma keeping_get_state [keeps_intros]: "keeping identity (get_state comm addr)"
  unfolding get_state_def Let_def by (intro keeps_intros)

lemma keeping_write_control [keeps_intros]: "keeping identity (write_control comm addr st ds)"
  unfolding write_control_def by (intro keeps_intros)

lemma keeping_symbol [keeps_intros]:
  "keeping identity (handle_new comm addr name)" "keeping identity (handle_read comm addr h buf)"
  "keeping identity (handle_write comm addr h buf)" "keeping identity (handle_drop comm addr h)"
  "keeping identity (get_size comm addr name)" "keeping identity (get_symbol_info ovf comm addr)"
  unfolding handle_new_def handle_read_def handle_write_def handle_drop_def get_size_def get_symbol_info_def Let_def
  by (intro keeps_intros)+

lemma keeping_file [keeps_intros]:
  "keeping identity (file_open comm addr name flags)" "keeping identity (file_delete comm addr name flags)"
  "keeping identity (file_read io_text comm addr h buf)" "keeping identity (file_write io_text comm addr h buf)"
  "keeping identity (file_drop comm addr h)"
  unfolding file_open_def file_delete_def file_read_def file_write_def file_drop_def
  by (intro keeps_intros)+

end

text \<open>The loops, when they return.\<close>

lemma route_list_loop_identity:
  "route_list_loop ovf comm addr i buf s = Some x \<Longrightarrow> transport comm \<Longrightarrow>
     tool_identity (snd x) = tool_identity s"
proof (induction rule: route_list_loop.raw_induct [rotated, consumes 1, case_names step])
  case (step loop ovf comm addr i buf s x)
  obtain r c where d: "dev_read comm addr ROUTE_LIST i buf (fst s) = (r, c)" by (metis surj_pair)
  have c: "identity c = identity (fst s)" using keepingD [OF transport.keeping_dev_read [OF step(3)] d] .
  have ih: "loop ovf comm addr j b (c, t) = Some x \<Longrightarrow> tool_identity (snd x) = tool_identity s" for j b t
    using step(1,3) c by (fastforce simp: tool_identity_def)
  show ?case
    using step(2) d c ih by (auto simp: tool_identity_def split: if_splits outcome.splits error.splits prod.splits)
qed

lemma listdir_loop_identity:
  "listdir_loop comm addr ofs arg buf files s = Some x \<Longrightarrow> transport comm \<Longrightarrow> identity (snd x) = identity s"
proof (induction rule: listdir_loop.raw_induct [rotated, consumes 1, case_names step])
  case (step loop comm addr ofs arg buf files s x)
  obtain r c where d: "write_read_exact comm addr FILE_BROWSE ofs arg buf s = (r, c)" by (metis surj_pair)
  have c: "identity c = identity s" using keepingD [OF transport.keeping_write_read_exact [OF step(3)] d] .
  have ih: "loop comm addr j a b fs c = Some x \<Longrightarrow> identity (snd x) = identity s" for j a b fs
    using step(1,3) c by fastforce
  show ?case using step(2) d c ih by (auto split: if_splits outcome.splits error.splits prod.splits)
qed

lemma copy_to_stdout_identity:
  "copy_to_stdout ps comm addr h buf s = Some x \<Longrightarrow> transport comm \<Longrightarrow> tool_identity (snd x) = tool_identity s"
proof (induction rule: copy_to_stdout.raw_induct [rotated, consumes 1, case_names step])
  case (step loop ps comm addr h buf s x)
  obtain r c where d: "file_read (ip_text_of ps) comm addr h buf (fst s) = (r, c)" by (metis surj_pair)
  have c: "identity c = identity (fst s)" using keepingD [OF transport.keeping_file(3) [OF step(3)] d] .
  have ih: "loop ps comm addr h b (c, t) = Some x \<Longrightarrow> tool_identity (snd x) = tool_identity s" for b t
    using step(1,3) c by (fastforce simp: tool_identity_def)
  show ?case
    using step(2) d c ih by (auto simp: tool_identity_def split: if_splits outcome.splits prod.splits)
qed

section \<open>Every command\<close>

context transport
begin

lemma keeping_target_desc_events [keeps_intros]: "keeping tool_identity (target_desc_events stack evs)"
  by (induction stack evs rule: target_desc_events.induct) (auto intro!: keeps_intros split: xml_event.split)

lemma keeping_target_desc [keeps_intros]: "keeping tool_identity (target_desc xml comm addr)"
  unfolding target_desc_def by (intro keeps_intros)

lemma keeping_copy_from_stdin [keeps_intros]: "keeping tool_identity (copy_from_stdin ps comm addr h bs fin)"
  by (induction bs) (auto intro!: keeps_intros)

lemma keeping_state_cmd [keeps_intros]: "keeping tool_identity (state_cmd comm addr st)"
  unfolding state_cmd_def by (intro keeps_intros)

lemma keeping_license_cmd [keeps_intros]: "keeping tool_identity (license_cmd ft sd comm addr obj)"
  unfolding license_cmd_def Let_def by (cases obj) (auto intro!: keeps_intros)

lemma keeping_print_data [keeps_intros]: "keeping tool_identity (print_data ovf hex data)"
  unfolding print_data_def by (intro keeps_intros)

lemma keeping_raw [keeps_intros]:
  "keeping tool_identity (raw_read ovf ps comm addr grp ofs len ty hex)"
  "keeping tool_identity (raw_write comm addr grp ofs inp)"
  "keeping tool_identity (raw_write_read ovf ps comm addr grp ofs len ty hex inp)"
  unfolding raw_read_def raw_write_def raw_write_read_def by (intro keeps_intros)+

lemma keeping_list_symbols [keeps_intros]: "keeping tool_identity (list_symbols ovf lower tm filt ys)"
  by (induction ys) (auto intro!: keeps_intros)

lemma keeping_list_type_entries [keeps_intros]: "keeping tool_identity (list_type_entries ovf lower tm filt ts)"
  by (induction ts) (auto intro!: keeps_intros)

lemma keeping_lists [keeps_intros]:
  "keeping tool_identity (list_variables ovf lower comm addr filt)"
  "keeping tool_identity (list_types ovf lower order comm addr filt)"
  unfolding list_variables_def list_types_def by (intro keeps_intros)+

lemma keeping_with_handle [keeps_intros]:
  "(\<And>h. keeping tool_identity (body h)) \<Longrightarrow> keeping tool_identity (with_handle comm addr name body)"
  unfolding with_handle_def [abs_def] by (rule keeping_bracket) (intro keeps_intros | assumption)+

lemma keeping_var [keeps_intros]:
  "keeping tool_identity (var_read ovf ps comm addr name ty len hex)"
  "keeping tool_identity (var_write ps comm addr name val ty inp)"
  unfolding var_read_def var_write_def by (intro keeps_intros)+

lemma keeping_exec_cmd [keeps_intros]: "keeping tool_identity (exec_cmd comm addr a)"
  unfolding exec_cmd_def by (intro keeps_intros)

lemma keeping_file_delete_cmd [keeps_intros]: "keeping tool_identity (file_delete_cmd comm addr path)"
  unfolding file_delete_cmd_def by (intro keeps_intros)

lemma keeping_file_write_cmd [keeps_intros]: "keeping tool_identity (file_write_cmd ps comm addr path app bs fin)"
  unfolding file_write_cmd_def [abs_def] Let_def by (rule keeping_bracket) (intro keeps_intros)+

lemma file_read_cmd_identity:
  assumes "file_read_cmd ps comm addr path s = Some x"
  shows "tool_identity (snd x) = tool_identity s"
proof -
  let ?open = "dev (file_open comm addr path (READ OR BINARY OR ENSURE_DIR))"
  obtain r1 s1 where n: "?open s = (r1, s1)" by (metis surj_pair)
  have "keeping tool_identity ?open" by (intro keeps_intros)
  then have s1: "tool_identity s1 = tool_identity s" using n by (rule keepingD)
  show ?thesis
  proof (cases r1)
    case (Ok h)
    then obtain y where "copy_to_stdout ps comm addr h (replicate (ip_bufsize ps) 0) s1 = Some y"
      and "x = drop_after (file_drop comm addr h) y"
      using assms n by (auto simp: file_read_cmd_def)
    then show ?thesis
      using keeping_drop_after [OF keeping_file(5), of addr h y] copy_to_stdout_identity [OF _ transport_axioms] s1 by simp
  qed (use assms n s1 in \<open>auto simp: file_read_cmd_def\<close>)
qed

lemma file_list_identity:
  "file_list comm addr path s = Some x \<Longrightarrow> tool_identity (snd x) = tool_identity s"
  using listdir_loop_identity [OF _ transport_axioms]
  by (fastforce simp: file_list_def listdir_def tool_identity_def split: option.splits prod.splits outcome.splits)

lemma route_list_identity:
  "route_list ovf comm addr s = Some x \<Longrightarrow> tool_identity (snd x) = tool_identity s"
  using route_list_loop_identity [OF _ transport_axioms] by (simp add: route_list_def tool_identity_def)

lemmas commands_keep =
  keeping_target_desc keeping_file_write_cmd keeping_file_delete_cmd keeping_state_cmd keeping_license_cmd
  keeping_raw keeping_lists keeping_var keeping_exec_cmd

lemma run_cmd_identity:
  "run_cmd ovf tp comm addr c s = Some x \<Longrightarrow> tool_identity (snd x) = tool_identity s"
  by (cases "(ovf, tp, comm, addr, c, s)" rule: run_cmd.cases)
    (auto intro: route_list_identity file_list_identity file_read_cmd_identity commands_keep [THEN keeping_snd])

end

section \<open>The end of the connection\<close>

lemma close_client_eq:
  "notif_handles cl = {} \<Longrightarrow>
     close_client net (cl, w) = (if source_port_opened cl then snd (net w (close_port_msg (source cl))) else w)"
  by (simp add: close_client_def client_drop_def ibind_def)

lemma client_new_eq_Ok:
  assumes "client_new os t src = Ok cl"
  shows "notif_handles cl = {} \<and> source_port_opened cl = (src = Request)"
proof -
  from assms obtain addrs where "ctx (os_resolve os) ''converting address to SocketAddr'' = Ok addrs"
    by (auto simp: client_new_def)
  with assms obtain a opened where "client_source os src = Ok (a, opened)"
    and "notif_handles cl = {}" "source_port_opened cl = opened"
    by (cases addrs) (auto simp: client_new_def)
  then show ?thesis by (auto simp: client_source_def split: source_spec.splits)
qed

lemma connect_client_eq_Ok:
  "connect_client env t defport = Ok (cl, a) \<Longrightarrow>
     notif_handles cl = {} \<and> source_port_opened cl = is_local_host (tg_host t) \<and>
     port a = with_default (tg_amsport t) defport \<and> (\<forall>n. tg_netid t = Some n \<longrightarrow> netid a = n)"
  by (auto simp: connect_client_def Let_def dest!: client_new_eq_Ok split: option.splits if_splits)

lemma connect_eq_Ok:
  assumes "connect ovf env env' net t autoroute defport w = (Ok (cl, a), w', o')"
  shows "notif_handles cl = {} \<and> source_port_opened cl = is_local_host (tg_host t) \<and>
    port a = with_default (tg_amsport t) defport \<and> (\<forall>n. tg_netid t = Some n \<longrightarrow> netid a = n)"
proof (cases "connect_client env t defport")
  case (Ok x)
  obtain cl1 a1 where x: "x = (cl1, a1)" by fastforce
  note fst_ok = connect_client_eq_Ok [OF Ok [unfolded x]]
  obtain r cl2 w2 where g: "get_info (communicate net) (device_addr cl1 a1) (cl1, w) = (r, (cl2, w2))"
    by (metis prod_cases3)
  have "notif_handles cl2 = notif_handles cl1 \<and> source_port_opened cl2 = source_port_opened cl1"
    using keepingD [OF tcp.keeping_get_info g] by (simp add: identity_def)
  then have snd_ok: ?thesis if "cl = cl2" "a = a1" using fst_ok that by simp
  show ?thesis
  proof (cases "autoroute \<and> (\<exists>c e. r = Err (Io c e))")
    case True
    then have "connect_client env' t defport = Ok (cl, a)"
      using assms Ok x g by (auto simp: connect_def split: outcome.splits unit.splits)
    then show ?thesis by (rule connect_client_eq_Ok)
  next
    case False
    have "cl = cl1 \<and> a = a1 \<or> cl = cl2 \<and> a = a1"
    proof (cases r)
      case (Err e)
      then show ?thesis using False assms Ok x g by (cases e) (auto simp: connect_def split: if_splits)
    qed (use assms Ok x g in \<open>auto simp: connect_def split: if_splits\<close>)
    then show ?thesis using fst_ok snd_ok by auto
  qed
qed (use assms in \<open>simp_all add: connect_def\<close>)

text \<open>
  C38. On the local host the tool asks the router for a port. Once it is connected, whatever the command does
  and however it ends, with success, an error or a panic, the last message of the connection gives this
  very port back.
\<close>

theorem local_port_returned:
  assumes "connect ovf env env' (logged net) t autoroute p (w, []) = (Ok (cl, a), w1, o1)"
    and "default_port c = Some p" and "is_local_host (tg_host t)"
    and "main_inner ovf tp env env' (logged net) t autoroute c (w, []) = Some (r, (w', sent), o')"
  shows "\<exists>msgs. sent = msgs @ [close_port_msg (source cl)]"
proof -
  let ?run = "run_cmd ovf tp (communicate (logged net)) (device_addr cl a) c ((cl, w1), o1)"
  from assms(1,2,4) obtain s' where run: "?run = Some (r, (s', o'))"
    and closed: "close_client (logged net) s' = (w', sent)"
    by (auto simp: main_inner_def)
  obtain cl' v l where s': "s' = (cl', (v, l))" by (metis prod_cases3)
  have "notif_handles cl' = {}" "source cl' = source cl" "source_port_opened cl'"
    using tcp.run_cmd_identity [OF run] connect_eq_Ok [OF assms(1)] assms(3)
    by (simp_all add: s' tool_identity_def identity_def)
  with closed show ?thesis by (auto simp: s' close_client_eq logged_def split: prod.splits)
qed

definition demo_host :: "unit host_env" where
  "demo_host = \<lparr>he_udp = (\<lambda>_ _. demo_udp_env), he_os = (\<lambda>_ _. demo_os)\<rparr>"

definition demo_target :: target where
  "demo_target = \<lparr>tg_host = chars_of (bytes_of ''localhost''), tg_port = None, tg_netid = Some netid_local, tg_amsport = None\<rparr>"

definition demo_tool_params :: "unit tool_params" where
  "demo_tool_params = \<lparr>tp_io = \<lparr>ip_text_of = (\<lambda>_. []), ip_interrupted = (\<lambda>_. False), ip_bufsize = 8192\<rparr>,
     tp_parsers = demo_parsers, tp_lower = id, tp_order = (\<lambda>_. []), tp_xml = (\<lambda>_. []), tp_from_timestamp = (\<lambda>_. None),
     tp_show_date = (\<lambda>_. []), tp_stdin = Ok [], tp_stdin_chunks = ([], Ok ())\<rparr>"

lemma demo_connects: "\<exists>cl a. connect_client demo_host demo_target p = Ok (cl, a) \<and> source cl = demo_addr"
proof -
  have "decode_port_reply (0 # 16 # 8 # 0 # 0 # 0 # addr_write_to demo_addr) = Ok demo_addr"
    by (simp add: decode_port_reply_eq_Ok addr_write_to_def)
  then show ?thesis
    by (simp add: connect_client_def demo_host_def demo_target_def client_new_def timeouts_none_def
        demo_os_def start_reader_def is_local_host_def client_source_def Let_def)
qed

theorem local_port_returned_witness:
  "\<exists>r w' msgs o'. main_inner False demo_tool_params demo_host demo_host (logged (\<lambda>w b. (WriteErr (io_of_kind TimedOut), w)))
     demo_target False (State None) ((), []) = Some (r, (w', msgs @ [close_port_msg demo_addr]), o')"
proof -
  let ?net = "\<lambda>w b. (WriteErr (io_of_kind TimedOut), w :: unit)"
  let ?main = "main_inner False demo_tool_params demo_host demo_host (logged ?net) demo_target False (State None) ((), [])"
  obtain cl a where c: "connect False demo_host demo_host (logged ?net) demo_target False SYSTEM_SERVICE ((), []) =
      (Ok (cl, a), ((), []), [])" and src: "source cl = demo_addr"
    using demo_connects [of SYSTEM_SERVICE] by (auto simp: connect_def)
  moreover have local: "is_local_host (tg_host demo_target)" by (simp add: demo_target_def is_local_host_def)
  moreover obtain r w' sent o' where m: "?main = Some (r, (w', sent), o')"
    using c by (cases ?main) (auto simp: main_inner_def)
  ultimately show ?thesis
    using local_port_returned [OF c _ local m] src by auto
qed

section \<open>Courses of the loops\<close>

text \<open>The device answers the reads of a file with some parts of it, and then with no more bytes.\<close>

primrec read_run ::
  "(io_error \<Rightarrow> string) \<Rightarrow> 'w comm \<Rightarrow> ams_addr \<Rightarrow> u32 \<Rightarrow> (nat \<times> bytes) list \<Rightarrow> bytes \<Rightarrow> 'w conn \<Rightarrow> 'w conn \<Rightarrow> bool" where
  "read_run io_text comm addr h [] buf c c' \<longleftrightarrow> (\<exists>b. file_read io_text comm addr h buf c = (Ok (0, b), c'))"
| "read_run io_text comm addr h (x # xs) buf c c' \<longleftrightarrow>
     0 < fst x \<and> fst x \<le> length (snd x) \<and>
     (\<exists>c1. file_read io_text comm addr h buf c = (Ok x, c1) \<and> read_run io_text comm addr h xs (snd x) c1 c')"

definition parts :: "(nat \<times> bytes) list \<Rightarrow> bytes" where
  "parts xs = concat (map (\<lambda>(n, b). take n b) xs)"

lemma copy_to_stdout_run:
  "read_run (ip_text_of ps) comm addr h xs buf c c' \<Longrightarrow>
     copy_to_stdout ps comm addr h buf (c, t) = Some (Ok (), (c', t @ parts xs))"
proof (induction xs arbitrary: buf c t)
  case Nil
  then show ?case by (subst copy_to_stdout.simps) (auto simp: parts_def)
next
  case (Cons x xs)
  then show ?case by (subst copy_to_stdout.simps) (auto simp: parts_def split: prod.split)
qed

text \<open>
  Reading a file prints its parts in order and nothing else, ends at the first empty read
  and closes the file it opened.
\<close>

theorem file_read_copies:
  assumes "file_open (communicate net) addr path (READ OR BINARY OR ENSURE_DIR) c = (Ok h, c1)"
    and "read_run (ip_text_of ps) (communicate net) addr h xs (replicate (ip_bufsize ps) 0) c1 c2"
  shows "file_read_cmd ps (communicate net) addr path (c, t) =
    Some (Ok (), (snd (file_drop (communicate net) addr h c2), t @ parts xs))"
  using assms(1) copy_to_stdout_run [OF assms(2), of t]
  by (simp add: file_read_cmd_def on_dev_def map_err_def drop_after_def)

definition demo_io :: io_params where
  "demo_io = \<lparr>ip_text_of = (\<lambda>_. []), ip_interrupted = (\<lambda>_. False), ip_bufsize = 4\<rparr>"

theorem file_read_copies_witness:
  "\<exists>c. file_read_cmd demo_io (communicate replay_net) demo_addr [65]
      ((demo_client, [u32_le 0 @ u32_le 4 @ u32_le 7, u32_le 0 @ u32_le 3 @ [1, 2, 3], u32_le 0 @ u32_le 2 @ [4, 5],
          u32_le 0 @ u32_le 0, u32_le 0 @ u32_le 0]), []) = Some (Ok (), (c, [1, 2, 3, 4, 5]))"
proof -
  let ?rest = "[u32_le 0 @ u32_le 3 @ [1, 2, 3], u32_le 0 @ u32_le 2 @ [4, 5], u32_le 0 @ u32_le 0, u32_le 0 @ u32_le 0]"
  let ?c = "(demo_client, (u32_le 0 @ u32_le 4 @ u32_le 7) # ?rest)"
  let ?n = next_request
  have o: "file_open (communicate replay_net) demo_addr [65] (READ OR BINARY OR ENSURE_DIR) ?c =
      (Ok 7, (?n demo_client, ?rest))"
    by (simp add: file_open_def write_read_exact_def write_read_def ibind_def try_u32_def replay_communicate)
  have "read_run (ip_text_of demo_io) (communicate replay_net) demo_addr 7 [(3, [1, 2, 3, 0]), (2, [4, 5, 3, 0])]
      (replicate (ip_bufsize demo_io) 0) (?n demo_client, ?rest)
      (?n (?n (?n (?n demo_client))), [u32_le 0 @ u32_le 0])"
    by (simp add: file_read_def map_err_def write_read_def ibind_def try_u32_def replay_communicate demo_io_def)
  from file_read_copies [OF o this, of "[]"] show ?thesis by (simp add: parts_def)
qed

text \<open>
  The device answers the requests for route entries, each for the next number, with some
  entries, of which each has a text, and then with "no more entries".
\<close>

definition route_text :: "u32 \<Rightarrow> nat \<times> bytes \<Rightarrow> (bytes, tool_error) outcome" where
  "route_text i x = (if fst x \<ge> 48 then route_entry (snd x) else Ok (route_short_text i))"

primrec route_run ::
  "'w comm \<Rightarrow> ams_addr \<Rightarrow> ((nat \<times> bytes) \<times> bytes) list \<Rightarrow> u32 \<Rightarrow> bytes \<Rightarrow> 'w conn \<Rightarrow> 'w conn \<Rightarrow> bool" where
  "route_run comm addr [] i buf c c' \<longleftrightarrow> (\<exists>ct m. dev_read comm addr ROUTE_LIST i buf c = (Err (Ads ct m 0x716), c'))"
| "route_run comm addr (xt # xts) i buf c c' \<longleftrightarrow>
     route_text i (fst xt) = Ok (snd xt) \<and>
     (\<exists>c1. dev_read comm addr ROUTE_LIST i buf c = (Ok (fst xt), c1) \<and>
        route_run comm addr xts (i + 1) (snd (fst xt)) c1 c')"

lemma route_list_loop_run:
  "route_run comm addr xts i buf c c' \<Longrightarrow> unat i + length xts < 2 ^ 32 - 1 \<Longrightarrow>
     route_list_loop ovf comm addr i buf (c, t) = Some (Ok (), (c', t @ concat (map snd xts)))"
proof (induction xts arbitrary: i buf c t)
  case Nil
  then have "i \<noteq> - 1" by (auto simp: unsigned_minus_1_eq_mask mask_eq_exp_minus_1)
  with Nil show ?case by (subst route_list_loop.simps) auto
next
  case (Cons xt xts)
  then have "i \<noteq> - 1" by (auto simp: unsigned_minus_1_eq_mask mask_eq_exp_minus_1)
  moreover have "unat (i + 1) = Suc (unat i)" using Cons.prems(2) by (simp add: unat_word_ariths)
  ultimately show ?case using Cons
    by (subst route_list_loop.simps) (auto simp: route_text_def split: if_splits)
qed

text \<open>
  The route listing prints a header and then one text per entry of the device, in the order of
  their numbers, and ends at the device's "no more entries"; the entry is formatted from the bytes
  of its own answer.
\<close>

theorem route_list_complete:
  assumes "route_run (communicate net) addr xts 0 (replicate 2048 0) c c'" and "length xts < 2 ^ 32 - 1"
  shows "route_list ovf (communicate net) addr (c, t) =
    Some (Ok (), (c', t @ route_header @ concat (map snd xts)))"
  using route_list_loop_run [OF assms(1), of ovf "t @ route_header"] assms(2) by (simp add: route_list_def)

definition demo_route :: bytes where
  "demo_route = [10, 0, 0, 1, 1, 1, 0, 0] @ u32_le 1 @ replicate 20 0 @ u32_le 3 @ u32_le 2 @ u32_le 0 @ [104, 105, 0, 97, 0]"

definition demo_route_text :: bytes where
  "demo_route_text = println (pad_right 20 [97] @ [32] @ netid_display (AmsNetId 10 0 0 1 1 1) @ [32] @ pad_right 18 [104, 105] @
     bytes_of '' temporary'')"

lemma demo_route:
  "length demo_route = 49" "route_entry (demo_route @ replicate 1999 0) = Ok demo_route_text"
proof -
  have "utf8_lossy [97] = [97]" "utf8_lossy [104, 105] = [104, 105]"
    by (simp_all add: utf8_lossy_valid utf8_valid_ascii)
  then show "length demo_route = 49" "route_entry (demo_route @ replicate 1999 0) = Ok demo_route_text"
    by (simp_all add: route_entry_def demo_route_def demo_route_text_def slice_before_nul_def slice_of_def Let_def
        route_flags_text_def bytes_of_def)
qed

theorem route_list_complete_witness:
  "\<exists>c'. route_list False (communicate replay_net) demo_addr
      ((demo_client, [u32_le 0 @ u32_le 49 @ demo_route, u32_le 0x716]), []) =
    Some (Ok (), (c', route_header @ demo_route_text))"
proof -
  let ?c = "(demo_client, [u32_le 0 @ u32_le 49 @ demo_route, u32_le 0x716])"
  have "route_run (communicate replay_net) demo_addr [((49, demo_route @ replicate 1999 0), demo_route_text)] 0
      (replicate 2048 0) ?c (next_request (next_request demo_client), [])"
    by (simp add: dev_read_def ibind_def try_u32_def replay_communicate demo_route route_text_def ads_error_map_of)
  from route_list_complete [OF this] show ?thesis by simp
qed

end
