(* ===== verification/Ads_Server.thy ===== *)
theory Ads_Server
  imports Ads_Symbol Ads_File
begin

text \<open>
  The simulated device of the test suite (\<open>src/test/mod.rs\<close>): the handlers of the requests on
  its memory, its file, its symbol, its state and its notification, and the frames it sends.
  Joined with the reader thread it is a network for the client.
\<close>

section \<open>State\<close>

record server_opts =
  so_timeout :: bool
  so_no_reply :: bool
  so_garbage_header :: bool
  so_bad_notif :: bool
  so_ignore_invokeid :: bool

definition opts_default :: server_opts where
  "opts_default = \<lparr>so_timeout = False, so_no_reply = False, so_garbage_header = False, so_bad_notif = False,
     so_ignore_invokeid = False\<rparr>"

record server =
  sv_data :: bytes
  sv_file_ptr :: "(bool \<times> nat) option"
  sv_notif :: "(nat \<times> nat) option"
  sv_state :: "ads_state \<times> u16"

definition server_init :: server where
  "server_init = \<lparr>sv_data = replicate 1024 0, sv_file_ptr = None, sv_notif = None, sv_state = (Run, 0)\<rparr>"

text \<open>The data of a reply and the error code of its header.\<close>

type_synonym sreply = "bytes \<times> u32"

section \<open>Handlers\<close>

definition do_devinfo :: "bytes \<Rightarrow> sreply" where
  "do_devinfo data =
     (if data \<noteq> [] then ([], 0x706)
      else (u32_le 0 @ [7, 1] @ u16_le 4024 @ bytes_of ''Nice device'' @ replicate 5 0, 0))"

definition do_read_state :: "server \<Rightarrow> bytes \<Rightarrow> sreply" where
  "do_read_state sv data =
     (if data \<noteq> [] then ([], 0x706)
      else (u32_le 0 @ u16_le (ads_state_code (fst (sv_state sv))) @ u16_le (snd (sv_state sv)), 0))"

definition do_write_control :: "server \<Rightarrow> bytes \<Rightarrow> sreply \<times> server" where
  "do_write_control sv data =
     (if length data \<noteq> 8 then (([], 0x706), sv)
      else let adsstate = le_u16 (take 2 data); devstate = le_u16 (take 2 (drop 2 data)) in
        (case ads_state_try_from adsstate of
           Ok st \<Rightarrow>
             if st = Invalid then ((u32_le 0x70B, 0), sv) else ((u32_le 0, 0), sv\<lparr>sv_state := (st, devstate)\<rparr>)
         | _ \<Rightarrow> ((u32_le 0x70B, 0), sv)))"

text \<open>Where a group and an offset lead to: the one symbol lives at the end of the memory.\<close>

definition do_read :: "server \<Rightarrow> bytes \<Rightarrow> sreply" where
  "do_read sv data =
     (if length data \<noteq> size_IndexLength then ([], 0x706)
      else
        let grp = le_u32 (take 4 data); ofs = unat (le_u32 (take 4 (drop 4 data)));
            rlen = le_u32 (take 4 (drop 8 data)); len = unat rlen
        in if grp = RW_SYMVAL_BYHANDLE \<and> ofs \<noteq> 77 then ([], 0x710)
           else if grp \<noteq> RW_SYMVAL_BYHANDLE \<and> grp \<noteq> PLC_RW_M then ([], 0x702)
           else
             let ofs' = (if grp = RW_SYMVAL_BYHANDLE then 1020 else ofs) in
             if ofs' + len > length (sv_data sv) then ([], 0x703)
             else (u32_le 0 @ u32_le rlen @ take len (drop ofs' (sv_data sv)), 0))"

definition do_write :: "server \<Rightarrow> bytes \<Rightarrow> sreply \<times> server" where
  "do_write sv data =
     (if length data < size_IndexLength then (([], 0x706), sv)
      else
        let grp = le_u32 (take 4 data); ofs = unat (le_u32 (take 4 (drop 4 data)));
            len = unat (le_u32 (take 4 (drop 8 data)))
        in if grp = RW_SYMVAL_BYHANDLE \<and> ofs \<noteq> 77 then (([], 0x710), sv)
           else if grp = RELEASE_SYMHANDLE then ((if ofs \<noteq> 77 then ([], 0x710) else (u32_le 0, 0)), sv)
           else if grp \<noteq> RW_SYMVAL_BYHANDLE \<and> grp \<noteq> PLC_RW_M then (([], 0x702), sv)
           else
             let ofs' = (if grp = RW_SYMVAL_BYHANDLE then 1020 else ofs) in
             if ofs' + len > length (sv_data sv) then (([], 0x703), sv)
             else if length data \<noteq> size_IndexLength + len then (([], 0x706), sv)
             else ((u32_le 0, 0),
               sv\<lparr>sv_data := take ofs' (sv_data sv) @ drop 12 data @ drop (ofs' + len) (sv_data sv)\<rparr>))"

definition do_add_notif :: "server \<Rightarrow> bytes \<Rightarrow> sreply \<times> server" where
  "do_add_notif sv data =
     (if length data \<noteq> size_AddNotif then (([], 0x706), sv)
      else
        let grp = le_u32 (take 4 data); ofs = unat (le_u32 (take 4 (drop 4 data)));
            len = unat (le_u32 (take 4 (drop 8 data)))
        in if grp \<noteq> PLC_RW_M then (([], 0x702), sv)
           else if ofs + len > length (sv_data sv) then (([], 0x703), sv)
           else ((u32_le 0 @ u32_le 132, 0), sv\<lparr>sv_notif := Some (ofs, len)\<rparr>))"

definition do_del_notif :: "server \<Rightarrow> bytes \<Rightarrow> sreply \<times> server" where
  "do_del_notif sv data =
     (if length data \<noteq> 4 then (([], 0x706), sv)
      else if le_u32 data \<noteq> 132 then (([], 0x714), sv)
      else if sv_notif sv = None then (([], 0x714), sv)
      else ((u32_le 0, 0), sv\<lparr>sv_notif := None\<rparr>))"

section \<open>Sum-up requests\<close>

text \<open>\<open>d.len() as u32 - 8\<close>, with the overflow check of a test build.\<close>

definition len_minus_8 :: "bytes \<Rightarrow> u32 res" where
  "len_minus_8 d = (let n = of_nat (length d) :: u32 in if n < 8 then Panic else Ok (n - 8))"

definition resized :: "nat \<Rightarrow> bytes \<Rightarrow> bytes" where
  "resized n d = take n d @ replicate (n - length d) 0"

fun sumup_read_loop :: "server \<Rightarrow> bytes \<Rightarrow> nat \<Rightarrow> nat \<Rightarrow> (bytes \<times> bytes) res" where
  "sumup_read_loop sv data i 0 = Ok ([], [])"
| "sumup_read_loop sv data i (Suc k) =
     rbind (slice_of data (16 + i * 12 + 8) (16 + i * 12 + 12)) (\<lambda>b.
     rbind (slice_of data (16 + i * 12) (16 + i * 12 + 12)) (\<lambda>sub.
     let (d, e) = do_read sv sub; d' = resized (unat (le_u32 b) + 8) d in
     rbind (len_minus_8 d') (\<lambda>n.
     rmap (\<lambda>(m, r). (u32_le e @ u32_le n @ m, drop 8 d' @ r)) (sumup_read_loop sv data (Suc i) k))))"

text \<open>The loops over requests of one size, with the state handed on; \<open>f\<close> gives the result part.\<close>

fun sumup_write_loop :: "server \<Rightarrow> bytes \<Rightarrow> nat \<Rightarrow> nat \<Rightarrow> nat \<Rightarrow> (bytes \<times> server) res" where
  "sumup_write_loop sv data i woff 0 = Ok ([], sv)"
| "sumup_write_loop sv data i woff (Suc k) =
     rbind (slice_of data (16 + i * 12 + 8) (16 + i * 12 + 12)) (\<lambda>b.
     rbind (slice_of data (16 + i * 12) (16 + i * 12 + 12)) (\<lambda>h.
     let wlen = unat (le_u32 b) in
     rbind (slice_of data woff (woff + wlen)) (\<lambda>d.
     let ((_, e), sv1) = do_write sv (h @ d) in
     rmap (\<lambda>(m, sv2). (u32_le e @ m, sv2)) (sumup_write_loop sv1 data (Suc i) (woff + wlen) k))))"

fun sumup_add_loop :: "server \<Rightarrow> bytes \<Rightarrow> nat \<Rightarrow> nat \<Rightarrow> (bytes \<times> server) res" where
  "sumup_add_loop sv data i 0 = Ok ([], sv)"
| "sumup_add_loop sv data i (Suc k) =
     rbind (slice_of data (16 + i * 40) (16 + i * 40 + 40)) (\<lambda>sub.
     let ((d, e), sv1) = do_add_notif sv sub in
     rmap (\<lambda>(m, sv2). (u32_le e @ (if length d > 4 then drop 4 d else u32_le 0) @ m, sv2))
       (sumup_add_loop sv1 data (Suc i) k))"

fun sumup_del_loop :: "server \<Rightarrow> bytes \<Rightarrow> nat \<Rightarrow> nat \<Rightarrow> (bytes \<times> server) res" where
  "sumup_del_loop sv data i 0 = Ok ([], sv)"
| "sumup_del_loop sv data i (Suc k) =
     rbind (slice_of data (16 + i * 4) (16 + i * 4 + 4)) (\<lambda>sub.
     let ((_, e), sv1) = do_del_notif sv sub in
     rmap (\<lambda>(m, sv2). (u32_le e @ m, sv2)) (sumup_del_loop sv1 data (Suc i) k))"

text \<open>The single requests inside a sum-up write/read, each with its own data.\<close>

fun sub_requests :: "nat \<Rightarrow> nat \<Rightarrow> nat \<Rightarrow> bytes \<Rightarrow> bytes list res" where
  "sub_requests i woff 0 data = Ok []"
| "sub_requests i woff (Suc k) data =
     rbind (slice_of data (16 + i * 16 + 12) (16 + i * 16 + 16)) (\<lambda>b.
     rbind (slice_of data (16 + i * 16) (16 + i * 16 + 16)) (\<lambda>h.
     let wlen = unat (le_u32 b) in
     rbind (slice_of data woff (woff + wlen)) (\<lambda>d.
     rmap (Cons (h @ d)) (sub_requests (Suc i) (woff + wlen) k data))))"

fun sumup_results :: "sreply list \<Rightarrow> (bytes \<times> bytes) res" where
  "sumup_results [] = Ok ([], [])"
| "sumup_results ((d, e) # rs) =
     rbind (if length d > 8 then len_minus_8 d else Ok 0) (\<lambda>n.
     rmap (\<lambda>(m, r). (u32_le e @ u32_le n @ m, drop 8 d @ r)) (sumup_results rs))"

text \<open>\<open>4 * off\<close> and \<open>8 * off\<close> of the \<open>u32\<close> counter.\<close>

definition times_u32 :: "nat \<Rightarrow> u32 \<Rightarrow> u32 res" where
  "times_u32 k n = (if k * unat n < 2 ^ 32 then Ok (of_nat k * n) else Panic)"

definition sumup_data :: "bytes \<times> bytes \<Rightarrow> bytes" where
  "sumup_data mr = u32_le 0 @ u32_le (of_nat (length (fst mr) + length (snd mr))) @ fst mr @ snd mr"

definition SIM_FILE :: bytes where
  "SIM_FILE = bytes_of ''/etc/passwd''"

text \<open>All groups of a write/read request but the sum-up write/read.\<close>

definition do_read_write_one :: "server \<Rightarrow> u32 \<Rightarrow> u32 \<Rightarrow> nat \<Rightarrow> nat \<Rightarrow> bytes \<Rightarrow> (sreply \<times> server) res" where
  "do_read_write_one sv grp ofs rlen wlen data =
     (let body = drop 16 data; n = unat ofs in
      if grp = SUMUP_READ_EX then
        rmap (\<lambda>mr. ((sumup_data mr, 0), sv)) (sumup_read_loop sv data 0 n)
      else if grp = SUMUP_WRITE then
        rbind (times_u32 4 ofs) (\<lambda>t.
        rmap (\<lambda>(m, sv'). ((u32_le 0 @ u32_le t @ m, 0), sv')) (sumup_write_loop sv data 0 (16 + n * 12) n))
      else if grp = SUMUP_ADDDEVNOTE then
        rbind (times_u32 8 ofs) (\<lambda>t.
        rmap (\<lambda>(m, sv'). ((u32_le 0 @ u32_le t @ m, 0), sv')) (sumup_add_loop sv data 0 n))
      else if grp = SUMUP_DELDEVNOTE then
        rbind (times_u32 4 ofs) (\<lambda>t.
        rmap (\<lambda>(m, sv'). ((u32_le 0 @ u32_le t @ m, 0), sv')) (sumup_del_loop sv data 0 n))
      else if grp = FILE_OPEN then
        if body \<noteq> SIM_FILE then Ok (([], 0x70C), sv)
        else if sv_file_ptr sv \<noteq> None then Ok (([], 0x708), sv)
        else Ok ((u32_le 0 @ u32_le 4 @ u32_le 42, 0),
               sv\<lparr>sv_file_ptr := Some (ofs AND (WRITE OR APPEND) \<noteq> 0, 0)\<rparr>)
      else if grp = FILE_CLOSE then
        if body \<noteq> [] then Ok (([], 0x70B), sv)
        else if ofs \<noteq> 42 then Ok (([], 0x70C), sv)
        else Ok ((u32_le 0 @ u32_le 0, 0), sv\<lparr>sv_file_ptr := None\<rparr>)
      else if grp = FILE_WRITE then
        (case sv_file_ptr sv of
           Some (True, ptr) \<Rightarrow> Ok ((u32_le 0 @ u32_le 0, 0), sv\<lparr>sv_file_ptr := Some (True, ptr + wlen)\<rparr>)
         | _ \<Rightarrow> Ok (([], 0x704), sv))
      else if grp = FILE_READ then
        (case sv_file_ptr sv of
           Some (False, cur) \<Rightarrow>
             let ptr = min (cur + rlen) 888 in
             if ptr < cur then Panic
             else Ok ((u32_le 0 @ u32_le (of_nat (ptr - cur)) @ replicate (ptr - cur) 0, 0),
                    sv\<lparr>sv_file_ptr := Some (False, ptr)\<rparr>)
         | _ \<Rightarrow> Ok (([], 0x704), sv))
      else if grp = FILE_DELETE then
        if body \<noteq> SIM_FILE then Ok (([], 0x70C), sv)
        else if sv_file_ptr sv \<noteq> None then Ok (([], 0xFFFF), sv)
        else Ok ((u32_le 0 @ u32_le 0, 0), sv)
      else if grp = GET_SYMHANDLE_BYNAME then
        if body \<noteq> bytes_of ''SYMBOL'' then Ok (([], 0x710), sv)
        else Ok ((u32_le 0 @ u32_le 4 @ u32_le 77, 0), sv)
      else Ok (([], 0x702), sv))"

lemma sub_requests_shorter:
  assumes "sub_requests i woff k data = Ok subs" and "32 \<le> woff" and "sub \<in> set subs"
  shows "length sub < length data"
  using assms
proof (induction i woff k data arbitrary: subs rule: sub_requests.induct)
  case (2 i woff k data)
  then show ?case by (fastforce simp: slice_of_eq_Ok Let_def)
qed simp

text \<open>A request inside a sum-up request is shorter than it, so that nested ones come to an end.\<close>

primrec longest :: "bytes list \<Rightarrow> nat" where
  "longest [] = 0"
| "longest (d # ds) = max (2 * length d + 2) (longest ds)"

definition rw_size :: "(server \<times> bytes) + (server \<times> bytes list) \<Rightarrow> nat" where
  "rw_size x = (case x of Inl (_, d) \<Rightarrow> 2 * length d + 1 | Inr (_, ds) \<Rightarrow> longest ds)"

lemma longest_less: "(\<And>d. d \<in> set ds \<Longrightarrow> length d < n) \<Longrightarrow> longest ds < 2 * n + 1"
  by (induction ds) fastforce+

lemma sub_requests_size:
  assumes "sub_requests 0 (16 + k * 16) k data = Ok subs"
  shows "longest subs < 2 * length data + 1"
proof (rule longest_less)
  fix sub
  assume sub: "sub \<in> set subs"
  show "length sub < length data"
  proof (cases k)
    case 0
    then show ?thesis using assms sub by simp
  next
    case (Suc n)
    show ?thesis by (rule sub_requests_shorter [OF assms _ sub]) (simp add: Suc)
  qed
qed

function do_read_write :: "server \<Rightarrow> bytes \<Rightarrow> (sreply \<times> server) res"
  and do_all :: "server \<Rightarrow> bytes list \<Rightarrow> (sreply list \<times> server) res"
where
  "do_read_write sv data =
     (if length data < size_IndexLengthRW then Ok (([], 0x706), sv)
      else if le_u32 (take 4 data) = SUMUP_READWRITE then
        (case sub_requests 0 (16 + unat (le_u32 (take 4 (drop 4 data))) * 16) (unat (le_u32 (take 4 (drop 4 data)))) data of
           Ok subs \<Rightarrow>
             rbind (do_all sv subs) (\<lambda>(rs, sv').
             rmap (\<lambda>mr. ((sumup_data mr, 0), sv')) (sumup_results rs))
         | Err e \<Rightarrow> Err e
         | Panic \<Rightarrow> Panic)
      else do_read_write_one sv (le_u32 (take 4 data)) (le_u32 (take 4 (drop 4 data)))
             (unat (le_u32 (take 4 (drop 8 data)))) (unat (le_u32 (take 4 (drop 12 data)))) data)"
| "do_all sv [] = Ok ([], sv)"
| "do_all sv (d # ds) =
     rbind (do_read_write sv d) (\<lambda>(r, sv1). rmap (\<lambda>(rs, sv2). (r # rs, sv2)) (do_all sv1 ds))"
  by pat_completeness auto
termination
proof (relation "measures [rw_size, \<lambda>x. case x of Inl _ \<Rightarrow> 0 | Inr (_, ds) \<Rightarrow> length ds]", goal_cases)
  case (2 sv data subs)
  then show ?case using sub_requests_size by (simp add: rw_size_def)
qed (auto simp: rw_size_def)

declare do_read_write.simps [simp del]

section \<open>Frames\<close>

definition handle_request :: "server \<Rightarrow> u16 \<Rightarrow> bytes \<Rightarrow> (sreply \<times> server) res" where
  "handle_request sv cmd data =
     (if cmd = 1 then Ok (do_devinfo data, sv)
      else if cmd = 2 then Ok (do_read sv data, sv)
      else if cmd = 3 then Ok (do_write sv data)
      else if cmd = 4 then Ok (do_read_state sv data, sv)
      else if cmd = 5 then Ok (do_write_control sv data)
      else if cmd = 6 then Ok (do_add_notif sv data)
      else if cmd = 7 then Ok (do_del_notif sv data)
      else if cmd = 9 then do_read_write sv data
      else Ok (([], 0x701), sv))"

definition NOTIF_STAMP :: u64 where
  "NOTIF_STAMP = 0x9988776655443322"

definition notification_header :: "ads_header \<Rightarrow> nat \<Rightarrow> ads_header" where
  "notification_header h data_len =
     \<lparr>ams_cmd = 0, hdr_length = 32 + of_nat data_len, dest_netid = src_netid h, dest_port = src_port h,
      src_netid = dest_netid h, src_port = dest_port h, hdr_command = command_code Notification,
      state_flags = 4, data_length = of_nat data_len, error_code = 0, hdr_invoke_id = 0\<rparr>"

definition send_notification :: "server \<Rightarrow> nat \<Rightarrow> nat \<Rightarrow> ads_header \<Rightarrow> bool \<Rightarrow> bytes" where
  "send_notification sv ofs len h bad =
     ads_header_bytes (notification_header h (28 + len)) @
     u32_le (of_nat (28 + len) - 4) @ u32_le (if bad then - 1 else 1) @ u64_le NOTIF_STAMP @ u32_le 1 @
     u32_le 132 @ u32_le (of_nat len) @ take len (drop ofs (sv_data sv))"

definition reply_header :: "server_opts \<Rightarrow> ads_header \<Rightarrow> nat \<Rightarrow> u32 \<Rightarrow> ads_header" where
  "reply_header opts h n err =
     \<lparr>ams_cmd = (if so_garbage_header opts then 234 else 0), hdr_length = 32 + of_nat n,
      dest_netid = src_netid h, dest_port = src_port h, src_netid = dest_netid h, src_port = dest_port h,
      hdr_command = hdr_command h, state_flags = state_flags h OR 1, data_length = of_nat n,
      error_code = err, hdr_invoke_id = (if so_ignore_invokeid opts then 0 else hdr_invoke_id h)\<rparr>"

text \<open>
  One turn of the loop: the request is handled, a notification may come first, then the reply. The
  lengths of both frames are sums of \<open>u32\<close>, checked as in a test build, and the range
  of a notification is a slice of the memory.
\<close>

definition plus_32_fits :: "nat \<Rightarrow> bool" where
  "plus_32_fits n \<longleftrightarrow> unat (of_nat n :: u32) + 32 < 2 ^ 32"

definition notification_part :: "server_opts \<Rightarrow> server \<Rightarrow> ads_header \<Rightarrow> bytes res" where
  "notification_part opts sv h =
     (case sv_notif sv of
        None \<Rightarrow> Ok []
      | Some (ofs, len) \<Rightarrow>
          if (of_nat (28 + len) :: u32) < 4 \<or> \<not> plus_32_fits (28 + len) \<or> length (sv_data sv) < ofs + len then Panic
          else Ok (send_notification sv ofs len h (so_bad_notif opts)))"

definition handle_client :: "server_opts \<Rightarrow> server \<Rightarrow> ads_header \<Rightarrow> bytes \<Rightarrow> (bytes \<times> server) res" where
  "handle_client opts sv h data =
     rbind (handle_request sv (hdr_command h) data) (\<lambda>((reply_data, err), sv').
     rbind (notification_part opts sv' h) (\<lambda>notif.
     if plus_32_fits (length reply_data)
     then Ok (notif @ ads_header_bytes (reply_header opts h (length reply_data) err) @ reply_data, sv')
     else Panic))"

section \<open>The device behind a connection\<close>

text \<open>
  What a call of the client gets to see: the device reads the request and answers, the reader thread
  takes the answer apart and sends to the channel of the call; notifications are queued. When the
  device closes the connection, the reader ends with the error \<open>fin\<close>; while the connection is open
  it waits at the end of the answer. A device that panics or closes the connection answers no later
  request of the same connection, so the network stands for the requests up to that point.
\<close>

type_synonym sim = "server \<times> notification list"

definition sim_stream :: "server_opts \<Rightarrow> server \<Rightarrow> ads_header \<Rightarrow> bytes \<Rightarrow> (bytes \<times> server) option" where
  "sim_stream opts sv h data =
     (if so_no_reply opts then None
      else (case handle_client opts sv h data of Ok x \<Rightarrow> Some x | _ \<Rightarrow> None))"

definition reader_waits :: "unit res \<Rightarrow> bool" where
  "reader_waits r \<longleftrightarrow> (case r of Err (Io _ _) \<Rightarrow> True | _ \<Rightarrow> False)"

definition sim_reader :: "io_error \<Rightarrow> ams_addr \<Rightarrow> bytes option \<Rightarrow> rx_state \<Rightarrow> rx_state" where
  "sim_reader fin src stream st =
     (case stream of
        None \<Rightarrow> snd (reader_thread fin src [] st)
      | Some s \<Rightarrow>
          let (r, st') = reader_work fin src s st in
          if reader_waits r then st' else snd (reader_thread fin src s st))"

definition sim_net :: "io_error \<Rightarrow> server_opts \<Rightarrow> sim net" where
  "sim_net fin opts w req =
     (case ads_header_read (take 38 req) of
        None \<Rightarrow> (Sent RecvTimeout, w)
      | Some h \<Rightarrow>
          if so_timeout opts then (Sent RecvTimeout, w)
          else
            let out = sim_stream opts (fst w) h (take (unat (data_length h)) (drop 38 req));
                st = sim_reader fin (AmsAddr (src_netid h) (src_port h)) (map_option fst out) (rx_one (hdr_invoke_id h))
            in (Sent (case answers_to (hdr_invoke_id h) st of
                        Ok (h', payload) # _ \<Rightarrow> RecvReply h' payload
                      | Err e # _ \<Rightarrow> RecvErr e
                      | _ \<Rightarrow> RecvTimeout),
                (case out of None \<Rightarrow> fst w | Some (_, sv') \<Rightarrow> sv', snd w @ rx_notifs st)))"

section \<open>What the client sees of an answer\<close>

definition opts_ok :: "server_opts \<Rightarrow> bool" where
  "opts_ok opts \<longleftrightarrow> \<not> so_timeout opts \<and> \<not> so_no_reply opts \<and> \<not> so_garbage_header opts \<and> \<not> so_ignore_invokeid opts"

definition notif_ok :: "server \<Rightarrow> bool" where
  "notif_ok sv \<longleftrightarrow> (case sv_notif sv of None \<Rightarrow> True
     | Some (ofs, len) \<Rightarrow> ofs + len \<le> length (sv_data sv) \<and> len + 60 < 4294967296)"

text \<open>The notifications that arrive with an answer.\<close>

definition sim_notifs :: "server_opts \<Rightarrow> server \<Rightarrow> ads_header \<Rightarrow> notification list" where
  "sim_notifs opts sv h =
     (case sv_notif sv of
        None \<Rightarrow> []
      | Some (ofs, len) \<Rightarrow>
          if so_bad_notif opts then [] else [\<lparr>n_data = send_notification sv ofs len h False, nstamps = 1\<rparr>])"

definition notification_payload :: "bool \<Rightarrow> bytes \<Rightarrow> bytes" where
  "notification_payload bad d =
     u32_le (of_nat (28 + length d) - 4) @ u32_le (if bad then - 1 else 1) @ enc_stamp (NOTIF_STAMP, [(132, d)])"

lemma send_notification_frame:
  assumes "ofs + len \<le> length (sv_data sv)"
  shows "send_notification sv ofs len h bad =
    frame (notification_header h (28 + len), notification_payload bad (take len (drop ofs (sv_data sv))))"
  using assms by (simp add: send_notification_def frame_def notification_payload_def)

lemma length_notification_payload: "length (notification_payload bad d) = 28 + length d"
  by (simp add: notification_payload_def)

lemma ptimes_stops:
  assumes "p s = Ok (x, s')" and "p s' = Err e"
  shows "ptimes (Suc (Suc n)) p s = Err e"
  using assms by (simp add: pbind_def)

lemma notification_payload_parses:
  assumes "length d + 60 < 4294967296" and "length hdr = 38"
  shows "notification_new (hdr @ notification_payload False d) =
      Ok \<lparr>n_data = hdr @ notification_payload False d, nstamps = 1\<rparr>"
    and "notification_new (hdr @ notification_payload True d) = Err notif_eof"
proof -
  show "notification_new (hdr @ notification_payload False d) =
      Ok \<lparr>n_data = hdr @ notification_payload False d, nstamps = 1\<rparr>"
    using notification_new_enc [of "[(NOTIF_STAMP, [(132, d)])]" "hdr @ u32_le (of_nat (28 + length d) - 4)"] assms
    by (simp add: notification_payload_def)
  have "unat (- 1 :: u32) = Suc (Suc 4294967293)" by (simp add: unsigned_minus_1_eq_mask mask_eq_exp_minus_1)
  moreover have "skip_stamp (enc_stamp (NOTIF_STAMP, [(132, d)])) = Ok ((), [])"
    using stampc.accept [of "(NOTIF_STAMP, [(132, d)])" "[]"] assms(1) by simp
  moreover have "skip_stamp [] = Err notif_eof" by (simp add: skip_stamp_def pbind_def rd_u64_if)
  ultimately have "ptimes (unat (- 1 :: u32)) skip_stamp (enc_stamp (NOTIF_STAMP, [(132, d)])) = Err notif_eof"
    by (simp only: ptimes_stops)
  then show "notification_new (hdr @ notification_payload True d) = Err notif_eof"
    using assms(2) by (simp add: notification_new_def notification_payload_def pbind_def)
qed

lemma reader_work_notification:
  assumes "ofs + len \<le> length (sv_data sv)" and "len + 60 < 4294967296"
  shows "reader_work fin (AmsAddr (src_netid h) (src_port h)) (send_notification sv ofs len h bad @ s) st =
    reader_work fin (AmsAddr (src_netid h) (src_port h)) s
      (if bad then st else st\<lparr>rx_notifs := rx_notifs st @ [\<lparr>n_data = send_notification sv ofs len h False, nstamps = 1\<rparr>]\<rparr>)"
proof -
  let ?src = "AmsAddr (src_netid h) (src_port h)" and ?nh = "notification_header h (28 + len)"
  let ?d = "take len (drop ofs (sv_data sv))"
  have d: "length ?d = len" using assms(1) by simp
  have wf: "wf_frame ?src (?nh, notification_payload bad ?d)"
    using assms d by (simp add: wf_frame_def notification_header_def length_notification_payload)
  have "of_nat (28 + len) - 4 = (of_nat (24 + len) :: u32)" by simp
  then have small: "\<not> of_nat (28 + len) - 4 < (4 :: u32)"
    using unat_of_nat_u32 [of "24 + len"] assms(2) unfolding word_less_nat_alt by simp
  have "recv_notification (ads_header_bytes ?nh) ?nh (notification_payload bad ?d) =
      (if bad then Ok Skipped
       else Ok (NotifPkt \<lparr>n_data = ads_header_bytes ?nh @ notification_payload False ?d, nstamps = 1\<rparr>))"
    using small d notification_payload_parses [of ?d "ads_header_bytes ?nh"] assms(2)
    by (simp add: recv_notification_def slice_of_def notification_header_def Let_def)
      (simp add: notification_payload_def)
  moreover have "hdr_command ?nh = command_code Notification" by (simp add: notification_header_def)
  ultimately have "recv_packet fin ?src (send_notification sv ofs len h bad @ s) =
      Ok (if bad then Skipped else NotifPkt \<lparr>n_data = send_notification sv ofs len h False, nstamps = 1\<rparr>, s)"
    using recv_packet_frame [OF wf, of fin s] unfolding send_notification_frame [OF assms(1)] by (simp add: frame_def)
  then show ?thesis by (subst reader_work.simps) (simp add: dispatch_def)
qed

text \<open>The header of a request, and the answer that arrives for it.\<close>

definition req_header :: "client \<Rightarrow> command \<Rightarrow> ams_addr \<Rightarrow> nat \<Rightarrow> ads_header" where
  "req_header cl cmd target n =
     \<lparr>ams_cmd = 0, hdr_length = of_nat (32 + n), dest_netid = netid target, dest_port = port target,
      src_netid = netid (source cl), src_port = port (source cl), hdr_command = command_code cmd, state_flags = 4,
      data_length = of_nat n, error_code = 0, hdr_invoke_id = invoke_id cl\<rparr>"

lemma request_bytes_req_header:
  "request_bytes cl cmd target ws = ads_header_bytes (req_header cl cmd target (length (concat ws))) @ concat ws"
  by (simp add: request_bytes_def req_header_def)

abbreviation notification_prefix :: "server_opts \<Rightarrow> server \<Rightarrow> ads_header \<Rightarrow> bytes" where
  "notification_prefix opts sv h \<equiv>
     (case sv_notif sv of Some (ofs, len) \<Rightarrow> send_notification sv ofs len h (so_bad_notif opts) | None \<Rightarrow> [])"

lemma notification_part_ok:
  assumes "notif_ok sv"
  shows "notification_part opts sv h = Ok (notification_prefix opts sv h)"
proof (cases "sv_notif sv")
  case (Some x)
  then obtain ofs len where x: "sv_notif sv = Some (ofs, len)" by (cases x) simp
  with assms have "ofs + len \<le> length (sv_data sv)" "len + 60 < 4294967296" by (simp_all add: notif_ok_def)
  moreover from this(2) have "unat (of_nat (28 + len) :: u32) = 28 + len" by (rule_tac unat_of_nat_u32) simp
  ultimately show ?thesis by (simp add: notification_part_def x plus_32_fits_def word_less_nat_alt del: of_nat_add)
qed (simp add: notification_part_def)

text \<open>The notification in front of the reply, if any, has been queued when the reader gets to the reply.\<close>

lemma reader_work_prefix:
  assumes "notif_ok sv"
  shows "reader_work fin (AmsAddr (src_netid h) (src_port h)) (notification_prefix opts sv h @ s) (rx_one i) =
    reader_work fin (AmsAddr (src_netid h) (src_port h)) s ((rx_one i)\<lparr>rx_notifs := sim_notifs opts sv h\<rparr>)"
proof -
  have "(rx_one i)\<lparr>rx_notifs := []\<rparr> = rx_one i" by (simp add: rx_one_def)
  then show ?thesis
    using assms reader_work_notification [of _ _ sv fin h "so_bad_notif opts"]
    by (cases "sv_notif sv") (auto simp: sim_notifs_def notif_ok_def rx_one_def)
qed

lemma reader_work_end: "reader_work fin src [] st = (Err (Io ''receiving AMS/TCP header'' fin), st)"
  by (simp add: reader_work.simps [of _ _ "[]"] recv_packet_def pbind_def sock_read_def)

lemma sim_reader_answer:
  assumes "opts_ok opts" and "notif_ok sv'" and "length reply + 32 < 4294967296" and "hdr_command h \<noteq> 8"
    and "st = sim_reader fin (AmsAddr (src_netid h) (src_port h)) (Some (notification_prefix opts sv' h @
       ads_header_bytes (reply_header opts h (length reply) err) @ reply)) (rx_one (hdr_invoke_id h))"
  shows "answers_to (hdr_invoke_id h) st = [Ok (reply_header opts h (length reply) err, reply)]"
    and "rx_notifs st = sim_notifs opts sv' h"
proof -
  let ?src = "AmsAddr (src_netid h) (src_port h)" and ?i = "hdr_invoke_id h"
  let ?rh = "reply_header opts h (length reply) err" and ?ns = "sim_notifs opts sv' h"
  have wf: "wf_frame ?src (?rh, reply)" and id: "hdr_invoke_id ?rh = ?i" "hdr_command ?rh \<noteq> command_code Notification"
    using assms(1,3,4) by (simp_all add: wf_frame_def reply_header_def opts_ok_def)
  let ?after = "\<lparr>rx_pending = Map.empty, rx_settled = [(?i, Ok (?rh, reply))], rx_notifs = ?ns\<rparr>"
  have "reader_work fin ?src (notification_prefix opts sv' h @ frame (?rh, reply)) (rx_one ?i) =
      (Err (Io ''receiving AMS/TCP header'' fin), ?after)"
    using reader_work_reply [OF wf id(2), of "(rx_one ?i)\<lparr>rx_notifs := ?ns\<rparr>" fin "[]"]
    unfolding reader_work_prefix [OF assms(2)] by (simp add: id(1) rx_one_def reader_work_end del: command_code.simps)
  then have "st = ?after" using assms(5) by (simp add: sim_reader_def frame_def reader_waits_def)
  then show "answers_to ?i st = [Ok (?rh, reply)]" "rx_notifs st = ?ns" by (simp_all add: answers_to_def)
qed

text \<open>What the device reads of a request of the client, and what it writes.\<close>

lemma sim_request:
  assumes "fits ws"
  shows "ads_header_read (take 38 (request_bytes cl cmd target ws)) = Some (req_header cl cmd target (length (concat ws)))"
    and "take (unat (data_length (req_header cl cmd target (length (concat ws)))))
      (drop 38 (request_bytes cl cmd target ws)) = concat ws"
  using assms by (simp_all add: request_bytes_req_header) (simp_all add: req_header_def)

lemma sim_stream_answer:
  assumes "\<not> so_no_reply opts" and "notif_ok sv'" and "length reply + 32 < 4294967296"
    and "handle_request sv (hdr_command h) data = Ok ((reply, err), sv')"
  shows "sim_stream opts sv h data =
    Some (notification_prefix opts sv' h @ ads_header_bytes (reply_header opts h (length reply) err) @ reply, sv')"
proof -
  have "plus_32_fits (length reply)" using assms(3) by (simp add: plus_32_fits_def)
  then show ?thesis using assms(1,4) by (simp add: sim_stream_def handle_client_def notification_part_ok [OF assms(2)])
qed

lemma sim_net_answer:
  assumes "fits ws" and "opts_ok opts" and "notif_ok sv'" and "length reply + 32 < 4294967296"
    and "cmd \<noteq> Notification" and "handle_request sv (command_code cmd) (concat ws) = Ok ((reply, err), sv')"
  shows "sim_net fin opts (sv, ns) (request_bytes cl cmd target ws) =
    (Sent (RecvReply (reply_header opts (req_header cl cmd target (length (concat ws))) (length reply) err) reply),
     (sv', ns @ sim_notifs opts sv' (req_header cl cmd target (length (concat ws)))))"
proof -
  let ?h = "req_header cl cmd target (length (concat ws))"
  have c: "hdr_command ?h \<noteq> 8" using assms(5) by (cases cmd) (simp_all add: req_header_def)
  have s: "sim_stream opts sv ?h (concat ws) =
      Some (notification_prefix opts sv' ?h @ ads_header_bytes (reply_header opts ?h (length reply) err) @ reply, sv')"
    using sim_stream_answer [of opts sv' reply sv ?h "concat ws" err] assms by (simp add: opts_ok_def req_header_def)
  show ?thesis
    using assms(2) sim_reader_answer [OF assms(2,3,4) c refl]
    by (simp add: sim_net_def sim_request [OF assms(1)] s opts_ok_def Let_def)
qed

lemma sim_communicate:
  assumes "fits ws" and "opts_ok opts" and "notif_ok sv'" and "length reply + 32 < 4294967296"
    and "cmd \<noteq> Notification" and "handle_request sv (command_code cmd) (concat ws) = Ok ((reply, err), sv')"
    and "err = 0 \<Longrightarrow> reply = u32_le 0 @ data \<and> room_for rs data"
  shows "communicate (sim_net fin opts) cmd target ws rs (cl, (sv, ns)) =
    (if err = 0 then Ok (if rs = [] then 0 else length data, scatter rs data) else ads_error (action cmd) err,
     (next_request cl, (sv', ns @ sim_notifs opts sv' (req_header cl cmd target (length (concat ws))))))"
proof -
  let ?h = "req_header cl cmd target (length (concat ws))"
  let ?rh = "reply_header opts ?h (length reply) err"
  note net = sim_net_answer [OF assms(1-6), of fin ns cl target]
  have fields: "src_netid ?rh = netid target" "src_port ?rh = port target" "hdr_command ?rh = command_code cmd"
    "state_flags ?rh = 5" "hdr_invoke_id ?rh = invoke_id cl" "error_code ?rh = err"
    using assms(2) by (simp_all add: reply_header_def req_header_def opts_ok_def)
  show ?thesis
  proof (cases "err = 0")
    case True
    then have "reply_to cmd target (invoke_id cl) ?rh" using fields by (simp add: reply_to_def)
    with communicate_reply [OF assms(1), of "sim_net fin opts" "(sv, ns)" cl cmd target ?rh data _ rs] net assms(7) True
    show ?thesis by simp
  next
    case False
    with net fields show ?thesis
      by (simp add: communicate_fits [OF assms(1)] check_reply_def del: command_code.simps)
  qed
qed

end
