(* ===== verification/Ads_Sim.thy ===== *)
theory Ads_Sim
  imports Ads_Server
begin

text \<open>
  The client against the simulated device, through all layers: \<open>communicate\<close>, the frames, the
  device and the reader thread. The memory of a device is an interface; the simulated device
  provides it.
\<close>

section \<open>Memory\<close>

definition peek :: "nat \<Rightarrow> nat \<Rightarrow> bytes \<Rightarrow> bytes" where
  "peek ofs n m = take n (drop ofs m)"

definition poke :: "nat \<Rightarrow> bytes \<Rightarrow> bytes \<Rightarrow> bytes" where
  "poke ofs d m = take ofs m @ d @ drop (ofs + length d) m"

lemma length_poke [simp]: "ofs + length d \<le> length m \<Longrightarrow> length (poke ofs d m) = length m"
  by (simp add: poke_def)

lemma length_peek [simp]: "ofs + n \<le> length m \<Longrightarrow> length (peek ofs n m) = n"
  by (simp add: peek_def)

lemma peek_poke_same: "ofs + length d \<le> length m \<Longrightarrow> peek ofs (length d) (poke ofs d m) = d"
  by (simp add: peek_def poke_def)

lemma peek_poke_other:
  assumes "ofs + length d \<le> length m" and "i + n \<le> ofs \<or> ofs + length d \<le> i"
  shows "peek i n (poke ofs d m) = peek i n m"
  using assms(2)
proof
  assume "i + n \<le> ofs"
  then show ?thesis using assms(1) by (auto simp: peek_def poke_def drop_take min_def)
next
  assume "ofs + length d \<le> i"
  then show ?thesis using assms(1) by (simp add: peek_def poke_def)
qed

section \<open>The interface of a memory\<close>

text \<open>A sequence of writes.\<close>

primrec write_all :: "'w comm \<Rightarrow> ams_addr \<Rightarrow> u32 \<Rightarrow> (nat \<times> bytes) list \<Rightarrow> ('w, unit) op" where
  "write_all comm addr grp [] = iret ()"
| "write_all comm addr grp (x # xs) =
     ibind (dev_write comm addr grp (of_nat (fst x)) (snd x)) (\<lambda>_. write_all comm addr grp xs)"

text \<open>
  A device with a memory under an index group: reads return its bytes, writes change exactly the
  bytes written, and accesses beyond its end are refused.
\<close>

locale plc_memory =
  fixes comm :: "'w comm" and addr :: ams_addr and grp :: u32
    and ok :: "'w conn \<Rightarrow> bool" and mem :: "'w conn \<Rightarrow> bytes"
  assumes reads: "ok s \<Longrightarrow> ofs + length buf \<le> length (mem s) \<Longrightarrow>
      \<exists>s'. dev_read comm addr grp (of_nat ofs) buf s = (Ok (length buf, peek ofs (length buf) (mem s)), s') \<and>
        ok s' \<and> mem s' = mem s"
    and writes: "ok s \<Longrightarrow> ofs + length d \<le> length (mem s) \<Longrightarrow>
      \<exists>s'. dev_write comm addr grp (of_nat ofs) d s = (Ok (), s') \<and> ok s' \<and> mem s' = poke ofs d (mem s)"
    and refuses: "ok s \<Longrightarrow> length (mem s) < ofs + length buf \<Longrightarrow> ofs < 2 ^ 32 \<Longrightarrow> length buf < 2 ^ 32 \<Longrightarrow>
      \<exists>e s'. dev_read comm addr grp (of_nat ofs) buf s = (Err e, s') \<and> ok s' \<and> mem s' = mem s"
begin

lemma reads_exactly:
  assumes "ok s" and "ofs + length buf \<le> length (mem s)"
  shows "\<exists>s'. read_exact comm addr grp (of_nat ofs) buf s = (Ok (peek ofs (length buf) (mem s)), s') \<and>
    ok s' \<and> mem s' = mem s"
  using reads [OF assms] assms(2) by (auto simp: read_exact_def ibind_def)

lemma write_all_refines:
  assumes "ok s" and "list_all (\<lambda>(ofs, d). ofs + length d \<le> length (mem s)) xs"
  shows "\<exists>s'. write_all comm addr grp xs s = (Ok (), s') \<and> ok s' \<and> mem s' = fold (\<lambda>(ofs, d). poke ofs d) xs (mem s)"
  using assms
proof (induction xs arbitrary: s)
  case (Cons x xs)
  obtain s1 where s1: "dev_write comm addr grp (of_nat (fst x)) (snd x) s = (Ok (), s1)" "ok s1"
    "mem s1 = poke (fst x) (snd x) (mem s)"
    using writes [OF Cons.prems(1), of "fst x" "snd x"] Cons.prems(2) by (auto simp: split_beta)
  have "list_all (\<lambda>(ofs, d). ofs + length d \<le> length (mem s1)) xs"
    using Cons.prems(2) s1(3) by (auto simp: list_all_iff)
  from Cons.IH [OF s1(2) this] s1 show ?case by (simp add: ibind_def split_beta)
qed simp

text \<open>A value that is written is read back, whatever the memory held.\<close>

lemma value_roundtrip:
  assumes "ok s" and "ofs + length (as_bytes v) \<le> length (mem s)" and "length dflt = length (as_bytes v)"
    and "from_bytes (as_bytes v) = v"
  shows "\<exists>s1 s2. write_value as_bytes comm addr grp (of_nat ofs) v s = (Ok (), s1) \<and>
    read_value dflt from_bytes comm addr grp (of_nat ofs) s1 = (Ok v, s2) \<and> ok s2"
proof -
  obtain s1 where s1: "dev_write comm addr grp (of_nat ofs) (as_bytes v) s = (Ok (), s1)" "ok s1"
    "mem s1 = poke ofs (as_bytes v) (mem s)"
    using writes [OF assms(1,2)] by blast
  have "ofs + length dflt \<le> length (mem s1)" using assms(2,3) s1(3) by simp
  from reads_exactly [OF s1(2) this] s1 assms show ?thesis
    by (auto simp: write_value_def read_value_def ibind_def peek_poke_same)
qed

end

section \<open>The simulated device provides it\<close>

abbreviation sim_comm :: "io_error \<Rightarrow> bool \<Rightarrow> sim comm" where
  "sim_comm fin bad \<equiv> communicate (sim_net fin (opts_default\<lparr>so_bad_notif := bad\<rparr>))"

definition sim_ok :: "server \<Rightarrow> bool" where
  "sim_ok sv \<longleftrightarrow> length (sv_data sv) = 1024 \<and> notif_ok sv"

lemma sim_opts: "opts_ok (opts_default\<lparr>so_bad_notif := bad\<rparr>)"
  by (simp add: opts_ok_def opts_default_def)

lemmas sim_groups = PLC_RW_M_def RW_SYMVAL_BYHANDLE_def RELEASE_SYMHANDLE_def

text \<open>Where an access leads to, and the bytes it reads or writes there; errors are ADS codes.\<close>

definition device_place :: "u32 \<Rightarrow> u32 \<Rightarrow> (nat, u32) outcome" where
  "device_place grp ofs =
     (if grp = RW_SYMVAL_BYHANDLE then (if ofs = 77 then Ok 1020 else Err 0x710)
      else if grp = PLC_RW_M then Ok (unat ofs) else Err 0x702)"

definition device_fetch :: "server \<Rightarrow> u32 \<Rightarrow> u32 \<Rightarrow> nat \<Rightarrow> (bytes, u32) outcome" where
  "device_fetch sv grp ofs n =
     rbind (device_place grp ofs) (\<lambda>i. if i + n \<le> length (sv_data sv) then Ok (peek i n (sv_data sv)) else Err 0x703)"

definition device_store :: "server \<Rightarrow> u32 \<Rightarrow> u32 \<Rightarrow> bytes \<Rightarrow> (server, u32) outcome" where
  "device_store sv grp ofs d =
     (if grp = RELEASE_SYMHANDLE then (if ofs = 77 then Ok sv else Err 0x710)
      else rbind (device_place grp ofs) (\<lambda>i.
        if i + length d \<le> length (sv_data sv) then Ok (sv\<lparr>sv_data := poke i d (sv_data sv)\<rparr>) else Err 0x703))"

definition stored :: "server \<Rightarrow> (server, u32) outcome \<Rightarrow> server" where
  "stored sv r = (case r of Ok sv' \<Rightarrow> sv' | _ \<Rightarrow> sv)"

lemma stored_simps [simp]: "stored sv (Ok sv') = sv'" "stored sv (Err e) = sv" "stored sv Panic = sv"
  by (simp_all add: stored_def)

lemma device_place_simps:
  "ofs < 4294967296 \<Longrightarrow> device_place PLC_RW_M (of_nat ofs) = Ok ofs" "device_place RW_SYMVAL_BYHANDLE 77 = Ok 1020"
  by (simp_all add: device_place_def sim_groups)

lemma do_read_fetch:
  assumes "n < 4294967296"
  shows "do_read sv (index_length_bytes \<lparr>index_group = grp, index_offset = ofs, il_length = of_nat n\<rparr>) =
    (case device_fetch sv grp ofs n of Ok d \<Rightarrow> (u32_le 0 @ u32_le (of_nat n) @ d, 0) | Err e \<Rightarrow> ([], e) | Panic \<Rightarrow> ([], 0))"
  using assms
  by (auto simp: do_read_def index_length_bytes_def size_IndexLength_def device_fetch_def device_place_def peek_def Let_def
      word_unat_eq_iff)

lemma do_write_store:
  assumes "length d < 4294967296"
  shows "do_write sv (index_length_bytes \<lparr>index_group = grp, index_offset = ofs, il_length = of_nat (length d)\<rparr> @ d) =
    ((case device_store sv grp ofs d of Ok _ \<Rightarrow> (u32_le 0, 0) | Err e \<Rightarrow> ([], e) | Panic \<Rightarrow> ([], 0)),
     stored sv (device_store sv grp ofs d))"
  using assms
  by (auto simp: do_write_def index_length_bytes_def size_IndexLength_def device_store_def device_place_def poke_def Let_def
      sim_groups word_unat_eq_iff)

lemma device_fetch_length: "device_fetch sv grp ofs n = Ok d \<Longrightarrow> length d = n \<and> n \<le> length (sv_data sv)"
  by (auto simp: device_fetch_def split: if_splits)

lemma device_codes:
  "device_fetch sv grp ofs n = Err e \<Longrightarrow> e \<noteq> 0" "device_fetch sv grp ofs n \<noteq> Panic"
  "device_store sv grp ofs d = Err e \<Longrightarrow> e \<noteq> 0" "device_store sv grp ofs d \<noteq> Panic"
  by (auto simp: device_fetch_def device_store_def device_place_def split: if_splits)

lemma device_place_cases:
  assumes "device_place grp o' = Ok ofs"
  shows "device_fetch sv grp o' n = (if ofs + n \<le> length (sv_data sv) then Ok (peek ofs n (sv_data sv)) else Err 0x703)"
    and "device_store sv grp o' d =
      (if ofs + length d \<le> length (sv_data sv) then Ok (sv\<lparr>sv_data := poke ofs d (sv_data sv)\<rparr>) else Err 0x703)"
  using assms by (auto simp: device_fetch_def device_store_def device_place_def sim_groups split: if_splits)

lemma sim_dev_read:
  assumes "sim_ok sv" and "device_place grp o' = Ok ofs" and "length buf < 4294967296"
  shows "dev_read (sim_comm fin bad) addr grp o' buf (cl, (sv, ns)) =
    (if ofs + length buf \<le> 1024 then Ok (length buf, peek ofs (length buf) (sv_data sv)) else ads_error (action Read) 0x703,
     (next_request cl, (sv, ns @ sim_notifs (opts_default\<lparr>so_bad_notif := bad\<rparr>) sv (req_header cl Read addr 12))))"
proof -
  let ?b = "index_length_bytes \<lparr>index_group = grp, index_offset = o', il_length = of_nat (length buf)\<rparr>"
  let ?data = "u32_le (of_nat (length buf)) @ peek ofs (length buf) (sv_data sv)"
  let ?in = "ofs + length buf \<le> 1024"
  have len: "length (sv_data sv) = 1024" "notif_ok sv" using assms(1) by (simp_all add: sim_ok_def)
  have "handle_request sv (command_code Read) (concat [?b]) =
      Ok ((if ?in then u32_le 0 @ ?data else [], if ?in then 0 else 0x703), sv)"
    using len by (simp add: handle_request_def do_read_fetch [OF assms(3)] device_place_cases [OF assms(2)])
  moreover have "length (peek ofs (length buf) (sv_data sv)) \<le> 1024" using len by (simp add: peek_def)
  ultimately have "sim_comm fin bad Read addr [?b] [u32_le 0, buf] (cl, (sv, ns)) =
     (if ?in then Ok (length ?data, scatter [u32_le 0, buf] ?data) else ads_error (action Read) 0x703,
      (next_request cl, (sv, ns @ sim_notifs (opts_default\<lparr>so_bad_notif := bad\<rparr>) sv (req_header cl Read addr 12))))"
    using sim_communicate [OF _ sim_opts [of bad] len(2), of "[?b]" "if ?in then u32_le 0 @ ?data else []" Read sv
        "if ?in then 0 else 0x703" ?data "[u32_le 0, buf]" fin addr cl ns]
    by (auto simp: room_for_def)
  then show ?thesis
    using assms len by (simp add: dev_read_def ibind_def try_u32_def ads_error_map_of)
qed

lemma sim_ok_poke: "sim_ok sv \<Longrightarrow> ofs + length d \<le> 1024 \<Longrightarrow> sim_ok (sv\<lparr>sv_data := poke ofs d (sv_data sv)\<rparr>)"
  by (auto simp: sim_ok_def notif_ok_def split: option.splits)

lemma sim_dev_write:
  assumes "sim_ok sv" and "device_place grp o' = Ok ofs" and "ofs + length d \<le> 1024"
  shows "dev_write (sim_comm fin bad) addr grp o' d (cl, (sv, ns)) =
    (Ok (), (next_request cl, (sv\<lparr>sv_data := poke ofs d (sv_data sv)\<rparr>,
       ns @ sim_notifs (opts_default\<lparr>so_bad_notif := bad\<rparr>) (sv\<lparr>sv_data := poke ofs d (sv_data sv)\<rparr>)
         (req_header cl Write addr (12 + length d)))))"
proof -
  let ?b = "index_length_bytes \<lparr>index_group = grp, index_offset = o', il_length = of_nat (length d)\<rparr>"
  let ?sv = "sv\<lparr>sv_data := poke ofs d (sv_data sv)\<rparr>"
  have len: "length (sv_data sv) = 1024" "notif_ok ?sv"
    using assms(1) sim_ok_poke [OF assms(1,3)] by (simp_all add: sim_ok_def)
  have h: "handle_request sv (command_code Write) (concat [?b, d]) = Ok ((u32_le 0, 0), ?sv)"
    using assms(3) len by (simp add: handle_request_def do_write_store device_place_cases [OF assms(2)])
  show ?thesis
    using sim_communicate [OF _ sim_opts [of bad] len(2) _ _ h, of "[]" "[]" fin addr cl ns] assms(3)
    by (simp add: dev_write_def ibind_def try_u32_def room_for_def)
qed

interpretation sim: plc_memory "sim_comm fin bad" addr PLC_RW_M
  "\<lambda>s. sim_ok (fst (snd s))" "\<lambda>s. sv_data (fst (snd s))" for fin bad addr
proof unfold_locales
  fix s :: "sim conn" and ofs and buf :: bytes
  assume a: "sim_ok (fst (snd s))" "ofs + length buf \<le> length (sv_data (fst (snd s)))"
  obtain cl sv ns where s: "s = (cl, (sv, ns))" by (metis prod_cases3)
  from a have b: "sim_ok sv" "ofs + length buf \<le> 1024" by (simp_all add: s sim_ok_def)
  then show "\<exists>s'. dev_read (sim_comm fin bad) addr PLC_RW_M (of_nat ofs) buf s =
      (Ok (length buf, peek ofs (length buf) (sv_data (fst (snd s)))), s') \<and>
      sim_ok (fst (snd s')) \<and> sv_data (fst (snd s')) = sv_data (fst (snd s))"
    by (simp add: s sim_dev_read device_place_simps)
next
  fix s :: "sim conn" and ofs and d :: bytes
  assume a: "sim_ok (fst (snd s))" "ofs + length d \<le> length (sv_data (fst (snd s)))"
  obtain cl sv ns where s: "s = (cl, (sv, ns))" by (metis prod_cases3)
  from a have "sim_ok sv" "ofs + length d \<le> 1024" by (simp_all add: s sim_ok_def)
  then show "\<exists>s'. dev_write (sim_comm fin bad) addr PLC_RW_M (of_nat ofs) d s = (Ok (), s') \<and>
      sim_ok (fst (snd s')) \<and> sv_data (fst (snd s')) = poke ofs d (sv_data (fst (snd s)))"
    by (simp add: s sim_dev_write device_place_simps sim_ok_poke)
next
  fix s :: "sim conn" and ofs and buf :: bytes
  assume a: "sim_ok (fst (snd s))" "length (sv_data (fst (snd s))) < ofs + length buf"
    "ofs < 2 ^ 32" "length buf < 2 ^ 32"
  obtain cl sv ns where s: "s = (cl, (sv, ns))" by (metis prod_cases3)
  from a show "\<exists>e s'. dev_read (sim_comm fin bad) addr PLC_RW_M (of_nat ofs) buf s = (Err e, s') \<and>
      sim_ok (fst (snd s')) \<and> sv_data (fst (snd s')) = sv_data (fst (snd s))"
    by (simp add: s sim_dev_read device_place_simps sim_ok_def ads_error_map_of)
qed

section \<open>Properties\<close>

text \<open>
  C3. The client against the simulated device refines a memory: any sequence of writes within
  the 1024 bytes succeeds, and a read then returns exactly the bytes that the same updates of a
  plain byte array leave in the range; it does so also while the device sends notifications, valid or
  broken ones, in front of its replies.
\<close>

theorem sim_refines_memory:
  assumes "sim_ok sv" and "list_all (\<lambda>(ofs, d). ofs + length d \<le> 1024) ws" and "ofs + length buf \<le> 1024"
  shows "\<exists>s1 s2. write_all (sim_comm fin bad) addr PLC_RW_M ws (cl, (sv, ns)) = (Ok (), s1) \<and>
    read_exact (sim_comm fin bad) addr PLC_RW_M (of_nat ofs) buf s1 =
      (Ok (peek ofs (length buf) (fold (\<lambda>(ofs, d). poke ofs d) ws (sv_data sv))), s2)"
proof -
  have len: "length (sv_data sv) = 1024" using assms(1) by (simp add: sim_ok_def)
  then obtain s1 where w: "write_all (sim_comm fin bad) addr PLC_RW_M ws (cl, (sv, ns)) = (Ok (), s1)"
    and ok: "sim_ok (fst (snd s1))" and m: "sv_data (fst (snd s1)) = fold (\<lambda>(ofs, d). poke ofs d) ws (sv_data sv)"
    using sim.write_all_refines [of "(cl, (sv, ns))" ws fin bad addr] assms(1,2) by auto
  have "ofs + length buf \<le> length (sv_data (fst (snd s1)))" using ok assms(3) by (simp add: sim_ok_def)
  with sim.reads_exactly [of s1 ofs buf fin bad addr] ok m obtain s2 where
    "read_exact (sim_comm fin bad) addr PLC_RW_M (of_nat ofs) buf s1 =
      (Ok (peek ofs (length buf) (fold (\<lambda>(ofs, d). poke ofs d) ws (sv_data sv))), s2)" by auto
  with w show ?thesis by blast
qed

lemma sim_ok_init: "sim_ok server_init"
  by (simp add: sim_ok_def server_init_def notif_ok_def)

theorem sim_refines_memory_witness:
  "\<exists>s1 s2. write_all (sim_comm (io_of_kind UnexpectedEof) False) demo_addr PLC_RW_M [(4, [1, 2, 3]), (5, [9])]
      (demo_client, (server_init, [])) = (Ok (), s1) \<and>
    read_exact (sim_comm (io_of_kind UnexpectedEof) False) demo_addr PLC_RW_M (of_nat 3) [0, 0, 0, 0] s1 =
      (Ok [0, 1, 9, 3], s2)"
proof -
  have "peek 3 (length ([0, 0, 0, 0] :: bytes)) (fold (\<lambda>(ofs, d). poke ofs d) [(4, [1, 2, 3]), (5, [9])] (sv_data server_init)) = [0, 1, 9, 3]"
    by (simp add: peek_def poke_def server_init_def)
  with sim_refines_memory [OF sim_ok_init, of "[(4, [1, 2, 3]), (5, [9])]" 3 "[0, 0, 0, 0]"
      "io_of_kind UnexpectedEof" False demo_addr demo_client "[]"]
  show ?thesis by simp
qed

lemma sim_add_notification:
  assumes "sim_ok sv" and "ofs + at_length attr \<le> 1024"
    and "as_millis (at_max_delay attr) < 4294967296" and "as_millis (at_cycle_time attr) < 4294967296"
  defines "sv1 \<equiv> sv\<lparr>sv_notif := Some (ofs, at_length attr)\<rparr>"
  shows "sim_ok sv1" and "\<exists>cl' ns'. add_notification (sim_comm fin bad) addr PLC_RW_M (of_nat ofs) attr (cl, (sv, ns)) =
      (Ok 132, (cl', (sv1, ns'))) \<and> (addr, 132) \<in> notif_handles cl'"
proof -
  let ?an = "\<lparr>an_index_group = PLC_RW_M, an_index_offset = of_nat ofs, an_length = of_nat (at_length attr),
      an_trans_mode = transmission_mode_code (at_trans_mode attr), an_max_delay = of_nat (as_millis (at_max_delay attr)),
      an_cycle_time = of_nat (as_millis (at_cycle_time attr)), an_reserved = replicate 16 0\<rparr>"
  have len: "length (sv_data sv) = 1024" using assms(1) by (simp add: sim_ok_def)
  then show ok: "sim_ok sv1" using assms(2) by (simp add: sim_ok_def notif_ok_def sv1_def)
  have "do_add_notif sv (add_notif_bytes ?an) = ((u32_le 0 @ u32_le 132, 0), sv1)"
    using assms(2) len by (simp add: do_add_notif_def add_notif_bytes_def size_AddNotif_def sv1_def Let_def)
  then have h: "handle_request sv (command_code AddNotification) (concat [add_notif_bytes ?an]) =
      Ok ((u32_le 0 @ u32_le 132, 0), sv1)" by (simp add: handle_request_def)
  have "notif_ok sv1" using ok by (simp add: sim_ok_def)
  from sim_communicate [OF _ sim_opts [of bad] this _ _ h, of "u32_le 132" "[u32_le 0]" fin addr cl ns] assms(2-4)
  show "\<exists>cl' ns'. add_notification (sim_comm fin bad) addr PLC_RW_M (of_nat ofs) attr (cl, (sv, ns)) =
      (Ok 132, (cl', (sv1, ns'))) \<and> (addr, 132) \<in> notif_handles cl'"
    by (simp add: add_notification_def ibind_def try_u32_def room_for_def length_add_notif_bytes insert_handle_def)
qed

lemma sim_notification_samples:
  assumes "ofs + len \<le> length (sv_data sv)" and "len + 60 < 4294967296"
  shows "rbind (notification_samples \<lparr>n_data = send_notification sv ofs len h False, nstamps = 1\<rparr>) samples_collect =
    Ok [\<lparr>s_handle = 132, s_timestamp = NOTIF_STAMP, s_data = peek ofs len (sv_data sv)\<rparr>]"
  using assms notification_collect [of "[(NOTIF_STAMP, [(132, peek ofs len (sv_data sv))])]"
      "\<lparr>n_data = send_notification sv ofs len h False, nstamps = 1\<rparr>"]
  by (simp add: send_notification_frame frame_def notification_payload_def samples_of_def peek_def)

section \<open>The symbol\<close>

lemma do_read_write_single:
  assumes "grp \<noteq> SUMUP_READWRITE"
  shows "do_read_write sv (index_length_rw_bytes \<lparr>rw_index_group = grp, rw_index_offset = ofs, rw_read_length = r,
      rw_write_length = w\<rparr> @ d) =
    do_read_write_one sv grp ofs (unat r) (unat w) (index_length_rw_bytes \<lparr>rw_index_group = grp,
      rw_index_offset = ofs, rw_read_length = r, rw_write_length = w\<rparr> @ d)"
  using assms by (simp add: do_read_write.simps index_length_rw_bytes_def size_IndexLengthRW_def)

lemma sim_handle_new:
  assumes "sim_ok sv"
  shows "\<exists>ns'. handle_new (sim_comm fin bad) addr (bytes_of ''SYMBOL'') (cl, (sv, ns)) =
    (Ok 77, (next_request cl, (sv, ns')))"
proof -
  let ?rw = "\<lparr>rw_index_group = GET_SYMHANDLE_BYNAME, rw_index_offset = 0, rw_read_length = 4, rw_write_length = 6\<rparr>"
  let ?d = "bytes_of ''SYMBOL''"
  have n: "length ?d = 6" by (simp add: bytes_of_def)
  have "do_read_write sv (index_length_rw_bytes ?rw @ ?d) = Ok ((u32_le 0 @ u32_le 4 @ u32_le 77, 0), sv)"
    by (subst do_read_write_single)
      (simp_all add: do_read_write_one_def GET_SYMHANDLE_BYNAME_def sumup_groups FILE_OPEN_def FILE_CLOSE_def
        FILE_WRITE_def FILE_READ_def FILE_DELETE_def Let_def)
  then have h: "handle_request sv (command_code ReadWrite) (concat [index_length_rw_bytes ?rw, ?d]) =
      Ok ((u32_le 0 @ u32_le 4 @ u32_le 77, 0), sv)" by (simp add: handle_request_def)
  have "notif_ok sv" using assms by (simp add: sim_ok_def)
  from sim_communicate [OF _ sim_opts [of bad] this _ _ h, of "u32_le 4 @ u32_le 77" "[u32_le 0, replicate 4 0]" fin addr cl ns]
  show ?thesis
    by (simp add: handle_new_def write_read_exact_def write_read_def ibind_def try_u32_def room_for_def n)
qed

text \<open>
  A value of the device's symbol: the handle of its name is obtained, a value written through
  the handle is read back through it, for every type of the symbol's size.
\<close>

theorem sim_symbol_roundtrip:
  assumes "sim_ok sv" and "length (as_bytes v) = 4" and "length dflt = 4" and "from_bytes (as_bytes v) = v"
  shows "\<exists>s1 s2 s3. handle_new (sim_comm fin bad) addr (bytes_of ''SYMBOL'') (cl, (sv, ns)) = (Ok 77, s1) \<and>
    handle_write_value as_bytes (sim_comm fin bad) addr 77 v s1 = (Ok (), s2) \<and>
    handle_read_value dflt from_bytes (sim_comm fin bad) addr 77 s2 = (Ok v, s3)"
proof -
  obtain ns1 where h: "handle_new (sim_comm fin bad) addr (bytes_of ''SYMBOL'') (cl, (sv, ns)) =
      (Ok 77, (next_request cl, (sv, ns1)))"
    using sim_handle_new [OF assms(1), of fin bad addr cl ns] by blast
  let ?sv = "sv\<lparr>sv_data := poke 1020 (as_bytes v) (sv_data sv)\<rparr>"
  have ok: "sim_ok ?sv" using sim_ok_poke [OF assms(1), of 1020 "as_bytes v"] assms(2) by simp
  obtain s2 ns2 where w: "dev_write (sim_comm fin bad) addr RW_SYMVAL_BYHANDLE 77 (as_bytes v) (next_request cl, (sv, ns1)) =
      (Ok (), (next_request (next_request cl), (?sv, ns2)))"
    using sim_dev_write [OF assms(1) device_place_simps(2), of "as_bytes v"] assms(2) by simp
  have "peek 1020 (length dflt) (sv_data ?sv) = as_bytes v"
    using peek_poke_same [of 1020 "as_bytes v" "sv_data sv"] assms by (simp add: sim_ok_def)
  with sim_dev_read [OF ok device_place_simps(2), of dflt fin bad addr] assms(2-4)
  have "\<exists>s3. read_value dflt from_bytes (sim_comm fin bad) addr RW_SYMVAL_BYHANDLE 77
      (next_request (next_request cl), (?sv, ns2)) = (Ok v, s3)"
    by (simp add: read_value_def read_exact_def ibind_def)
  with h w show ?thesis by (auto simp: handle_write_value_def write_value_def handle_read_value_def)
qed

theorem sim_symbol_roundtrip_witness:
  "\<exists>s1 s2 s3. handle_new (sim_comm (io_of_kind UnexpectedEof) True) demo_addr (bytes_of ''SYMBOL'')
      (demo_client, (server_init, [])) = (Ok 77, s1) \<and>
    handle_write_value u32_le (sim_comm (io_of_kind UnexpectedEof) True) demo_addr 77 0xDEADBEEF s1 = (Ok (), s2) \<and>
    handle_read_value [0, 0, 0, 0] le_u32 (sim_comm (io_of_kind UnexpectedEof) True) demo_addr 77 s2 = (Ok 0xDEADBEEF, s3)"
  by (rule sim_symbol_roundtrip) (simp_all add: sim_ok_init)

section \<open>Sum-up writes\<close>

text \<open>What the device makes of a list of single writes.\<close>

primrec write_results :: "server \<Rightarrow> write_request list \<Rightarrow> u32 list \<times> server" where
  "write_results sv [] = ([], sv)"
| "write_results sv (r # rs) =
     (let ((_, e), sv1) = do_write sv (index_length_bytes (wr_req r) @ wr_wbuf r);
          (es, sv2) = write_results sv1 rs
      in (e # es, sv2))"

lemma length_concat_il [simp]: "length (concat (map (\<lambda>r. index_length_bytes (f r)) rs)) = 12 * length rs"
  by (induction rs) simp_all

lemma sumup_write_loop_results:
  fixes xs ys :: "write_request list"
  assumes "length hdr = 16" and "list_all (\<lambda>r. il_length (wr_req r) = of_nat (length (wr_wbuf r)) \<and> length (wr_wbuf r) < 4294967296) ys"
  shows "sumup_write_loop sv (hdr @ concat (map (\<lambda>r. index_length_bytes (wr_req r)) (xs @ ys)) @ concat (map wr_wbuf (xs @ ys)))
      (length xs) (16 + 12 * length (xs @ ys) + length (concat (map wr_wbuf xs))) (length ys) =
    Ok (concat (map u32_le (fst (write_results sv ys))), snd (write_results sv ys))"
  using assms
proof (induction ys arbitrary: sv xs)
  case (Cons y ys)
  let ?data = "hdr @ concat (map (\<lambda>r. index_length_bytes (wr_req r)) (xs @ y # ys)) @ concat (map wr_wbuf (xs @ y # ys))"
  let ?woff = "16 + 12 * length (xs @ y # ys) + length (concat (map wr_wbuf xs))"
  have h: "drop (16 + length xs * 12) ?data = index_length_bytes (wr_req y) @
      concat (map (\<lambda>r. index_length_bytes (wr_req r)) ys) @ concat (map wr_wbuf (xs @ y # ys))"
    using Cons.prems(1) by simp
  have d: "drop ?woff ?data = wr_wbuf y @ concat (map wr_wbuf ys)"
    using Cons.prems(1) by (simp add: algebra_simps)
  have len: "length ?data = 16 + 12 * length (xs @ y # ys) + length (concat (map wr_wbuf (xs @ y # ys)))"
    using Cons.prems(1) by simp
  have s1: "slice_of ?data (16 + length xs * 12) (16 + length xs * 12 + 12) = Ok (index_length_bytes (wr_req y))"
    using h len by (simp add: slice_of_def)
  have s2: "slice_of ?data (16 + length xs * 12 + 8) (16 + length xs * 12 + 12) = Ok (u32_le (of_nat (length (wr_wbuf y))))"
  proof -
    have "drop (16 + length xs * 12 + 8) ?data = drop 8 (drop (16 + length xs * 12) ?data)"
      by (simp only: drop_drop add.commute)
    also have "\<dots> = u32_le (of_nat (length (wr_wbuf y))) @ concat (map (\<lambda>r. index_length_bytes (wr_req r)) ys) @
        concat (map wr_wbuf (xs @ y # ys))"
      unfolding h using Cons.prems(2) by (simp add: index_length_bytes_def)
    finally show ?thesis using len by (simp add: slice_of_def)
  qed
  have s3: "slice_of ?data ?woff (?woff + length (wr_wbuf y)) = Ok (wr_wbuf y)"
    using d len by (simp add: slice_of_def)
  obtain rep e sv1 where w: "do_write sv (index_length_bytes (wr_req y) @ wr_wbuf y) = ((rep, e), sv1)"
    by (metis prod_cases3 prod.exhaust)
  have n: "unat (le_u32 (u32_le (of_nat (length (wr_wbuf y))))) = length (wr_wbuf y)" using Cons.prems(2) by simp
  have ih: "sumup_write_loop sv1 ?data (Suc (length xs)) (?woff + length (wr_wbuf y)) (length ys) =
      Ok (concat (map u32_le (fst (write_results sv1 ys))), snd (write_results sv1 ys))"
    using Cons.IH [of sv1 "xs @ [y]"] Cons.prems by (simp add: add.assoc)
  show ?case
    by (simp only: list.size sumup_write_loop.simps s1 s2 s3 rbind.simps Let_def n w prod.case ih rmap.simps
        write_results.simps fst_conv snd_conv list.map concat.simps add_0_right add_Suc_right One_nat_def plus_1_eq_Suc)
      (simp add: split_beta)
qed simp

text \<open>In range or not: what a write leaves of the memory, and its result.\<close>

definition poke_if :: "nat \<times> bytes \<Rightarrow> bytes \<Rightarrow> bytes" where
  "poke_if x m = (if fst x + length (snd x) \<le> length m then poke (fst x) (snd x) m else m)"

definition write_requests :: "(nat \<times> bytes) list \<Rightarrow> write_request list" where
  "write_requests xs = map (\<lambda>(ofs, d). write_request_new PLC_RW_M (of_nat ofs) d) xs"

lemma write_results_memory:
  assumes "sim_ok sv" and "list_all (\<lambda>(ofs, d). ofs < 4294967296 \<and> length d < 4294967296) xs"
  shows "write_results sv (write_requests xs) =
    (map (\<lambda>(ofs, d). if ofs + length d \<le> 1024 then 0 else 0x703) xs, sv\<lparr>sv_data := fold poke_if xs (sv_data sv)\<rparr>)"
  using assms
proof (induction xs arbitrary: sv)
  case (Cons x xs)
  obtain ofs d where x: "x = (ofs, d)" by fastforce
  have len: "length (sv_data sv) = 1024" using Cons.prems(1) by (simp add: sim_ok_def)
  let ?il = "index_length_bytes \<lparr>index_group = PLC_RW_M, index_offset = of_nat ofs, il_length = of_nat (length d)\<rparr>"
  let ?sv = "sv\<lparr>sv_data := poke_if x (sv_data sv)\<rparr>"
  have "\<exists>rep. do_write sv (?il @ d) = ((rep, if ofs + length d \<le> 1024 then 0 else 0x703), ?sv)"
    using Cons.prems(2) len by (cases "ofs + length d \<le> 1024")
      (simp_all add: x poke_if_def do_write_store device_place_cases(2) [OF device_place_simps(1)])
  then obtain rep where w: "do_write sv (?il @ d) = ((rep, if ofs + length d \<le> 1024 then 0 else 0x703), ?sv)" by blast
  have "sim_ok ?sv" using sim_ok_poke [OF Cons.prems(1), of ofs d] Cons.prems(1) len by (auto simp: poke_if_def x)
  from Cons.IH [OF this] Cons.prems(2) w show ?case
    by (simp add: write_requests_def write_request_new_def x)
qed (simp add: write_requests_def)

lemma fold_poke_if_length: "length (fold poke_if xs m) = length m"
proof (induction xs arbitrary: m)
  case (Cons x xs)
  have "length (poke_if x m) = length m" by (simp add: poke_if_def)
  with Cons show ?case by simp
qed simp

lemma write_requests_simps:
  "length (write_requests xs) = length xs" "map wr_wbuf (write_requests xs) = map snd xs"
  "list_all (\<lambda>r. il_length (wr_req r) = of_nat (length (wr_wbuf r)) \<and> length (wr_wbuf r) < 4294967296) (write_requests xs) \<longleftrightarrow>
     list_all (\<lambda>x. length (snd x) < 4294967296) xs"
  by (simp_all add: write_requests_def write_request_new_def list_all_iff split_beta)

definition sumup_size :: "(nat \<times> bytes) list \<Rightarrow> nat" where
  "sumup_size xs = sum_list (map (\<lambda>x. 12 + length (snd x)) xs)"

lemma sumup_size:
  "length (concat (map snd xs)) + 12 * length xs = sumup_size xs"
  "sum_list (map (\<lambda>r. size_IndexLength + length (wr_wbuf r)) (write_requests xs)) = sumup_size xs"
  "x \<in> set xs \<Longrightarrow> length (snd x) \<le> sumup_size xs"
  by (induction xs) (auto simp: sumup_size_def write_requests_def write_request_new_def size_IndexLength_def)

lemma length_concat_u32_le [simp]: "length (concat (map u32_le es)) = 4 * length es"
  by (induction es) simp_all

lemma put_write_results: "length rs = length es \<Longrightarrow> map wr_res (map2 (\<lambda>r e. r\<lparr>wr_res := e\<rparr>) rs es) = es"
  by (induction rs es rule: list_induct2) simp_all

abbreviation wf_write :: "write_request \<Rightarrow> bool" where
  "wf_write r \<equiv> il_length (wr_req r) = of_nat (length (wr_wbuf r)) \<and> length (wr_wbuf r) < 4294967296"

lemma length_write_results [simp]: "length (fst (write_results sv rs)) = length rs"
  by (induction rs arbitrary: sv) (simp_all add: split_beta)

lemma sim_sumup_write_reply:
  assumes "list_all wf_write rs" and "12 * length rs < 4294967296"
  shows "do_read_write sv (index_length_rw_bytes \<lparr>rw_index_group = SUMUP_WRITE, rw_index_offset = of_nat (length rs),
        rw_read_length = r, rw_write_length = w\<rparr> @
      concat (map (\<lambda>r. index_length_bytes (wr_req r)) rs) @ concat (map wr_wbuf rs)) =
    Ok ((u32_le 0 @ u32_le (of_nat (4 * length rs)) @ concat (map u32_le (fst (write_results sv rs))), 0), snd (write_results sv rs))"
proof -
  let ?hdr = "index_length_rw_bytes \<lparr>rw_index_group = SUMUP_WRITE, rw_index_offset = of_nat (length rs),
      rw_read_length = r, rw_write_length = w\<rparr>"
  have "sumup_write_loop sv (?hdr @ concat (map (\<lambda>r. index_length_bytes (wr_req r)) rs) @ concat (map wr_wbuf rs))
      0 (16 + length rs * 12) (length rs) = Ok (concat (map u32_le (fst (write_results sv rs))), snd (write_results sv rs))"
    using sumup_write_loop_results [OF _ assms(1), of ?hdr sv "[]"] by (simp add: mult.commute)
  then show ?thesis
    using assms(2) by (subst do_read_write_single) (simp_all add: do_read_write_one_def sumup_groups times_u32_def Let_def)
qed

text \<open>What the caller gets of the results.\<close>

abbreviation write_bufs :: "write_request list \<Rightarrow> bytes list" where
  "write_bufs rs \<equiv> u32_le 0 # map (\<lambda>r. u32_le (wr_res r)) rs"

abbreviation write_payload :: "write_request list \<Rightarrow> bytes list" where
  "write_payload rs \<equiv>
     index_length_rw_bytes \<lparr>rw_index_group = SUMUP_WRITE, rw_index_offset = of_nat (length rs),
       rw_read_length = of_nat (4 * length rs),
       rw_write_length = of_nat (sum_list (map (\<lambda>r. size_IndexLength + length (wr_wbuf r)) rs))\<rparr> #
     map (\<lambda>r. index_length_bytes (wr_req r)) rs @ map wr_wbuf rs"

lemma scatter_results:
  assumes "length es = length rs"
  shows "scatter (u32_le 0 # map (\<lambda>r. u32_le (f r)) rs) (u32_le n @ concat (map u32_le es)) = u32_le n # map u32_le es"
  using scatter_exact [of "u32_le n # map u32_le es" "u32_le 0 # map (\<lambda>r. u32_le (f r)) rs"] assms
  by (simp add: o_def map_replicate_const)

lemma write_multi_answers:
  assumes "comm ReadWrite addr (write_payload rs) (write_bufs rs) s =
      (Ok (m, scatter (write_bufs rs) (u32_le n @ concat (map u32_le es))), s')"
    and "length es = length rs" and "sum_list (map (\<lambda>r. size_IndexLength + length (wr_wbuf r)) rs) < 4294967296"
  shows "write_multi comm addr rs s = (Ok (map2 (\<lambda>r e. r\<lparr>wr_res := e\<rparr>) rs es), s')"
proof -
  have "4 * length rs \<le> sum_list (map (\<lambda>r. size_IndexLength + length (wr_wbuf r)) rs)"
    by (induction rs) (simp_all add: size_IndexLength_def)
  then have "sumup_header SUMUP_WRITE (length rs) (4 * length rs)
      (sum_list (map (\<lambda>r. size_IndexLength + length (wr_wbuf r)) rs)) = Ok (hd (write_payload rs))"
    using assms(3) by (simp add: sumup_header_def try_u32_def)
  moreover have "map2 (\<lambda>r b. r\<lparr>wr_res := le_u32 b\<rparr>) rs (map u32_le es) = map2 (\<lambda>r e. r\<lparr>wr_res := e\<rparr>) rs es"
    using assms(2) by (auto intro!: nth_equalityI)
  ultimately show ?thesis
    using assms(1) unfolding write_multi_def scatter_results [OF assms(2)]
    by (simp add: ibind_def)
qed

text \<open>
  C11. A sum-up write against the simulated device: the call succeeds, every single write reports its
  own result, out of range or not, and the memory is changed by exactly the writes in range, one
  after another.
\<close>

theorem sim_write_multi:
  assumes "sim_ok sv" and "list_all (\<lambda>x. fst x < 2 ^ 32) xs" and "48 + sumup_size xs < 2 ^ 32"
  shows "\<exists>rs' cl' ns'. write_multi (sim_comm fin bad) addr (write_requests xs) (cl, (sv, ns)) =
      (Ok rs', (cl', (sv\<lparr>sv_data := fold poke_if xs (sv_data sv)\<rparr>, ns'))) \<and>
    map wr_res rs' = map (\<lambda>(ofs, d). if ofs + length d \<le> 1024 then 0 else 0x703) xs"
proof -
  let ?rs = "write_requests xs" and ?sv = "sv\<lparr>sv_data := fold poke_if xs (sv_data sv)\<rparr>"
  define es :: "u32 list" where "es = map (\<lambda>(ofs, d). if ofs + length d \<le> 1024 then 0 else 0x703) xs"
  let ?data = "u32_le (of_nat (4 * length ?rs)) @ concat (map u32_le es)"
  have each: "length (snd x) < 4294967296" if "x \<in> set xs" for x using sumup_size(3) [OF that] assms(3) by simp
  have small: "12 * length ?rs \<le> sumup_size xs" using sumup_size(1) [of xs] by (simp add: write_requests_simps(1))
  have wf: "list_all wf_write ?rs" unfolding write_requests_simps(3) using each by (simp add: list_all_iff)
  have "list_all (\<lambda>(ofs, d). ofs < 4294967296 \<and> length d < 4294967296) xs" using assms(2) each by (auto simp: list_all_iff)
  then have h: "handle_request sv (command_code ReadWrite) (concat (write_payload ?rs)) = Ok ((u32_le 0 @ ?data, 0), ?sv)"
    using sim_sumup_write_reply [OF wf, of sv] write_results_memory [OF assms(1)] small assms(3)
    by (simp add: handle_request_def es_def)
  have es: "length es = length ?rs" by (simp add: es_def write_requests_simps(1))
  have fits: "fits (write_payload ?rs)" using assms(3) sumup_size(1) [of xs] by (simp add: write_requests_simps(1,2))
  have ok: "notif_ok ?sv"
    using assms(1) by (auto simp: sim_ok_def notif_ok_def fold_poke_if_length split: option.splits)
  obtain ns' where "sim_comm fin bad ReadWrite addr (write_payload ?rs) (write_bufs ?rs) (cl, (sv, ns)) =
      (Ok (length ?data, scatter (write_bufs ?rs) ?data), (next_request cl, (?sv, ns')))"
    using sim_communicate [OF fits sim_opts [of bad] ok _ _ h, of ?data "write_bufs ?rs" fin addr cl ns] small assms(3) es
    by (simp add: room_for_def)
  from write_multi_answers [where comm = "sim_comm fin bad", OF this] have
    "write_multi (sim_comm fin bad) addr ?rs (cl, (sv, ns)) =
      (Ok (map2 (\<lambda>r e. r\<lparr>wr_res := e\<rparr>) ?rs es), (next_request cl, (?sv, ns')))"
    using assms(3) es unfolding sumup_size(2) by simp
  with put_write_results [OF es [symmetric]] show ?thesis by (simp add: es_def)
qed

theorem sim_write_multi_witness:
  "\<exists>rs' cl' ns'. write_multi (sim_comm (io_of_kind UnexpectedEof) False) demo_addr
      (write_requests [(4, [1, 2]), (1023, [7, 7]), (5, [9])]) (demo_client, (server_init, [])) =
      (Ok rs', (cl', (server_init\<lparr>sv_data := fold poke_if [(4, [1, 2]), (1023, [7, 7]), (5, [9])] (replicate 1024 0)\<rparr>, ns'))) \<and>
    map wr_res rs' = [0, 0x703, 0]"
  using sim_write_multi [OF sim_ok_init, of "[(4, [1, 2]), (1023, [7, 7]), (5, [9])]" "io_of_kind UnexpectedEof" False
      demo_addr demo_client "[]"]
  by (simp add: sumup_size_def server_init_def)

section \<open>The invariant of the device\<close>

text \<open>
  The memory keeps its size, the range of the notification lies in it, and the position of a file that
  is open for reading does not pass the end of the file.
\<close>

definition server_ok :: "server \<Rightarrow> bool" where
  "server_ok sv \<longleftrightarrow> sim_ok sv \<and> (case sv_file_ptr sv of Some (False, ptr) \<Rightarrow> ptr \<le> 888 | _ \<Rightarrow> True)"

lemmas server_ok_defs = server_ok_def sim_ok_def notif_ok_def

text \<open>The updates that the handlers make.\<close>

lemma server_ok_updates:
  assumes "server_ok sv"
  shows "length m = 1024 \<Longrightarrow> server_ok (sv\<lparr>sv_data := m\<rparr>)"
    and "server_ok (sv\<lparr>sv_notif := None\<rparr>)"
    and "ofs + len \<le> length (sv_data sv) \<Longrightarrow> server_ok (sv\<lparr>sv_notif := Some (ofs, len)\<rparr>)"
    and "server_ok (sv\<lparr>sv_state := x\<rparr>)"
    and "server_ok (sv\<lparr>sv_file_ptr := None\<rparr>)"
    and "w \<or> ptr \<le> 888 \<Longrightarrow> server_ok (sv\<lparr>sv_file_ptr := Some (w, ptr)\<rparr>)"
  using assms by (auto simp: server_ok_defs split: option.splits bool.splits)

lemma server_ok_length: "server_ok sv \<Longrightarrow> length (sv_data sv) = 1024"
  by (simp add: server_ok_defs)

lemma do_write_keeps:
  assumes "server_ok sv"
  shows "server_ok (snd (do_write sv data))"
proof -
  define ofs where "ofs = (if le_u32 (take 4 data) = RW_SYMVAL_BYHANDLE then 1020 else unat (le_u32 (take 4 (drop 4 data))))"
  define len where "len = unat (le_u32 (take 4 (drop 8 data)))"
  have upd: "server_ok (sv\<lparr>sv_data := take ofs (sv_data sv) @ drop 12 data @ drop (ofs + len) (sv_data sv)\<rparr>)"
    if "\<not> length (sv_data sv) < ofs + len" and "\<not> length data \<noteq> size_IndexLength + len"
    using assms that by (intro server_ok_updates(1)) (simp_all add: server_ok_length size_IndexLength_def)
  show ?thesis
    unfolding do_write_def Let_def ofs_def [symmetric] len_def [symmetric]
    using assms upd by simp
qed

lemma do_notif_keeps:
  assumes "server_ok sv"
  shows "server_ok (snd (do_add_notif sv data))" "server_ok (snd (do_del_notif sv data))"
  using assms by (simp_all add: do_add_notif_def do_del_notif_def Let_def server_ok_updates)

lemma do_write_control_keeps: "server_ok sv \<Longrightarrow> server_ok (snd (do_write_control sv data))"
  by (simp add: do_write_control_def Let_def server_ok_updates split: outcome.split)

lemma sumup_loops_keep:
  assumes "server_ok sv"
  shows "sumup_write_loop sv data i woff k = Ok (m, sv') \<Longrightarrow> server_ok sv'"
    and "sumup_add_loop sv data i k = Ok (m, sv') \<Longrightarrow> server_ok sv'"
    and "sumup_del_loop sv data i k = Ok (m, sv') \<Longrightarrow> server_ok sv'"
  using assms
proof -
  show "sumup_write_loop sv data i woff k = Ok (m, sv') \<Longrightarrow> server_ok sv'"
    using assms
  proof (induction k arbitrary: sv i woff m)
    case (Suc k)
    then show ?case by (fastforce simp: Let_def split_beta intro: do_write_keeps)
  qed simp
  show "sumup_add_loop sv data i k = Ok (m, sv') \<Longrightarrow> server_ok sv'"
    using assms
  proof (induction k arbitrary: sv i m)
    case (Suc k)
    then show ?case by (fastforce simp: Let_def split_beta intro: do_notif_keeps)
  qed simp
  show "sumup_del_loop sv data i k = Ok (m, sv') \<Longrightarrow> server_ok sv'"
    using assms
  proof (induction k arbitrary: sv i m)
    case (Suc k)
    then show ?case by (fastforce simp: Let_def split_beta intro: do_notif_keeps)
  qed simp
qed

lemma do_read_write_one_keeps:
  assumes "do_read_write_one sv grp ofs rlen wlen data = Ok (r, sv')" and "server_ok sv"
  shows "server_ok sv'"
  using assms
  by (auto simp: do_read_write_one_def Let_def server_ok_updates split: if_splits option.splits bool.splits
      dest: sumup_loops_keep [OF assms(2)])

lemma do_read_write_keeps:
  "do_read_write sv data = Ok (r, sv') \<Longrightarrow> server_ok sv \<Longrightarrow> server_ok sv'"
  "do_all sv ds = Ok (rs, sv') \<Longrightarrow> server_ok sv \<Longrightarrow> server_ok sv'"
proof (induction sv data and sv ds arbitrary: r sv' and rs sv' rule: do_read_write_do_all.induct)
  case (1 sv data)
  then show ?case
    by (subst (asm) do_read_write.simps)
      (auto split: if_splits outcome.splits dest: do_read_write_one_keeps)
next
  case (3 sv d ds)
  then show ?case by auto
qed simp

lemma handle_request_keeps:
  assumes "handle_request sv cmd data = Ok (r, sv')" and "server_ok sv"
  shows "server_ok sv'"
  using assms do_write_keeps [of sv data] do_notif_keeps [of sv data] do_write_control_keeps [of sv data]
  by (auto simp: handle_request_def split: if_splits dest: do_read_write_keeps)

text \<open>
  C32. The device keeps its invariant whatever it is asked: no request, well-formed or not and nested or
  not, changes the size of the memory, leaves a notification outside of it or moves the position of a
  file that is open for reading past its 888 bytes. The position of a file open for writing is not bounded by
  the device.
\<close>

theorem server_keeps_invariant:
  assumes "server_ok sv" and "handle_client opts sv h data = Ok (out, sv')"
  shows "server_ok sv'"
proof -
  obtain r where "handle_request sv (hdr_command h) data = Ok (r, sv')"
    using assms(2) by (fastforce simp: handle_client_def split: if_splits)
  then show ?thesis using assms(1) by (rule handle_request_keeps)
qed

theorem server_keeps_invariant_witness:
  "\<exists>out sv'. handle_client opts_default server_init (demo_header Write)
      (index_length_bytes \<lparr>index_group = PLC_RW_M, index_offset = 1022, il_length = 2\<rparr> @ [7, 8]) = Ok (out, sv') \<and>
    peek 1022 2 (sv_data sv') = [7, 8] \<and> server_ok sv'"
proof -
  let ?sv = "server_init\<lparr>sv_data := poke 1022 [7, 8] (sv_data server_init)\<rparr>"
  have init: "server_ok server_init" by (simp add: server_ok_defs server_init_def)
  have "do_write server_init (index_length_bytes \<lparr>index_group = PLC_RW_M, index_offset = 1022, il_length = 2\<rparr> @ [7, 8]) =
      ((u32_le 0, 0), ?sv)"
    using do_write_store [of "[7, 8]" server_init] device_place_cases(2) [OF device_place_simps(1) [of 1022]]
    by (simp add: server_init_def)
  then obtain out where out: "handle_client opts_default server_init (demo_header Write)
      (index_length_bytes \<lparr>index_group = PLC_RW_M, index_offset = 1022, il_length = 2\<rparr> @ [7, 8]) = Ok (out, ?sv)"
    by (simp add: handle_client_def handle_request_def demo_header_def notification_part_def plus_32_fits_def server_init_def)
  have "peek 1022 2 (sv_data ?sv) = [7, 8]"
    using peek_poke_same [of 1022 "[7, 8]" "sv_data server_init"] by (simp add: server_init_def numeral_2_eq_2)
  with out server_keeps_invariant [OF init out] show ?thesis by blast
qed

section \<open>A device that misbehaves\<close>








end
