(* ===== verification/Ads_Float.thy ===== *)
theory Ads_Float
  imports Complex_Main Ads_Prelude
begin

text \<open>
  Single precision arithmetic as far as the crate uses it: quotients and sums of positive
  numbers, rounded to the nearest number with 24 bits, ties to even. Numbers are rationals. The range
  of the exponent is left open; the users of this theory show that they stay within it.
\<close>

section \<open>Rounding\<close>

definition round_even :: "rat \<Rightarrow> int" where
  "round_even q =
     (let n = \<lfloor>q\<rfloor>; r = q - of_int n in
      if r < 1 / 2 then n else if r > 1 / 2 then n + 1 else if even n then n else n + 1)"

text \<open>A number is scaled until it has 24 bits in front of the point.\<close>

function f32_round :: "rat \<Rightarrow> rat" where
  "f32_round q =
     (if q \<le> 0 then 0
      else if q < 2 ^ 23 then f32_round (2 * q) / 2
      else if 2 ^ 24 \<le> q then 2 * f32_round (q / 2)
      else of_int (round_even q))"
  by pat_completeness auto

termination
proof (relation "measure (\<lambda>q. if q < 2 ^ 23 then nat \<lceil>2 ^ 24 / q\<rceil> else if q < 2 ^ 24 then 0 else nat \<lfloor>q\<rfloor>)", goal_cases)
  case (2 q)
  then have q: "0 < q" "q < 2 ^ 23" by auto
  have "1 < 2 ^ 23 / q" using q by simp
  moreover have "2 ^ 24 / q = 2 ^ 23 / q + 2 ^ 23 / q" by simp
  ultimately have "\<lceil>2 ^ 23 / q\<rceil> < \<lceil>2 ^ 24 / q\<rceil>" "0 < \<lceil>2 ^ 24 / q\<rceil>" by linarith+
  moreover have "2 ^ 24 / (2 * q) = 2 ^ 23 / q" using q by (simp add: field_simps)
  ultimately show ?case using q by simp
next
  case (3 q)
  then have q: "16777216 \<le> q" by auto
  then have "\<lfloor>q / 2\<rfloor> < \<lfloor>q\<rfloor>" "0 < \<lfloor>q\<rfloor>" by linarith+
  then show ?case using q by simp
qed simp

declare f32_round.simps [simp del]

lemma round_even_cases:
  obtains "round_even q = \<lfloor>q\<rfloor>" "q - of_int \<lfloor>q\<rfloor> \<le> 1 / 2"
    | "round_even q = \<lfloor>q\<rfloor> + 1" "1 / 2 \<le> q - of_int \<lfloor>q\<rfloor>"
  unfolding round_even_def Let_def by (metis linorder_not_less order_less_imp_le)

lemma round_even_near: "\<bar>of_int (round_even q) - q\<bar> \<le> 1 / 2"
  by (rule round_even_cases [of q]; linarith)

lemma round_even_le: "q \<le> of_int m \<Longrightarrow> round_even q \<le> m"
  by (rule round_even_cases [of q]; linarith)

lemma le_round_even: "of_int m \<le> q \<Longrightarrow> m \<le> round_even q"
  by (rule round_even_cases [of q]; linarith)

lemma round_even_int [simp]: "round_even (of_int n) = n"
  by (simp add: round_even_def)

lemma round_even_mono:
  assumes "p \<le> q"
  shows "round_even p \<le> round_even q"
proof (cases "\<lfloor>p\<rfloor> = \<lfloor>q\<rfloor>")
  case True
  with assms show ?thesis by (simp add: round_even_def Let_def)
next
  case False
  with assms have "\<lfloor>p\<rfloor> + 1 \<le> \<lfloor>q\<rfloor>" using floor_mono [of p q] by linarith
  moreover have "round_even p \<le> \<lfloor>p\<rfloor> + 1" by (rule round_even_le) linarith
  moreover have "\<lfloor>q\<rfloor> \<le> round_even q" by (rule le_round_even) simp
  ultimately show ?thesis by linarith
qed

text \<open>The result for a number in each of the ranges.\<close>

lemma f32_round_simps:
  "q \<le> 0 \<Longrightarrow> f32_round q = 0"
  "0 < q \<Longrightarrow> q < 8388608 \<Longrightarrow> f32_round q = f32_round (2 * q) / 2"
  "16777216 \<le> q \<Longrightarrow> f32_round q = 2 * f32_round (q / 2)"
  "8388608 \<le> q \<Longrightarrow> q < 16777216 \<Longrightarrow> f32_round q = of_int (round_even q)"
  by (subst f32_round.simps; simp)+

lemma f32_round_0 [simp]: "f32_round 0 = 0"
  by (simp add: f32_round_simps)

lemma f32_round_double: "f32_round (2 * q) = 2 * f32_round q"
proof -
  consider "q \<le> 0" | "0 < q" "q < 8388608" | "8388608 \<le> q" by linarith
  then show ?thesis
  proof cases
    case 3
    then show ?thesis using f32_round_simps(3) [of "2 * q"] by simp
  qed (simp_all add: f32_round_simps(1,2))
qed

lemma f32_round_scale: "f32_round (2 ^ k * q) = 2 ^ k * f32_round q"
  by (induction k) (simp_all add: f32_round_double mult.assoc)

text \<open>Every positive number can be scaled into the range where rounding is rounding to an integer.\<close>

lemma scaled:
  assumes "0 < (q :: rat)"
  obtains k m where "8388608 \<le> 2 ^ k * q / 2 ^ m" and "2 ^ k * q / 2 ^ m < 16777216"
proof -
  have "\<exists>k m. 8388608 \<le> 2 ^ k * q / 2 ^ m \<and> 2 ^ k * q / 2 ^ m < 16777216"
    using assms
  proof (induction q rule: f32_round.induct)
    case (1 q)
    consider "q < 8388608" | "16777216 \<le> q" | "8388608 \<le> q" "q < 16777216" by linarith
    then show ?case
    proof cases
      case 1
      with \<open>0 < q\<close> "1.IH"(1) obtain k m where "8388608 \<le> 2 ^ k * (2 * q) / 2 ^ m" "2 ^ k * (2 * q) / 2 ^ m < 16777216"
        by auto
      then show ?thesis by (intro exI [of _ "Suc k"] exI [of _ m]) (simp add: mult.left_commute)
    next
      case 2
      with \<open>0 < q\<close> "1.IH"(2) obtain k m where "8388608 \<le> 2 ^ k * (q / 2) / 2 ^ m" "2 ^ k * (q / 2) / 2 ^ m < 16777216"
        by auto
      then show ?thesis by (intro exI [of _ k] exI [of _ "Suc m"]) (simp add: mult.commute)
    next
      case 3
      then show ?thesis by (intro exI [of _ 0]) simp
    qed
  qed
  then show thesis using that by blast
qed

lemma f32_round_unscale: "f32_round q = 2 ^ m * f32_round (2 ^ k * q / 2 ^ m) / 2 ^ k"
proof -
  have "2 ^ m * f32_round (2 ^ k * q / 2 ^ m) = f32_round (2 ^ m * (2 ^ k * q / 2 ^ m))" by (rule f32_round_scale [symmetric])
  also have "\<dots> = 2 ^ k * f32_round q" by (simp add: f32_round_scale)
  finally show ?thesis by simp
qed

section \<open>The error of rounding\<close>

text \<open>The relative error is at most \<open>2\<^sup>-\<^sup>2\<^sup>4\<close>.\<close>

lemma error_scaled:
  fixes p r c :: rat
  assumes "0 < c" and "\<bar>r - p\<bar> \<le> p / 2 ^ 24"
  shows "\<bar>r / c - p / c\<bar> \<le> p / c / 2 ^ 24"
proof -
  have "\<bar>r - p\<bar> / c \<le> p / 2 ^ 24 / c" using assms by (intro divide_right_mono) simp_all
  moreover have "\<bar>r / c - p / c\<bar> = \<bar>r - p\<bar> / c" using assms(1) by (simp add: abs_divide flip: diff_divide_distrib)
  ultimately show ?thesis by (simp add: mult.commute)
qed

lemma f32_round_error:
  assumes "0 \<le> q"
  shows "\<bar>f32_round q - q\<bar> \<le> q / 2 ^ 24"
proof (cases "q = 0")
  case False
  with assms have "0 < q" by simp
  then obtain k m where s: "8388608 \<le> 2 ^ k * q / 2 ^ m" "2 ^ k * q / 2 ^ m < 16777216" by (rule scaled)
  define c where "c = (2 ^ k / 2 ^ m :: rat)"
  define p where "p = 2 ^ k * q / 2 ^ m"
  have c: "0 < c" by (simp add: c_def)
  have q: "f32_round q = f32_round p / c"
    unfolding p_def c_def by (subst f32_round_unscale [of q m k]) simp
  have p: "q = p / c" by (simp add: p_def c_def)
  note s' = s [folded p_def]
  have "\<bar>f32_round p - p\<bar> \<le> 1 / 2" unfolding f32_round_simps(4) [OF s'] by (rule round_even_near)
  also have "\<dots> \<le> p / 2 ^ 24" using s'(1) by simp
  finally have "\<bar>f32_round p / c - p / c\<bar> \<le> p / c / 2 ^ 24" by (rule error_scaled [OF c])
  then show ?thesis unfolding q p [symmetric] .
qed simp

lemma f32_round_bounds:
  assumes "0 \<le> q"
  shows "q * (1 - 1 / 2 ^ 24) \<le> f32_round q" and "f32_round q \<le> q * (1 + 1 / 2 ^ 24)"
proof -
  have "- (q / 2 ^ 24) \<le> f32_round q - q" "f32_round q - q \<le> q / 2 ^ 24"
    using f32_round_error [OF assms] unfolding abs_le_iff by linarith+
  then show "q * (1 - 1 / 2 ^ 24) \<le> f32_round q" "f32_round q \<le> q * (1 + 1 / 2 ^ 24)"
    by (simp_all only: right_diff_distrib distrib_left mult_1_right times_divide_eq_right)
qed

lemma f32_round_pos_iff [simp]: "0 < f32_round q \<longleftrightarrow> 0 < q"
proof (cases "0 < q")
  case True
  then have "0 < q * (1 - 1 / 2 ^ 24)" by simp
  with True f32_round_bounds(1) [of q] show ?thesis by linarith
qed (simp add: f32_round_simps(1))

lemma f32_round_nonneg [simp]: "0 \<le> f32_round q"
  using f32_round_pos_iff [of q] f32_round_simps(1) [of q] by linarith

section \<open>Exact and monotone\<close>

text \<open>Integers of at most 24 bits are exact.\<close>

lemma f32_round_int:
  assumes "0 \<le> n" and "n \<le> 16777216"
  shows "f32_round (of_int n) = of_int n"
proof -
  have "q = of_int n \<Longrightarrow> 0 \<le> n \<Longrightarrow> n \<le> 16777216 \<Longrightarrow> f32_round q = q" for q n
  proof (induction q arbitrary: n rule: f32_round.induct)
    case (1 q)
    consider "q \<le> 0" | "0 < q" "q < 8388608" | "8388608 \<le> q" "q < 16777216" | "q = 16777216"
      using "1.prems" by force
    then show ?case
    proof cases
      case 1
      then show ?thesis using "1.prems" by (simp add: f32_round_simps(1))
    next
      case 2
      have "2 * n \<le> 16777216" using "1.prems" 2 by simp
      then have "f32_round (2 * q) = 2 * q"
        by (intro "1.IH"(1) [where n = "2 * n"]) (use 2 "1.prems" in simp_all)
      then show ?thesis using 2 by (simp add: f32_round_simps(2))
    next
      case 3
      then show ?thesis using "1.prems"(1) by (simp add: f32_round_simps(4))
    next
      case 4
      have "f32_round 8388608 = 8388608" using f32_round_simps(4) [of 8388608] round_even_int [of 8388608] by simp
      then show ?thesis using 4 f32_round_simps(3) [of q] by simp
    qed
  qed
  then show ?thesis using assms by blast
qed

lemma f32_round_nat: "n \<le> 16777216 \<Longrightarrow> f32_round (of_nat n) = of_nat n"
  using f32_round_int [of "int n"] by simp

lemma f32_round_1 [simp]: "f32_round 1 = 1"
  using f32_round_nat [of 1] by simp

lemma f32_round_below: "q < 8388608 \<Longrightarrow> f32_round q \<le> 8388608"
proof (induction q rule: f32_round.induct)
  case (1 q)
  consider "q \<le> 0" | "0 < q" "2 * q < 8388608" | "8388608 \<le> 2 * q" by linarith
  then show ?case
  proof cases
    case 2
    then have "f32_round (2 * q) \<le> 8388608" using "1.IH"(1) by simp
    then show ?thesis using 2 f32_round_simps(2) [of q] by simp
  next
    case 3
    have "2 * q \<le> of_int 16777216" using "1.prems" by simp
    then have "round_even (2 * q) \<le> 16777216" by (rule round_even_le)
    then show ?thesis using 3 "1.prems" f32_round_simps(2) [of q] f32_round_simps(4) [of "2 * q"] by simp
  qed (simp add: f32_round_simps(1))
qed

lemma f32_round_mono:
  assumes "p \<le> q"
  shows "f32_round p \<le> f32_round q"
proof (cases "0 < q")
  case True
  then obtain k m where s: "8388608 \<le> 2 ^ k * q / 2 ^ m" "2 ^ k * q / 2 ^ m < 16777216" by (rule scaled)
  let ?p = "2 ^ k * p / 2 ^ m" and ?q = "2 ^ k * q / 2 ^ m"
  have pq: "?p \<le> ?q" using assms by (simp add: divide_right_mono)
  have "f32_round ?p \<le> f32_round ?q"
  proof (cases "?p < 8388608")
    case True
    have "8388608 \<le> round_even ?q" by (rule le_round_even) (use s(1) in simp)
    then have "(8388608 :: rat) \<le> of_int (round_even ?q)" by linarith
    then show ?thesis using f32_round_below [OF True] unfolding f32_round_simps(4) [OF s] by linarith
  next
    case False
    then have "f32_round ?p = of_int (round_even ?p)" using s(2) pq by (intro f32_round_simps(4)) linarith+
    then show ?thesis unfolding f32_round_simps(4) [OF s] using round_even_mono [OF pq] by simp
  qed
  then have "2 ^ m * f32_round ?p / 2 ^ k \<le> 2 ^ m * f32_round ?q / 2 ^ k" by (simp add: divide_right_mono)
  then show ?thesis unfolding f32_round_unscale [symmetric] .
next
  case False
  with assms show ?thesis by (simp add: f32_round_simps(1))
qed

end
