(* ===== verification/Ads_Utilisation.thy ===== *)
theory Ads_Utilisation
  imports Ads_Task_Info Ads_Float
begin

text \<open>
  \<open>PlcTaskSystemInfo::utilisation\<close> (\<open>src/task_info.rs\<close>) with \<open>Duration::as_secs_f32\<close> of the standard
  library, in single precision.
\<close>

section \<open>Definitions\<close>

definition as_secs_f32 :: "duration \<Rightarrow> rat" where
  "as_secs_f32 d =
     f32_round (f32_round (of_nat (d div 10 ^ 9)) + f32_round (f32_round (of_nat (d mod 10 ^ 9)) / f32_round (10 ^ 9)))"

definition utilisation :: "plc_task_system_info \<Rightarrow> rat option" where
  "utilisation t =
     (let cycle = as_secs_f32 (ti_cycle_time t) in
      if cycle > 0 then Some (f32_round (as_secs_f32 (ti_last_exec_time t) / cycle)) else None)"

section \<open>Seconds\<close>

lemma f32_billion [simp]: "f32_round 1000000000 = 1000000000"
  using f32_round_scale [of 9 1953125] f32_round_nat [of 1953125] by simp

lemma as_secs_f32_pos_iff [simp]: "0 < as_secs_f32 d \<longleftrightarrow> 0 < d"
proof -
  have "0 < as_secs_f32 d \<longleftrightarrow> 0 < d div 10 ^ 9 \<or> 0 < d mod 10 ^ 9"
    by (auto simp: as_secs_f32_def add_pos_nonneg add_nonneg_pos intro: ccontr)
  also have "\<dots> \<longleftrightarrow> 0 < d" by (metis div_mult_mod_eq gr0I less_numeral_extra(3) mod_0 div_0 mult_0 plus_nat.add_0)
  finally show ?thesis .
qed

text \<open>A number that is \<open>q\<close> up to \<open>k\<close> roundings.\<close>

definition near :: "nat \<Rightarrow> rat \<Rightarrow> rat \<Rightarrow> bool" where
  "near k x q \<longleftrightarrow> q * (1 - 1 / 2 ^ 24) ^ k \<le> x \<and> x \<le> q * (1 + 1 / 2 ^ 24) ^ k"

lemma near_round:
  assumes "near k x q" and "0 \<le> x" and "0 \<le> q"
  shows "near (Suc k) (f32_round x) q"
proof -
  let ?a = "1 - 1 / 2 ^ 24 :: rat" and ?b = "1 + 1 / 2 ^ 24 :: rat"
  have "q * ?a ^ Suc k = q * ?a ^ k * ?a" "q * ?b ^ Suc k = q * ?b ^ k * ?b" by simp_all
  moreover have "q * ?a ^ k * ?a \<le> x * ?a" "x * ?b \<le> q * ?b ^ k * ?b"
    using assms(1) by (intro mult_right_mono; simp add: near_def)+
  ultimately show ?thesis using f32_round_bounds [OF assms(2)] unfolding near_def by linarith
qed

lemma near_exact: "near 0 q q"
  by (simp add: near_def)

lemma near_weaken:
  assumes "near k x q" and "k \<le> l" and "0 \<le> q"
  shows "near l x q"
proof -
  have "(1 - 1 / 2 ^ 24 :: rat) ^ l \<le> (1 - 1 / 2 ^ 24) ^ k" "(1 + 1 / 2 ^ 24 :: rat) ^ k \<le> (1 + 1 / 2 ^ 24) ^ l"
    using assms(2) by (intro power_decreasing power_increasing; simp)+
  then have "q * (1 - 1 / 2 ^ 24) ^ l \<le> q * (1 - 1 / 2 ^ 24) ^ k" "q * (1 + 1 / 2 ^ 24) ^ k \<le> q * (1 + 1 / 2 ^ 24) ^ l"
    using assms(3) by (intro mult_left_mono; simp)+
  then show ?thesis using assms(1) unfolding near_def by linarith
qed

lemma near_add: "near k x p \<Longrightarrow> near k y q \<Longrightarrow> near k (x + y) (p + q)"
  unfolding near_def distrib_right by linarith

lemma near_divide:
  assumes "near k x q" and "0 < c"
  shows "near k (x / c) (q / c)"
  using assms unfolding near_def by (simp add: divide_right_mono del: power_one_over)

lemma as_secs_f32_near: "near 3 (as_secs_f32 d) (of_nat d / 10 ^ 9)"
proof -
  let ?s = "of_nat (d div 10 ^ 9) :: rat" and ?n = "of_nat (d mod 10 ^ 9) :: rat"
  have s: "near 2 (f32_round ?s) ?s"
    using near_weaken [OF near_round [OF near_exact [of ?s]], of 2] by (simp add: numeral_2_eq_2)
  have "near 1 (f32_round ?n) ?n" using near_round [OF near_exact [of ?n]] by simp
  then have "near 2 (f32_round (f32_round ?n / 10 ^ 9)) (?n / 10 ^ 9)"
    using near_round [OF near_divide [of 1 "f32_round ?n" ?n "10 ^ 9"]] by (simp add: numeral_2_eq_2)
  with s have "near 2 (f32_round ?s + f32_round (f32_round ?n / 10 ^ 9)) (?s + ?n / 10 ^ 9)" by (rule near_add)
  then have "near (Suc 2) (as_secs_f32 d) (?s + ?n / 10 ^ 9)"
    using near_round [of 2 "f32_round ?s + f32_round (f32_round ?n / 10 ^ 9)"] by (simp add: as_secs_f32_def)
  moreover have eq: "?s + ?n / 10 ^ 9 = of_nat d / 10 ^ 9"
  proof -
    have "of_nat d = (of_nat (d div 10 ^ 9 * 10 ^ 9 + d mod 10 ^ 9) :: rat)" by (simp only: div_mult_mod_eq)
    then have "of_nat d = ?s * 10 ^ 9 + ?n" by (simp only: of_nat_add of_nat_mult of_nat_power of_nat_numeral)
    then show ?thesis by (simp add: field_simps)
  qed
  ultimately show ?thesis unfolding eq by (simp only: numeral_3_eq_3 numeral_2_eq_2)
qed

lemma as_secs_f32_mono:
  assumes "d \<le> e" and "e < 2 ^ 24 * 10 ^ 9"
  shows "as_secs_f32 d \<le> as_secs_f32 e"
proof -
  let ?s = "\<lambda>d. of_nat (d div 10 ^ 9) :: rat" and ?f = "\<lambda>d. f32_round (f32_round (of_nat (d mod 10 ^ 9)) / 10 ^ 9)"
  have exact: "as_secs_f32 x = f32_round (?s x + ?f x)" if "x \<le> e" for x
  proof -
    have "x div 10 ^ 9 \<le> 16777216" using that assms(2) by (simp add: less_mult_imp_div_less order_less_imp_le)
    then show ?thesis using f32_round_nat [of "x div 10 ^ 9"] by (simp add: as_secs_f32_def)
  qed
  have "?s d + ?f d \<le> ?s e + ?f e"
  proof (cases "d div 10 ^ 9 = e div 10 ^ 9")
    case True
    then have "d mod 10 ^ 9 \<le> e mod 10 ^ 9" using assms(1) by (metis add_le_cancel_left div_mult_mod_eq)
    then have "?f d \<le> ?f e" by (intro f32_round_mono divide_right_mono) simp_all
    with True show ?thesis by simp
  next
    case False
    then have "d div 10 ^ 9 + 1 \<le> e div 10 ^ 9" using div_le_mono [OF assms(1), of "10 ^ 9"] by linarith
    then have "?s d + 1 \<le> ?s e" by (metis of_nat_1 of_nat_add of_nat_le_iff)
    moreover have "?f d \<le> 1"
    proof -
      have "of_nat (d mod 10 ^ 9) \<le> (10 ^ 9 :: rat)"
        using of_nat_mono [of "d mod 10 ^ 9" "10 ^ 9", where 'a = rat] by simp
      then have "f32_round (of_nat (d mod 10 ^ 9)) \<le> f32_round (10 ^ 9)" by (rule f32_round_mono)
      then have "f32_round (of_nat (d mod 10 ^ 9)) / 10 ^ 9 \<le> 1" by simp
      then show ?thesis using f32_round_mono by fastforce
    qed
    moreover have "0 \<le> ?f e" by simp
    ultimately show ?thesis by linarith
  qed
  then show ?thesis unfolding exact [OF assms(1)] exact [OF order_refl] by (rule f32_round_mono)
qed

section \<open>The quotient\<close>

lemma near_quotient:
  assumes "near 3 x p" and "near 3 y q" and "0 \<le> p" and "0 < q" and "0 \<le> x" and "0 < y"
  shows "\<bar>f32_round (x / y) - p / q\<bar> \<le> p / q / 2 ^ 21"
proof -
  let ?a = "1 - 1 / 2 ^ 24 :: rat" and ?b = "1 + 1 / 2 ^ 24 :: rat" and ?r = "f32_round (x / y)"
  have "x / y \<le> (p * ?b ^ 3) / (q * ?a ^ 3)"
    using assms by (intro frac_le) (simp_all add: near_def)
  moreover have "(p * ?a ^ 3) / (q * ?b ^ 3) \<le> x / y"
    using assms by (intro frac_le) (simp_all add: near_def)
  moreover have "(p * ?b ^ 3) / (q * ?a ^ 3) = p / q * (?b ^ 3 / ?a ^ 3)" "(p * ?a ^ 3) / (q * ?b ^ 3) = p / q * (?a ^ 3 / ?b ^ 3)"
    by (simp_all add: times_divide_times_eq del: power_one_over)
  ultimately have xy: "x / y \<le> p / q * (?b ^ 3 / ?a ^ 3)" "p / q * (?a ^ 3 / ?b ^ 3) \<le> x / y" by simp_all
  have r: "x / y * ?a \<le> ?r" "?r \<le> x / y * ?b" using f32_round_bounds [of "x / y"] assms(5,6) by simp_all
  have "x / y * ?b \<le> p / q * (?b ^ 3 / ?a ^ 3) * ?b" using xy(1) by (rule mult_right_mono) simp
  moreover have "p / q * (?a ^ 3 / ?b ^ 3) * ?a \<le> x / y * ?a" using xy(2) by (rule mult_right_mono) simp
  ultimately have b: "p / q * (?a ^ 3 / ?b ^ 3 * ?a) \<le> ?r" "?r \<le> p / q * (?b ^ 3 / ?a ^ 3 * ?b)"
    using r unfolding mult.assoc by linarith+
  have "p / q * (?b ^ 3 / ?a ^ 3 * ?b) \<le> p / q * (1 + 1 / 2 ^ 21)"
    using assms(3,4) by (intro mult_left_mono) (simp_all add: power3_eq_cube)
  with b(2) have "?r - p / q \<le> p / q / 2 ^ 21" by (simp add: distrib_left)
  moreover have "p / q * (1 - 1 / 2 ^ 21) \<le> p / q * (?a ^ 3 / ?b ^ 3 * ?a)"
    using assms(3,4) by (intro mult_left_mono) (simp_all add: power3_eq_cube)
  with b(1) have "- (?r - p / q) \<le> p / q / 2 ^ 21" by (simp add: right_diff_distrib)
  ultimately show ?thesis by (rule abs_leI)
qed

section \<open>The range of single precision\<close>

text \<open>
  Zero, or a size with which rounding is the same with and without bounds on the exponent: neither
  underflow nor overflow.
\<close>

definition f32_range :: "rat \<Rightarrow> bool" where
  "f32_range q \<longleftrightarrow> q = 0 \<or> 1 / 2 ^ 126 \<le> q \<and> q \<le> 2 ^ 127"

lemma f32_round_sandwich: "0 \<le> q \<Longrightarrow> q / 2 \<le> f32_round q" "0 \<le> q \<Longrightarrow> f32_round q \<le> 2 * q"
  using f32_round_bounds [of q] by simp_all

lemma as_secs_f32_sandwich:
  "of_nat d / 2000000000 \<le> as_secs_f32 d" "as_secs_f32 d \<le> of_nat d / 500000000"
proof -
  let ?q = "of_nat d / 10 ^ 9 :: rat"
  have "?q * (1 / 2) \<le> ?q * (1 - 1 / 2 ^ 24) ^ 3" "?q * (1 + 1 / 2 ^ 24) ^ 3 \<le> ?q * 2"
    by (intro mult_left_mono; simp add: power3_eq_cube)+
  then show "of_nat d / 2000000000 \<le> as_secs_f32 d" "as_secs_f32 d \<le> of_nat d / 500000000"
    using as_secs_f32_near [of d] unfolding near_def by (simp_all del: power_one_over)
qed

lemma f32_rangeI: "1 / 2 ^ 126 \<le> a \<Longrightarrow> a \<le> q \<Longrightarrow> q \<le> b \<Longrightarrow> b \<le> 2 ^ 127 \<Longrightarrow> f32_range q"
  unfolding f32_range_def by linarith

lemma f32_range_nat: "n \<le> 2 ^ 64 \<Longrightarrow> f32_range (of_nat n)"
proof (cases "n = 0")
  case False
  assume "n \<le> 2 ^ 64"
  then have "of_nat n \<le> (of_nat (2 ^ 64) :: rat)" by (rule of_nat_mono)
  then show ?thesis using False by (intro f32_rangeI [of 1 _ "2 ^ 64"]) simp_all
qed (simp add: f32_range_def)

text \<open>Every operation of \<open>as_secs_f32\<close> and of the quotient, for all values of a \<open>Duration\<close>.\<close>

lemma utilisation_in_range:
  assumes "d < 2 ^ 64 * 10 ^ 9" and "e < 2 ^ 64 * 10 ^ 9" and "0 < e"
  shows "f32_range (of_nat (d div 10 ^ 9))" and "f32_range (of_nat (d mod 10 ^ 9))"
    and "f32_range (f32_round (of_nat (d mod 10 ^ 9)) / 10 ^ 9)"
    and "f32_range (f32_round (of_nat (d div 10 ^ 9)) + f32_round (f32_round (of_nat (d mod 10 ^ 9)) / 10 ^ 9))"
    and "f32_range (as_secs_f32 d / as_secs_f32 e)"
proof -
  let ?s = "d div 10 ^ 9" and ?n = "d mod 10 ^ 9"
  let ?b = "f32_round (of_nat ?n) / 10 ^ 9" and ?a = "f32_round (of_nat ?s)"
  have s: "?s < 2 ^ 64" using assms(1) by (rule less_mult_imp_div_less)
  have n: "?n < 10 ^ 9" by simp
  show "f32_range (of_nat ?s)" "f32_range (of_nat ?n)" using s n by (intro f32_range_nat; simp)+
  have sr: "of_nat ?s \<le> (2 ^ 64 :: rat)" using of_nat_mono [of ?s "2 ^ 64", where 'a = rat] s by simp
  have nr: "of_nat ?n \<le> (10 ^ 9 :: rat)" using of_nat_mono [of ?n "10 ^ 9", where 'a = rat] n by simp
  have b: "of_nat ?n / 2000000000 \<le> ?b" "?b \<le> 2"
    using f32_round_sandwich [of "of_nat ?n"] nr by simp_all
  show "f32_range ?b"
  proof (cases "?n = 0")
    case False
    then have "1 \<le> (of_nat ?n :: rat)" by simp
    then have "1 / 2000000000 \<le> ?b" using b(1) by linarith
    then show ?thesis using b(2) by (intro f32_rangeI [of "1 / 2000000000" _ 2]) simp_all
  qed (simp add: f32_range_def)
  have r: "?b / 2 \<le> f32_round ?b" "f32_round ?b \<le> 2 * ?b" "of_nat ?s / 2 \<le> ?a" "?a \<le> 2 * of_nat ?s"
    by (intro f32_round_sandwich; simp)+
  have lower: "1 / 4000000000 \<le> a + r"
    if "1 \<le> s + n" "0 \<le> s" "s / 2 \<le> a" "n / 2000000000 \<le> b" "b / 2 \<le> r" for a b n r s :: rat
    using that by linarith
  have upper: "a + r \<le> 2 ^ 65 + 4" if "a \<le> 2 * s" "s \<le> 2 ^ 64" "r \<le> 2 * b" "b \<le> 2" for a b r s :: rat
    using that by simp
  show "f32_range (?a + f32_round ?b)"
  proof (cases "d = 0")
    case False
    then have "1 \<le> ?s + ?n" by (metis One_nat_def Suc_leI add_gr_0 div_mult_mod_eq mult_0 gr0I add_0)
    then have "1 \<le> (of_nat ?s + of_nat ?n :: rat)" by (metis of_nat_1 of_nat_add of_nat_le_iff)
    then have "1 / 4000000000 \<le> ?a + f32_round ?b" using of_nat_0_le_iff r(3) b(1) r(1) by (rule lower)
    moreover have "?a + f32_round ?b \<le> 2 ^ 65 + 4" using r(4) sr r(2) b(2) by (rule upper)
    ultimately show ?thesis by (intro f32_rangeI [of "1 / 4000000000" _ "2 ^ 65 + 4"]) simp_all
  qed (simp add: f32_range_def)
  show "f32_range (as_secs_f32 d / as_secs_f32 e)"
  proof (cases "d = 0")
    case False
    have "of_nat d \<le> (of_nat (2 ^ 64 * 10 ^ 9) :: rat)" "of_nat e \<le> (of_nat (2 ^ 64 * 10 ^ 9) :: rat)"
      using assms(1,2) by (intro of_nat_mono; linarith)+
    moreover have "1 \<le> (of_nat d :: rat)" "1 \<le> (of_nat e :: rat)" using False assms(3) by simp_all
    ultimately have de: "1 / 2000000000 \<le> as_secs_f32 d" "as_secs_f32 d \<le> 2 ^ 65"
      "1 / 2000000000 \<le> as_secs_f32 e" "as_secs_f32 e \<le> 2 ^ 65"
      using as_secs_f32_sandwich [of d] as_secs_f32_sandwich [of e] by simp_all
    then have "(1 / 2000000000) / 2 ^ 65 \<le> as_secs_f32 d / as_secs_f32 e" using assms(3) by (intro frac_le) simp_all
    moreover have "as_secs_f32 d / as_secs_f32 e \<le> 2 ^ 65 / (1 / 2000000000)" using de by (intro frac_le) simp_all
    ultimately show ?thesis by (intro f32_rangeI [of "(1 / 2000000000) / 2 ^ 65" _ "2 ^ 65 / (1 / 2000000000)"]) simp_all
  qed (use as_secs_f32_sandwich [of 0] in \<open>simp add: f32_range_def\<close>)
qed

text \<open>
  C34. The reported utilisation is absent exactly for a cycle time of zero; otherwise it is the
  quotient of the two times up to a relative error of \<open>2\<^sup>-\<^sup>2\<^sup>1\<close> for all the roundings on the way, and a
  task that stays within its cycle never reports more than 1.
\<close>

theorem utilisation_accurate:
  "case utilisation t of
     None \<Rightarrow> ti_cycle_time t = 0
   | Some u \<Rightarrow> ti_cycle_time t > 0 \<and>
       \<bar>u - of_nat (ti_last_exec_time t) / of_nat (ti_cycle_time t)\<bar> \<le>
         of_nat (ti_last_exec_time t) / of_nat (ti_cycle_time t) / 2 ^ 21 \<and>
       (ti_last_exec_time t \<le> ti_cycle_time t \<and> ti_cycle_time t < 2 ^ 24 * 10 ^ 9 \<longrightarrow> u \<le> 1)"
proof (cases "ti_cycle_time t = 0")
  case True
  then show ?thesis using as_secs_f32_pos_iff [of 0] by (simp add: utilisation_def Let_def del: as_secs_f32_pos_iff)
next
  case False
  let ?x = "as_secs_f32 (ti_last_exec_time t)" and ?y = "as_secs_f32 (ti_cycle_time t)"
  have y: "0 < ?y" using False by simp
  have x: "0 \<le> ?x" by (simp add: as_secs_f32_def)
  have "\<bar>f32_round (?x / ?y) - of_nat (ti_last_exec_time t) / 10 ^ 9 / (of_nat (ti_cycle_time t) / 10 ^ 9)\<bar> \<le>
      of_nat (ti_last_exec_time t) / 10 ^ 9 / (of_nat (ti_cycle_time t) / 10 ^ 9) / 2 ^ 21"
    using False x y by (intro near_quotient as_secs_f32_near) simp_all
  moreover have "f32_round (?x / ?y) \<le> 1"
    if "ti_last_exec_time t \<le> ti_cycle_time t" "ti_cycle_time t < 2 ^ 24 * 10 ^ 9"
  proof -
    have "?x / ?y \<le> 1" using as_secs_f32_mono [OF that] y by simp
    then show ?thesis using f32_round_mono by fastforce
  qed
  ultimately show ?thesis using False y by (simp add: utilisation_def Let_def)
qed

definition demo_task :: plc_task_system_info where
  "demo_task = \<lparr>ti_index = 1, ti_object_id = 0x01010010, ti_ads_port = 851, ti_priority = 20,
     ti_cycle_time = 10000000, ti_last_exec_time = 2500000, ti_dc_task_time = 1234, ti_cycle_count = 42,
     ti_first_cycle = False, ti_cycle_time_exceeded = False, ti_in_call_after_output_update = False,
     ti_rt_violation = False, ti_name = None\<rparr>"

theorem utilisation_accurate_witness:
  "\<exists>u. utilisation demo_task = Some u \<and> \<bar>u - 1 / 4\<bar> \<le> 1 / 2 ^ 23 \<and> u \<le> 1"
proof (cases "utilisation demo_task")
  case None
  then show ?thesis using utilisation_accurate [of demo_task] by (simp add: demo_task_def)
next
  case (Some u)
  then show ?thesis using utilisation_accurate [of demo_task] by (simp add: demo_task_def)
qed

end
