(* ===== verification/Ads_Replier.thy ===== *)
theory Ads_Replier
  imports Ads_Udp
begin

text \<open>
  The UDP service of the test suite (\<open>src/test/test_udp.rs\<close>) and the three requests of \<open>src/udp.rs\<close> against it:
  the client and the service are composed into one network, and every request gets the answer that
  the service means to give.
\<close>

section \<open>The service\<close>

text \<open>\<open>LE::write_u32(&mut self.data[8..12], service)\<close>\<close>

definition set_service :: "udp_message \<Rightarrow> service_id \<Rightarrow> bool \<Rightarrow> udp_message res" where
  "set_service m service reply =
     (if 12 \<le> length (um_data m)
      then Ok (m\<lparr>um_data := take 8 (um_data m) @ u32_le (service_code service OR (if reply then 0x80000000 else 0)) @
                 drop 12 (um_data m)\<rparr>)
      else Panic)"

definition OS_VERSION :: bytes where
  "OS_VERSION =
     [0, 0, 0, 0, 5, 0, 0, 0, 8, 0, 0, 0, 9, 0, 0, 0, 2, 0, 0, 0, 84, 0, 101, 0, 115, 0, 116, 0, 0, 0]"

definition my_addr :: ams_addr where
  "my_addr = AmsAddr (AmsNetId 1 2 3 4 5 6) 10000"

text \<open>One turn of the loop: the datagram that is sent for one received; \<open>Panic\<close> ends the service.\<close>

definition udp_replier :: "bool \<Rightarrow> bytes \<Rightarrow> bytes res" where
  "udp_replier ovf received =
     (let buf = take 2048 received;
          reply = message_new Identify my_addr
      in case message_parse buf Identify False of
           Ok _ \<Rightarrow>
             rbind (set_service reply Identify True) (\<lambda>r1.
             rbind (add_str ovf r1 ComputerName (bytes_of ''box'')) (\<lambda>r2.
             rbind (add_bytes r2 OSVersion OS_VERSION) (\<lambda>r3.
             rmap um_data (add_bytes r3 TCVersion [4, 1, 7, 0]))))
         | Panic \<Rightarrow> Panic
         | Err _ \<Rightarrow>
             (case message_parse buf AddRoute False of
                Ok msg \<Rightarrow>
                  rbind (set_service reply AddRoute True) (\<lambda>r1.
                  rbind (get_str msg RouteName) (\<lambda>name.
                  rmap um_data (add_u32 r1 Status (if name \<noteq> Some (bytes_of ''route'') then 1 else 0))))
              | _ \<Rightarrow> Panic))"

text \<open>The network of the test: a service that has ended lets the read time out.\<close>

definition replier_env :: "bool \<Rightarrow> io_error \<Rightarrow> udp_env" where
  "replier_env ovf expired =
     \<lparr>ue_bind = Ok (), ue_send = (\<lambda>_. Ok ()), ue_set_timeout = Ok (),
      ue_recv = (\<lambda>request. case udp_replier ovf request of Ok reply \<Rightarrow> Ok reply | _ \<Rightarrow> Err expired)\<rparr>"

section \<open>What the service sends\<close>

lemma set_service_built:
  assumes "built service src its m"
  shows "\<exists>m'. set_service m s reply = Ok m' \<and>
    built (service_code s OR (if reply then 0x80000000 else 0)) src its m'"
  using assms by (simp add: set_service_def built_def udp_encode_def udp_header_bytes_def)

definition identify_items :: "udp_item list" where
  "identify_items = [(tag_code ComputerName, bytes_of ''box'' @ [0]), (tag_code OSVersion, OS_VERSION),
     (tag_code TCVersion, [4, 1, 7, 0])]"

lemma parse_internal_other:
  "service \<noteq> expected \<Longrightarrow>
     parse_internal (udp_encode service src its) expected = Err (Reply udp_ctx ''invalid service ID'' service)"
  by (simp add: parse_internal_def pbind_def udp_encode_def udp_header_bytes_def pfail_def)

lemma message_new_data: "um_data (message_new s src) = udp_encode (service_code s) src []"
  using built_new [of s src] by (simp add: built_def)

lemma replier_identify:
  "udp_replier ovf (udp_encode 1 default_addr []) = Ok (udp_encode 0x80000001 my_addr identify_items)"
proof -
  obtain r1 where r1: "set_service (message_new Identify my_addr) Identify True = Ok r1" "built 0x80000001 my_addr [] r1"
    using set_service_built [OF built_new, of Identify my_addr Identify True] by auto
  obtain r2 where r2: "add_str ovf r1 ComputerName (bytes_of ''box'') = Ok r2"
    "built 0x80000001 my_addr [(tag_code ComputerName, bytes_of ''box'' @ [0])] r2"
    using add_str_built [OF r1(2), of "bytes_of ''box''" ovf ComputerName] by (auto simp: bytes_of_def)
  obtain r3 where r3: "add_bytes r2 OSVersion OS_VERSION = Ok r3"
    "built 0x80000001 my_addr [(tag_code ComputerName, bytes_of ''box'' @ [0]), (tag_code OSVersion, OS_VERSION)] r3"
    using add_bytes_built [OF r2(2), of OSVersion OS_VERSION] by auto
  obtain r4 where r4: "add_bytes r3 TCVersion [4, 1, 7, 0] = Ok r4" "built 0x80000001 my_addr identify_items r4"
    using add_bytes_built [OF r3(2), of TCVersion "[4, 1, 7, 0]"] by (auto simp: identify_items_def)
  have "take 2048 (udp_encode 1 default_addr []) = udp_encode 1 default_addr []" by (simp add: udp_encode_def)
  then show ?thesis
    using r1(1) r2(1) r3(1) r4 parse_internal_enc [of "[]" 1 default_addr]
    by (simp add: udp_replier_def Let_def message_parse_def built_def)
qed

lemma replier_route:
  assumes "list_all wf_item its" and "length (udp_encode 6 src its) \<le> 2048"
    and "map_of its (tag_code RouteName) = Some (name @ [0])"
  shows "udp_replier ovf (udp_encode 6 src its) =
    Ok (udp_encode 0x80000006 my_addr [(tag_code Status, u32_le (if name = bytes_of ''route'' then 0 else 1))])"
proof -
  let ?m = "\<lparr>um_items = item_layout 28 its, um_data = udp_encode 6 src its\<rparr>"
  let ?status = "if name = bytes_of ''route'' then 0 else 1 :: u32"
  obtain r1 where r1: "set_service (message_new Identify my_addr) AddRoute True = Ok r1" "built 0x80000006 my_addr [] r1"
    using set_service_built [OF built_new, of Identify my_addr AddRoute True] by auto
  obtain r2 where r2: "add_u32 r1 Status ?status = Ok r2" "built 0x80000006 my_addr [(tag_code Status, u32_le ?status)] r2"
    using add_u32_built [OF r1(2), of Status ?status] by auto
  have "get_str ?m RouteName = Ok (from_utf8 name)"
    using assms(3) by (simp add: get_str_def map_tag_parsed slice_of_def del: tag_code.simps)
  moreover have "from_utf8 name = Some (bytes_of ''route'') \<longleftrightarrow> name = bytes_of ''route''"
    using utf8_valid_ascii [of "bytes_of ''route''"] by (auto simp: from_utf8_def bytes_of_def)
  moreover have "parse_internal (udp_encode 6 src its) 1 = Err (Reply udp_ctx ''invalid service ID'' 6)"
    by (rule parse_internal_other) simp
  ultimately show ?thesis
    using r1(1) r2 assms(2) parse_internal_enc [OF assms(1), of 6 src]
    by (cases "name = bytes_of ''route''") (simp_all add: udp_replier_def Let_def message_parse_def built_def)
qed

section \<open>The client against the service\<close>

lemma send_receive_replier:
  assumes "um_data m = udp_encode service src its" and "udp_replier ovf (um_data m) = Ok (udp_encode answer from its')"
    and "service OR 0x80000000 = answer" and "length (udp_encode answer from its') \<le> 576" and "list_all wf_item its'"
  shows "send_receive (replier_env ovf expired) m =
    Ok \<lparr>um_items = item_layout 28 its', um_data = udp_encode answer from its'\<rparr>"
proof -
  have "slice_of (um_data m) 8 12 = (Ok (u32_le service) :: bytes res)"
    by (simp add: assms(1) slice_of_def udp_encode_def udp_header_bytes_def)
  then show ?thesis
    using assms(2-5) parse_internal_enc [of its' answer "from"] by (simp add: send_receive_def replier_env_def)
qed

lemma identify_reply:
  "send_receive (replier_env ovf expired) (message_new Identify default_addr) =
    Ok \<lparr>um_items = item_layout 28 identify_items, um_data = udp_encode 0x80000001 my_addr identify_items\<rparr>"
proof -
  have "length (udp_encode 0x80000001 my_addr identify_items) \<le> 576" "list_all wf_item identify_items"
    by (simp_all add: udp_encode_def identify_items_def enc_item_def OS_VERSION_def bytes_of_def)
  then show ?thesis using message_new_data [of Identify default_addr] by (simp add: send_receive_replier replier_identify)
qed

lemma os_version_text: "parse_os_version (Some OS_VERSION) = (''Windows NT'', 5, 8, 9, bytes_of ''Test'')"
  by (simp add: parse_os_version_def OS_VERSION_def platform_name_def le_u32_def le_u16_def bytes_of_def
      is_scalar_def utf8_encode_def)

lemma replier_info:
  "udp_get_info (replier_env ovf expired) =
    Ok \<lparr>si_netid = AmsNetId 1 2 3 4 5 6, si_hostname = bytes_of ''box'', si_twincat_version = (4, 1, 7),
        si_os_version = (''Windows NT'', 5, 8, 9, bytes_of ''Test''), si_fingerprint = []\<rparr>"
proof -
  let ?m = "\<lparr>um_items = item_layout 28 identify_items, um_data = udp_encode 0x80000001 my_addr identify_items\<rparr>"
  have "get_bytes ?m TCVersion = Ok (Some [4, 1, 7, 0])" "get_bytes ?m OSVersion = Ok (Some OS_VERSION)"
    by (simp_all add: get_bytes_def map_tag_parsed) (simp_all add: identify_items_def)
  moreover have "get_str ?m ComputerName = Ok (Some (bytes_of ''box''))" "get_str ?m Fingerprint = Ok None"
    using utf8_valid_ascii [of "bytes_of ''box''"]
    by (simp_all add: get_str_def map_tag_parsed)
      (simp_all add: identify_items_def slice_of_def from_utf8_def bytes_of_def)
  moreover have "parse_tc_version [4, 1, 7, 0] = (4, 1, 7)" by (simp add: parse_tc_version_def le_u16_def)
  ultimately show ?thesis
    by (simp add: udp_get_info_def identify_reply get_source_enc my_addr_def os_version_text)
qed

lemma requests_answered:
  fixes route user pass :: "rstring option" and host :: rstring
  defines "name \<equiv> case route of Some r \<Rightarrow> r | None \<Rightarrow> host"
  assumes "length host + length (case user of Some u \<Rightarrow> u | None \<Rightarrow> bytes_of ''Administrator'') +
    length (case pass of Some p \<Rightarrow> p | None \<Rightarrow> bytes_of ''1'') + length name \<le> 1986"
  shows "get_netid (replier_env ovf expired) = Ok (AmsNetId 1 2 3 4 5 6) \<and>
    udp_get_info (replier_env ovf expired) =
      Ok \<lparr>si_netid = AmsNetId 1 2 3 4 5 6, si_hostname = bytes_of ''box'', si_twincat_version = (4, 1, 7),
          si_os_version = (''Windows NT'', 5, 8, 9, bytes_of ''Test''), si_fingerprint = []\<rparr> \<and>
    add_route ovf (replier_env ovf expired) nid host route user pass temporary =
      (if name = bytes_of ''route'' then Ok () else ads_error ''setting route'' 1)"
proof -
  let ?its = "route_items nid host (case user of Some u \<Rightarrow> u | None \<Rightarrow> bytes_of ''Administrator'')
      (case pass of Some p \<Rightarrow> p | None \<Rightarrow> bytes_of ''1'') name temporary"
  let ?reply = "[(tag_code Status, u32_le (if name = bytes_of ''route'' then 0 else 1))]"
  obtain p where p: "route_packet ovf nid host route user pass temporary = Ok p"
    "um_data p = udp_encode 6 (AmsAddr nid 0) ?its"
    using route_packet_built [of host user pass route ovf nid temporary] assms(2) by (auto simp: name_def)
  have "list_all wf_item ?its" "length (udp_encode 6 (AmsAddr nid 0) ?its) \<le> 2048"
    using assms(2) by (simp_all add: route_items_def udp_encode_def enc_item_def)
  then have "udp_replier ovf (um_data p) = Ok (udp_encode 0x80000006 my_addr ?reply)"
    unfolding p(2) by (rule replier_route) (simp add: route_items_def)
  then have "send_receive (replier_env ovf expired) p =
      Ok \<lparr>um_items = item_layout 28 ?reply, um_data = udp_encode 0x80000006 my_addr ?reply\<rparr>"
    by (rule send_receive_replier [OF p(2)]) (simp_all add: udp_encode_def enc_item_def)
  then have "add_route ovf (replier_env ovf expired) nid host route user pass temporary =
      (if name = bytes_of ''route'' then Ok () else ads_error ''setting route'' 1)"
    by (simp add: add_route_def p(1) get_u32_def map_tag_parsed rd_u32_if del: item_layout.simps)
  moreover have "get_netid (replier_env ovf expired) = Ok (AmsNetId 1 2 3 4 5 6)"
    by (simp add: get_netid_def identify_reply get_source_enc my_addr_def)
  ultimately show ?thesis using replier_info by simp
qed

text \<open>
  C21. The three UDP requests, sent to the service of the test suite: the NetID and the system
  information are those the service reports, and a route is set exactly when its name, which is the
  host's unless one is given, is the one the service accepts; any other name gives the error of the
  status that came back. This holds for every host, user name, password and name that fit into the
  datagram the service reads.
\<close>

theorem requests_served:
  fixes route user pass :: "rstring option" and host :: rstring
  defines "name \<equiv> case route of Some r \<Rightarrow> r | None \<Rightarrow> host"
  assumes "length host + length (case user of Some u \<Rightarrow> u | None \<Rightarrow> bytes_of ''Administrator'') +
    length (case pass of Some p \<Rightarrow> p | None \<Rightarrow> bytes_of ''1'') + length name \<le> 1986"
  shows "get_netid (replier_env ovf expired) = Ok (AmsNetId 1 2 3 4 5 6) \<and>
    udp_get_info (replier_env ovf expired) =
      Ok \<lparr>si_netid = AmsNetId 1 2 3 4 5 6, si_hostname = bytes_of ''box'', si_twincat_version = (4, 1, 7),
          si_os_version = (''Windows NT'', 5, 8, 9, bytes_of ''Test''), si_fingerprint = []\<rparr> \<and>
    add_route ovf (replier_env ovf expired) nid host route user pass temporary =
      (if name = bytes_of ''route'' then Ok () else ads_error ''setting route'' 1)"
  using requests_answered [of host user pass route] assms by simp

theorem requests_served_witness:
  "add_route True (replier_env True (io_of_kind TimedOut)) netid_local (bytes_of ''a'') (Some (bytes_of ''route'')) None None
      False = Ok () \<and>
    add_route True (replier_env True (io_of_kind TimedOut)) netid_local (bytes_of ''a'') None None None False =
      ads_error ''setting route'' 1"
  using requests_served [of "bytes_of ''a''" None None "Some (bytes_of ''route'')" True "io_of_kind TimedOut" netid_local False]
    requests_served [of "bytes_of ''a''" None None None True "io_of_kind TimedOut" netid_local False]
  by (simp add: bytes_of_def)

end
