(* ===== verification/Ads_Type_Builder.thy ===== *)
theory Ads_Type_Builder
  imports Ads_Tables
begin

text \<open>
  The encoder of type entries in the test suite (\<open>src/test/test_symbol.rs\<close>): it writes the layout that the
  specification of \<open>Ads_Tables\<close> describes, so the decoder of \<open>src/symbol.rs\<close> reads back every plain
  structure it builds, the one of the test among them.
\<close>

section \<open>The encoder\<close>

record type_entry_builder =
  tb_name :: rstring
  tb_type_name :: rstring
  tb_comment :: rstring
  tb_size :: u32
  tb_offset :: u32
  tb_base_type :: u32
  tb_flags :: u32
  tb_array_dims :: "(i32 \<times> i32) list"
  tb_sub_items :: "bytes list"

text \<open>\<open>upper - lower + 1\<close>, which panics where overflow is checked.\<close>

definition element_count :: "bool \<Rightarrow> i32 \<times> i32 \<Rightarrow> i32 res" where
  "element_count ovf d =
     (case d of (lower, upper) \<Rightarrow>
        if ovf \<and> (\<not> in_i32 (sint upper - sint lower) \<or> \<not> in_i32 (sint upper - sint lower + 1)) then Panic
        else Ok (upper - lower + 1))"

primrec dims_bytes :: "bool \<Rightarrow> (i32 \<times> i32) list \<Rightarrow> bytes res" where
  "dims_bytes ovf [] = Ok []"
| "dims_bytes ovf (d # ds) =
     rbind (element_count ovf d) (\<lambda>n. rmap (\<lambda>rest. u32_le (fst d) @ u32_le n @ rest) (dims_bytes ovf ds))"

definition build_type_entry :: "bool \<Rightarrow> type_entry_builder \<Rightarrow> bytes res" where
  "build_type_entry ovf e =
     rmap (\<lambda>dims.
       let body =
             u32_le 1 @ u16_le 0 @ u16_le 0 @ u32_le 0 @ u32_le (tb_size e) @ u32_le (tb_offset e) @
             u32_le (tb_base_type e) @ u32_le (tb_flags e) @ u16_le (of_nat (length (tb_name e))) @
             u16_le (of_nat (length (tb_type_name e))) @ u16_le (of_nat (length (tb_comment e))) @
             u16_le (of_nat (length (tb_array_dims e))) @ u16_le (of_nat (length (tb_sub_items e))) @
             tb_name e @ [0] @ tb_type_name e @ [0] @ tb_comment e @ [0] @ dims @ concat (tb_sub_items e);
           entry_size = of_nat (length body + 4)
       in u32_le entry_size @ body) (dims_bytes ovf (tb_array_dims e))"

section \<open>It writes the specified layout\<close>

lemma element_count_dim: "wf_dim ovf d \<Longrightarrow> element_count ovf d = Ok (snd d - fst d + 1)"
  by (auto simp: wf_dim_def element_count_def in_i32_def split: prod.split)

lemma dims_bytes_enc: "list_all (wf_dim ovf) ds \<Longrightarrow> dims_bytes ovf ds = Ok (concat (map enc_dim ds))"
  by (induction ds) (simp_all add: element_count_dim enc_dim_def)

definition head_builder :: "type_head \<Rightarrow> bytes list \<Rightarrow> type_entry_builder" where
  "head_builder h subs =
     \<lparr>tb_name = th_name h, tb_type_name = th_type_name h, tb_comment = th_comment h, tb_size = of_nat (th_size h),
      tb_offset = th_offset h, tb_base_type = th_base_type h, tb_flags = th_flags h, tb_array_dims = th_array h,
      tb_sub_items = subs\<rparr>"

lemma le_bytes_0: "le_bytes n 0 = replicate n 0"
  by (induction n) simp_all

lemma reserved_bytes: "u16_le 0 @ u16_le 0 @ u32_le 0 = junk (\<lambda>_. 0) 0 8"
proof -
  have "u16_le 0 @ u16_le 0 @ u32_le 0 = replicate (2 + (2 + 4)) 0"
    by (simp only: replicate_add u16_le_def u32_le_def unsigned_0 le_bytes_0)
  then show ?thesis by (simp add: junk_def map_replicate_const)
qed

lemma build_is_spec:
  assumes "wf_head ovf h" and "th_sub_items h = length subs"
  shows "build_type_entry ovf (head_builder h subs) = Ok (table_frame (enc_head (\<lambda>_. 0) h @ concat subs))"
proof -
  have reserved: "u16_le 0 @ u16_le 0 @ u32_le 0 @ s = junk (\<lambda>_. 0) 0 8 @ s" for s
    using reserved_bytes by (metis append_assoc)
  have frame: "u32_le (of_nat (length b + 4)) @ b = table_frame b" for b
    unfolding table_frame_def by (simp only: add.commute)
  have "dims_bytes ovf (th_array h) = Ok (concat (map enc_dim (th_array h)))"
    using assms(1) by (simp add: wf_head_def dims_bytes_enc)
  moreover note assms(2) [symmetric]
  ultimately show ?thesis
    unfolding build_type_entry_def head_builder_def type_entry_builder.simps Let_def
    by (simp only: rmap.simps frame reserved enc_head_def len16_def enc_str_def append_assoc)
qed

text \<open>The flags that no optional part follows, as those of the test.\<close>

definition plain_flags :: "u32 \<Rightarrow> bool" where
  "plain_flags w \<longleftrightarrow> w AND (TYPE_FLAG_GUID OR TYPE_FLAG_COPY_MASK OR TYPE_FLAG_METHOD_INFOS OR
     TYPE_FLAG_ATTRIBUTES OR TYPE_FLAG_ENUM_INFOS) = 0"

lemma plain_flags: 
  assumes "plain_flags w"
  shows "\<not> has_flag w TYPE_FLAG_GUID" "\<not> has_flag w TYPE_FLAG_COPY_MASK" "\<not> has_flag w TYPE_FLAG_METHOD_INFOS"
    "\<not> has_flag w TYPE_FLAG_ATTRIBUTES" "\<not> has_flag w TYPE_FLAG_ENUM_INFOS"
  using assms by (simp_all add: plain_flags_def bit.conj_disj_distrib or_eq_0_iff)

definition plain_field :: "field \<Rightarrow> bool" where
  "plain_field f \<longleftrightarrow> plain_flags (fd_flags f) \<and> fd_attributes f = None"

definition plain_type :: "sym_type \<Rightarrow> bool" where
  "plain_type t \<longleftrightarrow> plain_flags (ty_flags t) \<and> ty_guid t = None \<and> ty_methods t = None \<and> ty_attributes t = None \<and>
     ty_enum_info t = None \<and> list_all plain_field (ty_fields t)"

definition entry_of :: "u32 \<Rightarrow> sym_type \<Rightarrow> type_entry" where
  "entry_of ofs t = \<lparr>te_type = t, te_offset = ofs, te_guid = replicate 16 0, te_rest = []\<rparr>"

lemma plain_field_enc:
  "plain_field f \<Longrightarrow> wf_field ovf f \<Longrightarrow>
     build_type_entry ovf (head_builder (field_head f) []) = Ok (table_frame (enc_field (\<lambda>_. 0) f))"
  using build_is_spec [of ovf "field_head f" "[]"] plain_flags [of "fd_flags f"]
  by (simp add: plain_field_def wf_field_def enc_field_def opt_def field_head_def)

lemma plain_type_enc:
  assumes "plain_type t" and "wf_type ovf (\<lambda>_. 0) (entry_of ofs t)"
  shows "build_type_entry ovf (head_builder (entry_head (entry_of ofs t))
      (map (\<lambda>f. table_frame (enc_field (\<lambda>_. 0) f)) (ty_fields t))) = Ok (table_frame (enc_type (\<lambda>_. 0) (entry_of ofs t)))"
  using assms build_is_spec [of ovf "entry_head (entry_of ofs t)" "map (\<lambda>f. table_frame (enc_field (\<lambda>_. 0) f)) (ty_fields t)"]
    plain_flags [of "ty_flags t"]
  by (simp add: plain_type_def wf_type_def enc_type_def opt_def entry_head_def entry_of_def Let_def)

section \<open>What it builds is decoded\<close>

text \<open>The way the test puts a structure together: each field is built, then the entry around them.\<close>

primrec build_fields :: "bool \<Rightarrow> field list \<Rightarrow> bytes list res" where
  "build_fields ovf [] = Ok []"
| "build_fields ovf (f # fs) =
     rbind (build_type_entry ovf (head_builder (field_head f) [])) (\<lambda>b. rmap (Cons b) (build_fields ovf fs))"

definition build_struct :: "bool \<Rightarrow> u32 \<Rightarrow> sym_type \<Rightarrow> bytes res" where
  "build_struct ovf ofs t =
     rbind (build_fields ovf (ty_fields t)) (\<lambda>subs. build_type_entry ovf (head_builder (entry_head (entry_of ofs t)) subs))"

lemma build_fields_enc:
  "list_all plain_field fs \<Longrightarrow> list_all (wf_field ovf) fs \<Longrightarrow>
     build_fields ovf fs = Ok (map (\<lambda>f. table_frame (enc_field (\<lambda>_. 0) f)) fs)"
  by (induction fs) (simp_all add: plain_field_enc)

text \<open>The structure of \<open>decode_struct_type_from_bytes\<close>, and what the test asks of it.\<close>

definition field_bflag :: field where
  "field_bflag = \<lparr>fd_name = bytes_of ''bFlag'', fd_typ = bytes_of ''BOOL'', fd_offset = Some 0, fd_size = 1, fd_array = [],
     fd_base_type = 33, fd_flags = 1, fd_comment = [], fd_attributes = None\<rparr>"

definition field_nvalue :: field where
  "field_nvalue = \<lparr>fd_name = bytes_of ''nValue'', fd_typ = bytes_of ''INT'', fd_offset = Some 2, fd_size = 2, fd_array = [],
     fd_base_type = 2, fd_flags = 1, fd_comment = [], fd_attributes = None\<rparr>"

definition st_test :: sym_type where
  "st_test = \<lparr>ty_name = bytes_of ''ST_Test'', ty_type_name = [], ty_comment = [], ty_size = 4, ty_array = [],
     ty_fields = [field_bflag, field_nvalue], ty_base_type = 65, ty_flags = 1, ty_guid = None, ty_methods = None,
     ty_attributes = None, ty_enum_info = None\<rparr>"

lemmas flag_values = TYPE_FLAG_GUID_def TYPE_FLAG_COPY_MASK_def TYPE_FLAG_METHOD_INFOS_def TYPE_FLAG_ATTRIBUTES_def
  TYPE_FLAG_ENUM_INFOS_def

lemma test_strings:
  "wf_str8 (bytes_of ''bFlag'')" "wf_str8 (bytes_of ''nValue'')" "wf_str8 (bytes_of ''ST_Test'')"
  by (rule wf_bytes_of; simp add: bytes_of_def)+

lemma test_fields_wf:
  "wf_field ovf field_bflag \<and> length (enc_field p field_bflag) < 300"
  "wf_field ovf field_nvalue \<and> length (enc_field p field_nvalue) < 300"
  by (simp_all add: wf_field_def field_bflag_def field_nvalue_def demo_strings [THEN wf_str8] test_strings [THEN wf_str8]
      wf_head_def field_head_def wf_opt_def enc_field_def enc_head_def opt_def enc_str_def flag_values)

lemma st_test_wf: "wf_type ovf p (entry_of 0 st_test)"
  using test_fields_wf [of ovf p]
  by (simp add: wf_type_def st_test_def entry_of_def Let_def demo_strings [THEN wf_str8] test_strings [THEN wf_str8]
      wf_head_def entry_head_def wf_opt_def enc_type_def enc_head_def frame_fits_def opt_def table_frame_def enc_str_def
      flag_values)

lemma st_test_plain: "plain_type st_test"
  by (simp add: plain_type_def st_test_def plain_field_def field_bflag_def field_nvalue_def plain_flags_def flag_values)

lemma built_struct_decoded:
  assumes "plain_type t" and "wf_type ovf (\<lambda>_. 0) (entry_of ofs t)"
  shows "\<exists>b. build_struct ovf ofs t = Ok b \<and> b = enc_types (\<lambda>_. 0) [entry_of ofs t] \<and>
    decode_symbol_info ovf [] b = Ok ([], [ty_name t \<mapsto> t])"
proof -
  have "list_all (wf_field ovf) (ty_fields t)"
    using assms(2) by (simp add: wf_type_def entry_of_def Let_def list_all_iff)
  then have "build_struct ovf ofs t = Ok (enc_types (\<lambda>_. 0) [entry_of ofs t])"
    using assms build_fields_enc [of "ty_fields t" ovf] plain_type_enc [OF assms]
    by (simp add: build_struct_def enc_types_def plain_type_def)
  then show ?thesis
    using decode_types_enc [of ovf "\<lambda>_. 0" "[entry_of ofs t]"] assms(2)
    by (simp add: decode_symbol_info_def decode_symbols.simps entry_of_def)
qed

text \<open>
  C23. The test suite's encoder and the decoder agree on every plain structure, not only on the one
  of the test: the entry built from a type and its fields is the one the specification of the type
  table describes, and uploading it alone gives a type map with exactly that type under its name.
\<close>

theorem built_struct_decodes:
  assumes "plain_type t" and "wf_type ovf (\<lambda>_. 0) (entry_of ofs t)"
  shows "\<exists>b. build_struct ovf ofs t = Ok b \<and> b = enc_types (\<lambda>_. 0) [entry_of ofs t] \<and>
    decode_symbol_info ovf [] b = Ok ([], [ty_name t \<mapsto> t])"
  by (rule built_struct_decoded [OF assms])

theorem built_struct_decodes_witness:
  "\<exists>b. build_struct True 0 st_test = Ok b \<and> decode_symbol_info True [] b = Ok ([], [bytes_of ''ST_Test'' \<mapsto> st_test])"
proof -
  have "ty_name st_test = bytes_of ''ST_Test''" by (simp add: st_test_def)
  then show ?thesis using built_struct_decodes [OF st_test_plain st_test_wf [of True "\<lambda>_. 0"]] by auto
qed

end
