(* ===== verification/Ads_Sim_Files.thy ===== *)
theory Ads_Sim_Files
  imports Ads_Sim Ads_Tool_Run
begin

text \<open>
  Sessions on the file of the simulated device, from the commands of the tool down to the
  frames, and sum-up reads of its memory.
\<close>

section \<open>One write/read request\<close>

lemma sim_write_read:
  assumes "sim_ok sv" and "sim_ok sv'" and "grp \<noteq> SUMUP_READWRITE" and "48 + length wd < 4294967296"
    and "length buf < 4294967296" and "length d + 40 < 4294967296" and "n < 4294967296"
    and "do_read_write_one sv grp ofs (length buf) (length wd) (index_length_rw_bytes \<lparr>rw_index_group = grp,
        rw_index_offset = ofs, rw_read_length = of_nat (length buf), rw_write_length = of_nat (length wd)\<rparr> @ wd) =
      Ok ((if err = 0 then u32_le 0 @ u32_le (of_nat n) @ d else [], err), sv')"
  shows "\<exists>ns'. write_read (sim_comm fin bad) addr grp ofs wd buf (cl, (sv, ns)) =
    (if err = 0 then Ok (n, take (length buf) d @ drop (length d) buf) else ads_error (action ReadWrite) err,
     (next_request cl, (sv', ns')))"
proof -
  let ?rw = "index_length_rw_bytes \<lparr>rw_index_group = grp, rw_index_offset = ofs, rw_read_length = of_nat (length buf),
      rw_write_length = of_nat (length wd)\<rparr>"
  let ?reply = "if err = 0 then u32_le 0 @ u32_le (of_nat n) @ d else []"
  have "do_read_write sv (?rw @ wd) = Ok ((?reply, err), sv')"
    using do_read_write_single [OF assms(3), of sv ofs "of_nat (length buf)" "of_nat (length wd)" wd] assms(4,5,8) by simp
  then have h: "handle_request sv (command_code ReadWrite) (concat [?rw, wd]) = Ok ((?reply, err), sv')"
    by (simp add: handle_request_def)
  have fits: "fits [?rw, wd]" using assms(4) by simp
  have ok: "notif_ok sv'" using assms(2) by (simp add: sim_ok_def)
  have "\<exists>ns'. sim_comm fin bad ReadWrite addr [?rw, wd] [u32_le 0, buf] (cl, (sv, ns)) =
     (if err = 0 then Ok (length (u32_le (of_nat n) @ d), scatter [u32_le 0, buf] (u32_le (of_nat n) @ d))
      else ads_error (action ReadWrite) err, (next_request cl, (sv', ns')))"
    using sim_communicate [OF fits sim_opts [of bad] ok _ _ h, of "u32_le (of_nat n) @ d" "[u32_le 0, buf]" fin addr cl ns] assms(6)
    by (auto simp: room_for_def)
  moreover have "try_u32 (length buf) = Ok (of_nat (length buf))" "try_u32 (length wd) = Ok (of_nat (length wd))"
    using assms(4,5) by (simp_all add: try_u32_def)
  ultimately show ?thesis
    using assms(7) by (auto simp: write_read_def ibind_def ads_error_map_of)
qed

section \<open>The file\<close>

lemmas file_groups = FILE_OPEN_def FILE_CLOSE_def FILE_WRITE_def FILE_READ_def FILE_DELETE_def

lemma length_SIM_FILE [simp]: "length SIM_FILE = 11"
  by (simp add: SIM_FILE_def bytes_of_def)

lemma sim_ok_file [simp]: "sim_ok (sv\<lparr>sv_file_ptr := p\<rparr>) = sim_ok sv"
  by (cases "sv_notif sv") (simp_all add: sim_ok_def notif_ok_def split_beta)

lemma sim_file_open:
  assumes "sim_ok sv" and "sv_file_ptr sv = None"
  shows "\<exists>ns'. file_open (sim_comm fin bad) addr SIM_FILE flags (cl, (sv, ns)) =
    (Ok 42, (next_request cl, (sv\<lparr>sv_file_ptr := Some (flags AND (WRITE OR APPEND) \<noteq> 0, 0)\<rparr>, ns')))"
proof -
  have "\<exists>ns'. write_read (sim_comm fin bad) addr FILE_OPEN flags SIM_FILE (replicate 4 0) (cl, (sv, ns)) =
      (Ok (4, u32_le 42), (next_request cl, (sv\<lparr>sv_file_ptr := Some (flags AND (WRITE OR APPEND) \<noteq> 0, 0)\<rparr>, ns')))"
    using sim_write_read [of sv "sv\<lparr>sv_file_ptr := Some (flags AND (WRITE OR APPEND) \<noteq> 0, 0)\<rparr>" FILE_OPEN SIM_FILE
        "replicate 4 0" "u32_le 42" 4 flags 0 fin bad addr cl ns] assms
    by (simp add: do_read_write_one_def sumup_groups file_groups Let_def)
  then show ?thesis by (auto simp: file_open_def write_read_exact_def ibind_def)
qed

lemma sim_file_read:
  assumes "sim_ok sv" and "sv_file_ptr sv = Some (False, cur)" and "cur \<le> 888" and "length buf < 4294967296"
  defines "n \<equiv> min (length buf) (888 - cur)"
  shows "\<exists>ns'. file_read io_text (sim_comm fin bad) addr 42 buf (cl, (sv, ns)) =
    (Ok (n, replicate n 0 @ drop n buf), (next_request cl, (sv\<lparr>sv_file_ptr := Some (False, cur + n)\<rparr>, ns')))"
proof -
  have n: "min (cur + length buf) 888 = cur + n" "n \<le> 888" "n \<le> length buf" using assms(3) unfolding n_def by linarith+
  have "\<exists>ns'. write_read (sim_comm fin bad) addr FILE_READ 42 [] buf (cl, (sv, ns)) =
      (Ok (n, replicate n 0 @ drop n buf), (next_request cl, (sv\<lparr>sv_file_ptr := Some (False, cur + n)\<rparr>, ns')))"
    using sim_write_read [of sv "sv\<lparr>sv_file_ptr := Some (False, cur + n)\<rparr>" FILE_READ "[]" buf "replicate n 0" n 42 0
        fin bad addr cl ns] assms(1,2,4) n
    by (simp add: do_read_write_one_def sumup_groups file_groups Let_def min_absorb2)
  then show ?thesis by (auto simp: file_read_def map_err_def)
qed

lemma sim_file_drop:
  assumes "sim_ok sv"
  shows "\<exists>ns'. file_drop (sim_comm fin bad) addr 42 (cl, (sv, ns)) = (Ok (), (next_request cl, (sv\<lparr>sv_file_ptr := None\<rparr>, ns')))"
proof -
  have "\<exists>ns'. write_read (sim_comm fin bad) addr FILE_CLOSE 42 [] [] (cl, (sv, ns)) =
      (Ok (0, []), (next_request cl, (sv\<lparr>sv_file_ptr := None\<rparr>, ns')))"
    using sim_write_read [of sv "sv\<lparr>sv_file_ptr := None\<rparr>" FILE_CLOSE "[]" "[]" "[]" 0 42 0 fin bad addr cl ns] assms
    by (simp add: do_read_write_one_def sumup_groups file_groups Let_def)
  then show ?thesis by (auto simp: file_drop_def icatch_def)
qed

text \<open>The reads of the whole file from the current position on, whatever the size of the buffer.\<close>

lemma sim_read_run:
  assumes "sim_ok sv" and "cur \<le> 888" and "0 < length buf" and "length buf < 4294967296"
    and "sv_file_ptr sv = Some (False, cur)"
  shows "\<exists>xs cl' ns'. read_run io_text (sim_comm fin bad) addr 42 xs buf (cl, (sv, ns))
      (cl', (sv\<lparr>sv_file_ptr := Some (False, 888)\<rparr>, ns')) \<and> parts xs = replicate (888 - cur) 0"
  using assms
proof (induction "888 - cur" arbitrary: cur buf sv cl ns rule: less_induct)
  case less
  let ?n = "min (length buf) (888 - cur)" and ?buf = "\<lambda>n. replicate n 0 @ drop n buf"
  obtain ns1 where r: "file_read io_text (sim_comm fin bad) addr 42 buf (cl, (sv, ns)) =
      (Ok (?n, ?buf ?n), (next_request cl, (sv\<lparr>sv_file_ptr := Some (False, cur + ?n)\<rparr>, ns1)))"
    using sim_file_read [OF less.prems(1,5,2,4), of io_text fin bad addr cl ns] by blast
  show ?case
  proof (cases "cur = 888")
    case True
    then show ?thesis using r by (intro exI [of _ "[]"]) (auto simp: parts_def)
  next
    case False
    let ?sv = "sv\<lparr>sv_file_ptr := Some (False, cur + ?n)\<rparr>"
    have n: "888 - (cur + ?n) < 888 - cur" "cur + ?n \<le> 888" "0 < ?n" "?n \<le> length buf"
      using False less.prems(2,3) by linarith+
    have len: "length (?buf ?n) = length buf" using n(4) by simp
    obtain xs cl' ns' where xs: "read_run io_text (sim_comm fin bad) addr 42 xs (?buf ?n) (next_request cl, (?sv, ns1))
        (cl', (?sv\<lparr>sv_file_ptr := Some (False, 888)\<rparr>, ns'))" "parts xs = replicate (888 - (cur + ?n)) 0"
      using less.hyps [OF n(1), of ?sv "?buf ?n" "next_request cl" ns1] less.prems(1,3,4) n(2) len by auto
    have "parts ((?n, ?buf ?n) # xs) = replicate (888 - cur) 0"
    proof -
      have "parts ((?n, ?buf ?n) # xs) = replicate ?n 0 @ parts xs" by (simp add: parts_def)
      also have "\<dots> = replicate (?n + (888 - (cur + ?n))) 0" by (simp only: xs(2) replicate_add)
      also have "?n + (888 - (cur + ?n)) = 888 - cur" using n(2) by linarith
      finally show ?thesis .
    qed
    with r xs(1) n len show ?thesis by (intro exI [of _ "(?n, ?buf ?n) # xs"]) auto
  qed
qed

text \<open>
  C14. Reading a file from end to end: the command of the tool against the simulated device, over
  client, frames and reader thread, opens the file, prints its 888 bytes, returns, and leaves
  the device as it was, with the file closed; for every size of the copy buffer, and
  while notifications arrive.
\<close>

theorem sim_reads_file:
  assumes "sim_ok sv" and "sv_file_ptr sv = None" and "0 < ip_bufsize ps" and "ip_bufsize ps < 2 ^ 32"
  shows "\<exists>cl' ns'. file_read_cmd ps (sim_comm fin bad) addr SIM_FILE ((cl, (sv, ns)), t) =
    Some (Ok (), ((cl', (sv, ns')), t @ replicate 888 0))"
proof -
  let ?flags = "READ OR BINARY OR ENSURE_DIR"
  have flags: "?flags AND (WRITE OR APPEND) = 0"
    by (simp add: READ_def BINARY_def ENSURE_DIR_def WRITE_def APPEND_def)
  let ?sv = "sv\<lparr>sv_file_ptr := Some (False, 0)\<rparr>"
  obtain ns1 where o: "file_open (sim_comm fin bad) addr SIM_FILE ?flags (cl, (sv, ns)) = (Ok 42, (next_request cl, (?sv, ns1)))"
    using sim_file_open [OF assms(1,2), of fin bad addr ?flags cl ns] flags by auto
  obtain xs cl2 ns2 where run: "read_run (ip_text_of ps) (sim_comm fin bad) addr 42 xs (replicate (ip_bufsize ps) 0)
      (next_request cl, (?sv, ns1)) (cl2, (?sv\<lparr>sv_file_ptr := Some (False, 888)\<rparr>, ns2))" "parts xs = replicate 888 0"
    using sim_read_run [of ?sv 0 "replicate (ip_bufsize ps) 0" "ip_text_of ps" fin bad addr "next_request cl" ns1] assms(1,3,4)
    by auto
  have "sim_ok (?sv\<lparr>sv_file_ptr := Some (False, 888)\<rparr>)" using assms(1) by simp
  then obtain ns3 where d: "file_drop (sim_comm fin bad) addr 42 (cl2, (?sv\<lparr>sv_file_ptr := Some (False, 888)\<rparr>, ns2)) =
      (Ok (), (next_request cl2, (sv\<lparr>sv_file_ptr := None\<rparr>, ns3)))"
    using sim_file_drop [of "?sv\<lparr>sv_file_ptr := Some (False, 888)\<rparr>" fin bad addr cl2 ns2] by auto
  have "sv\<lparr>sv_file_ptr := None\<rparr> = sv" using assms(2) by (cases sv) simp
  with o d copy_to_stdout_run [OF run(1), of t] run(2) show ?thesis
    by (simp add: file_read_cmd_def on_dev_def map_err_def drop_after_def)
qed

theorem sim_reads_file_witness:
  "\<exists>cl' ns'. file_read_cmd demo_io (sim_comm (io_of_kind UnexpectedEof) False) demo_addr SIM_FILE
      ((demo_client, (server_init, [])), []) = Some (Ok (), ((cl', (server_init, ns')), replicate 888 0))"
  using sim_reads_file [OF sim_ok_init, of demo_io "io_of_kind UnexpectedEof" False demo_addr demo_client "[]" "[]"]
  by (simp add: server_init_def demo_io_def)

section \<open>Sum-up reads\<close>

text \<open>The answers of the device to single reads of its memory: the bytes, or an error and zeros.\<close>

definition fetch_answer :: "server \<Rightarrow> read_request \<Rightarrow> answer" where
  "fetch_answer sv r =
     (let n = length (rr_rbuf r) in
      case device_fetch sv (index_group (rr_req r)) (index_offset (rr_req r)) n of
        Ok d \<Rightarrow> (0, d) | Err e \<Rightarrow> (e, replicate n 0) | Panic \<Rightarrow> (0, replicate n 0))"

abbreviation wf_read :: "read_request \<Rightarrow> bool" where
  "wf_read r \<equiv> il_length (rr_req r) = of_nat (length (rr_rbuf r)) \<and> length (rr_rbuf r) + 8 < 4294967296"

lemma length_fetch_answer [simp]: "length (snd (fetch_answer sv r)) = length (rr_rbuf r)"
  using device_fetch_length [of sv] by (auto simp: fetch_answer_def Let_def split: outcome.split)

lemma sim_fetch_answer:
  assumes "wf_read r" and "do_read sv (index_length_bytes (rr_req r)) = (d, e)"
  shows "e = fst (fetch_answer sv r)" and "len_minus_8 (resized (length (rr_rbuf r) + 8) d) = Ok (of_nat (length (rr_rbuf r)))"
    and "drop 8 (resized (length (rr_rbuf r) + 8) d) = snd (fetch_answer sv r)"
proof -
  let ?n = "length (rr_rbuf r)" and ?f = "device_fetch sv (index_group (rr_req r)) (index_offset (rr_req r)) (length (rr_rbuf r))"
  have req: "rr_req r = \<lparr>index_group = index_group (rr_req r), index_offset = index_offset (rr_req r), il_length = of_nat ?n\<rparr>"
    using assms(1) by (cases "rr_req r") simp
  have de: "d = (case ?f of Ok d \<Rightarrow> u32_le 0 @ u32_le (of_nat ?n) @ d | _ \<Rightarrow> [])" "e = fst (fetch_answer sv r)"
    using assms do_read_fetch [of ?n sv "index_group (rr_req r)" "index_offset (rr_req r)"]
    unfolding req [symmetric] by (auto simp: fetch_answer_def Let_def split: outcome.splits)
  show "e = fst (fetch_answer sv r)" by (rule de(2))
  have "length (resized (?n + 8) d) = ?n + 8"
    using device_fetch_length [of sv] by (auto simp: de(1) resized_def split: outcome.split)
  moreover have "\<not> (of_nat (?n + 8) :: u32) < 8"
    using unat_of_nat_u32 [of "?n + 8"] assms(1) by (simp add: word_less_nat_alt del: of_nat_add)
  ultimately show "len_minus_8 (resized (?n + 8) d) = Ok (of_nat ?n)"
    by (simp add: len_minus_8_def Let_def)
  show "drop 8 (resized (?n + 8) d) = snd (fetch_answer sv r)"
    using device_fetch_length [of sv] device_codes(2) [of sv]
    by (auto simp: de(1) resized_def fetch_answer_def Let_def split: outcome.split)
qed

lemma sumup_read_loop_answers:
  assumes "length hdr = 16" and "list_all wf_read ys"
  shows "sumup_read_loop sv (hdr @ concat (map (\<lambda>r. index_length_bytes (rr_req r)) (xs @ ys))) (length xs) (length ys) =
    Ok (concat (map (\<lambda>y. result_length_bytes (answer_result (fetch_answer sv y))) ys),
        concat (map (\<lambda>y. snd (fetch_answer sv y)) ys))"
  using assms
proof (induction ys arbitrary: xs)
  case (Cons y ys)
  let ?il = "\<lambda>r. index_length_bytes (rr_req r)"
  let ?data = "hdr @ concat (map ?il (xs @ y # ys))"
  have h: "drop (16 + length xs * 12) ?data = ?il y @ concat (map ?il ys)" using Cons.prems(1) by simp
  have len: "length ?data = 16 + 12 * length (xs @ y # ys)" using Cons.prems(1) by simp
  have s1: "slice_of ?data (16 + length xs * 12) (16 + length xs * 12 + 12) = Ok (?il y)"
    using h len by (simp add: slice_of_def)
  have s2: "slice_of ?data (16 + length xs * 12 + 8) (16 + length xs * 12 + 12) = Ok (u32_le (of_nat (length (rr_rbuf y))))"
  proof -
    have "drop (16 + length xs * 12 + 8) ?data = drop 8 (drop (16 + length xs * 12) ?data)"
      by (simp only: drop_drop add.commute)
    also have "\<dots> = u32_le (of_nat (length (rr_rbuf y))) @ concat (map ?il ys)"
      unfolding h using Cons.prems(2) by (simp add: index_length_bytes_def)
    finally show ?thesis using len by (simp add: slice_of_def)
  qed
  obtain d e where r: "do_read sv (?il y) = (d, e)" by fastforce
  have y: "wf_read y" using Cons.prems(2) by simp
  note a = sim_fetch_answer [OF y r]
  have n: "unat (le_u32 (u32_le (of_nat (length (rr_rbuf y))))) = length (rr_rbuf y)" using y by simp
  have ih: "sumup_read_loop sv ?data (Suc (length xs)) (length ys) =
      Ok (concat (map (\<lambda>y. result_length_bytes (answer_result (fetch_answer sv y))) ys),
          concat (map (\<lambda>y. snd (fetch_answer sv y)) ys))"
    using Cons.IH [of "xs @ [y]"] Cons.prems by simp
  show ?case
    by (simp only: list.size sumup_read_loop.simps s1 s2 rbind.simps Let_def n r prod.case a(2,3) ih rmap.simps
        add_0_right add_Suc_right One_nat_def plus_1_eq_Suc)
      (simp add: result_length_bytes_def answer_result_def a(1))
qed simp

lemma length_concat_results [simp]: "length (concat (map (\<lambda>x. result_length_bytes (f x)) xs)) = 8 * length xs"
  by (induction xs) simp_all

abbreviation read_total :: "read_request list \<Rightarrow> nat" where
  "read_total rs \<equiv> sum_list (map (\<lambda>r. 8 + length (rr_rbuf r)) rs)"

definition read_reply :: "server \<Rightarrow> read_request list \<Rightarrow> bytes" where
  "read_reply sv rs = sumup_read_reply (of_nat (read_total rs)) (map (fetch_answer sv) rs) (replicate (length rs) [])"

lemma read_parts: "map2 (\<lambda>a pad. snd a @ pad) (map (fetch_answer sv) rs) (replicate (length rs) []) = map (\<lambda>r. snd (fetch_answer sv r)) rs"
  by (induction rs) simp_all

lemma read_total: "8 * length rs + length (concat (map (\<lambda>r. snd (fetch_answer sv r)) rs)) = read_total rs"
  by (induction rs) simp_all

lemma length_read_reply: "length (read_reply sv rs) = 4 + read_total rs"
  using read_total [of rs sv] by (simp add: read_reply_def sumup_read_reply_def read_parts o_def)

lemma sim_sumup_read_reply:
  assumes "list_all wf_read rs" and "12 * length rs < 4294967296"
  shows "do_read_write sv (concat (read_payload rs)) = Ok ((u32_le 0 @ read_reply sv rs, 0), sv)"
proof -
  let ?hdr = "index_length_rw_bytes \<lparr>rw_index_group = SUMUP_READ_EX, rw_index_offset = of_nat (length rs),
      rw_read_length = of_nat (read_total rs), rw_write_length = of_nat (12 * length rs)\<rparr>"
  have "sumup_read_loop sv (?hdr @ concat (map (\<lambda>r. index_length_bytes (rr_req r)) rs)) 0 (length rs) =
    Ok (concat (map (\<lambda>y. result_length_bytes (answer_result (fetch_answer sv y))) rs),
        concat (map (\<lambda>y. snd (fetch_answer sv y)) rs))"
    using sumup_read_loop_answers [OF _ assms(1), of ?hdr sv "[]"] by simp
  moreover have "of_nat (8 * length rs + length (concat (map (\<lambda>y. snd (fetch_answer sv y)) rs))) = (of_nat (read_total rs) :: u32)"
    by (simp only: read_total)
  moreover have "concat (read_payload rs) = ?hdr @ concat (map (\<lambda>r. index_length_bytes (rr_req r)) rs)"
    by (simp add: read_payload_def)
  ultimately show ?thesis
    using assms(2)
    by (simp only:, subst do_read_write_single)
      (simp_all add: do_read_write_one_def sumup_groups Let_def sumup_data_def read_reply_def sumup_read_reply_def read_parts o_def del: of_nat_add)
qed

text \<open>The call, over any way to communicate that carries the device's answer.\<close>

lemma read_multi_fetches:
  assumes "comm ReadWrite addr (read_payload rs) (result_bufs_of rr_res rr_rbuf rs) s =
      (Ok (m, scatter (result_bufs_of rr_res rr_rbuf rs) (read_reply sv rs)), s')"
    and "read_total rs < 4294967296" and "12 * length rs < 4294967296"
  shows "\<exists>rs'. read_multi comm addr rs s = (Ok rs', s') \<and>
    map read_request_data rs' = map (\<lambda>r. answer_data ''multi-read data'' (fetch_answer sv r)) rs"
proof -
  have "list_all2 (\<lambda>(a, pad) r. length (snd a) + length pad = length (rr_rbuf r))
      (zip (map (fetch_answer sv) rs) (replicate (length rs) [])) rs"
    by (induction rs) (simp_all add: split_beta)
  from read_multi_answers [where comm = comm, OF assms(1) [unfolded read_reply_def] this] assms(2,3) show ?thesis by (simp add: o_def)
qed

text \<open>Reads of the memory.\<close>

definition read_requests :: "(nat \<times> bytes) list \<Rightarrow> read_request list" where
  "read_requests xs = map (\<lambda>(ofs, buf). read_request_new PLC_RW_M (of_nat ofs) buf) xs"

definition read_size :: "(nat \<times> bytes) list \<Rightarrow> nat" where
  "read_size xs = sum_list (map (\<lambda>x. 8 + length (snd x)) xs)"

lemma read_size:
  "read_total (read_requests xs) = read_size xs"
  "x \<in> set xs \<Longrightarrow> 8 + length (snd x) \<le> read_size xs"
  by (induction xs) (auto simp: read_size_def read_requests_def read_request_new_def)

lemma fetch_answer_memory:
  assumes "fst x < 4294967296" and "sim_ok sv"
  shows "answer_data act (fetch_answer sv (read_request_new PLC_RW_M (of_nat (fst x)) (snd x))) =
    (if fst x + length (snd x) \<le> 1024 then Ok (peek (fst x) (length (snd x)) (sv_data sv)) else ads_error act 0x703)"
  using assms device_place_cases(1) [OF device_place_simps(1) [OF assms(1)], of sv "length (snd x)"]
  by (simp add: fetch_answer_def read_request_new_def answer_data_def sim_ok_def)

text \<open>
  C12. A sum-up read against the simulated device: the call succeeds, every single read gets exactly the
  bytes of its range, or the error of an access beyond the memory, and the device is left as it was.
\<close>

theorem sim_read_multi:
  assumes "sim_ok sv" and "list_all (\<lambda>x. fst x < 2 ^ 32) xs" and "48 + 12 * length xs < 2 ^ 32"
    and "40 + read_size xs < 2 ^ 32"
  shows "\<exists>rs' cl' ns'. read_multi (sim_comm fin bad) addr (read_requests xs) (cl, (sv, ns)) = (Ok rs', (cl', (sv, ns'))) \<and>
    map read_request_data rs' = map (\<lambda>(ofs, buf). if ofs + length buf \<le> 1024 then Ok (peek ofs (length buf) (sv_data sv))
      else ads_error ''multi-read data'' 0x703) xs"
proof -
  let ?rs = "read_requests xs"
  let ?data = "read_reply sv ?rs" and ?bufs = "result_bufs_of rr_res rr_rbuf ?rs"
  have n: "length ?rs = length xs" by (simp add: read_requests_def)
  have "list_all wf_read ?rs"
    using assms(4) read_size(2) [of _ xs] by (fastforce simp: list_all_iff read_requests_def read_request_new_def)
  then have h: "handle_request sv (command_code ReadWrite) (concat (read_payload ?rs)) = Ok ((u32_le 0 @ ?data, 0), sv)"
    using sim_sumup_read_reply [of ?rs sv] assms(3) n by (simp add: handle_request_def)
  have len: "length ?data = 4 + read_size xs" by (simp only: length_read_reply read_size(1))
  have fits: "fits (read_payload ?rs)" using assms(3) n by (simp add: read_payload_def)
  have ok: "notif_ok sv" using assms(1) by (simp add: sim_ok_def)
  obtain ns' where c: "sim_comm fin bad ReadWrite addr (read_payload ?rs) ?bufs (cl, (sv, ns)) =
      (Ok (length ?data, scatter ?bufs ?data), (next_request cl, (sv, ns')))"
    using sim_communicate [OF fits sim_opts [of bad] ok _ _ h, of ?data ?bufs fin addr cl ns] assms(4) len
    by (simp add: room_for_def result_bufs_of_def)
  from read_multi_fetches [where comm = "sim_comm fin bad", OF c] read_size(1) [of xs] assms(3,4) n
  obtain rs' where "read_multi (sim_comm fin bad) addr ?rs (cl, (sv, ns)) = (Ok rs', (next_request cl, (sv, ns')))"
    and "map read_request_data rs' = map (\<lambda>r. answer_data ''multi-read data'' (fetch_answer sv r)) ?rs" by auto
  moreover have "map (\<lambda>r. answer_data ''multi-read data'' (fetch_answer sv r)) ?rs =
      map (\<lambda>(ofs, buf). if ofs + length buf \<le> 1024 then Ok (peek ofs (length buf) (sv_data sv))
        else ads_error ''multi-read data'' 0x703) xs"
    using assms(2) fetch_answer_memory [OF _ assms(1)] by (auto simp: read_requests_def list_all_iff)
  ultimately show ?thesis by auto
qed

theorem sim_read_multi_witness:
  "\<exists>rs' cl' ns'. read_multi (sim_comm (io_of_kind UnexpectedEof) False) demo_addr
      (read_requests [(4, [9, 9]), (1023, [9, 9]), (0, [])]) (demo_client, (server_init, [])) = (Ok rs', (cl', (server_init, ns'))) \<and>
    map read_request_data rs' = [Ok [0, 0], ads_error ''multi-read data'' 0x703, Ok []]"
proof -
  have "peek 4 (Suc (Suc 0)) (replicate 1024 0) = [0, 0]" by (simp add: peek_def)
  with sim_read_multi [OF sim_ok_init, of "[(4, [9, 9]), (1023, [9, 9]), (0, [])]" "io_of_kind UnexpectedEof" False demo_addr
      demo_client "[]"]
  show ?thesis by (simp add: read_size_def server_init_def peek_def)
qed

end
