(* ===== verification/Ads_Sim_Tasks.thy ===== *)
theory Ads_Sim_Tasks
  imports Ads_Sim Ads_Task_Info
begin

text \<open>
  The task telemetry of \<open>src/task_info.rs\<close> read from a device: over the interface of a memory, and through its
  interpretation from the simulated device, across client, frames and reader thread.
\<close>

section \<open>Over any memory\<close>

lemma peek_peek: "i + n \<le> k \<Longrightarrow> ofs + k \<le> length m \<Longrightarrow> take n (drop i (peek ofs k m)) = peek (ofs + i) n m"
  by (simp add: peek_def drop_take add.commute min_def)

lemma drop_peek: "drop i (peek ofs k m) = peek (ofs + i) (k - i) m"
  by (simp add: peek_def drop_take add.commute)

definition count_read :: "bytes \<Rightarrow> nat \<Rightarrow> reported_task_count \<Rightarrow> bool" where
  "count_read m ofs c =
     (if ofs + 8 \<le> length m then c = Available (le_u32 (peek (ofs + 4) 4 m)) else (case c of Unavailable _ \<Rightarrow> True | _ \<Rightarrow> False))"

context plc_memory
begin

lemma reads_task_count:
  assumes "ok s" and "tl_index_group app = grp"
  shows "\<exists>x s'. read_app_task_count comm addr app s = (x, s') \<and> ok s' \<and> mem s' = mem s \<and> x \<noteq> Panic \<and>
    count_read (mem s) (unat (tl_index_offset app)) (case x of Ok n \<Rightarrow> Available n | Err e \<Rightarrow> Unavailable e)"
proof (cases "unat (tl_index_offset app) + 8 \<le> length (mem s)")
  case True
  with reads_exactly [of s "unat (tl_index_offset app)" "replicate 8 0"] assms show ?thesis
    by (auto simp: read_app_task_count_def ibind_def APP_INFO_TASK_COUNT_SIZE_def APP_INFO_TASK_COUNT_OFFSET_def rd_u32_if
        count_read_def drop_peek)
next
  case False
  have "unat (tl_index_offset app) < 2 ^ 32" using unsigned_less [where 'b = 32] by simp
  with False refuses [of s "unat (tl_index_offset app)" "replicate 8 0"] assms show ?thesis
    by (auto simp: read_app_task_count_def read_exact_def ibind_def APP_INFO_TASK_COUNT_SIZE_def count_read_def)
qed

lemma reads_tasks:
  assumes "ok s" and "layout_ok (tr_layout r)" and "k < 2 ^ 31" and "sint (tr_first_index r) + int k \<le> 2 ^ 31"
    and "tr_target r = addr" and "tr_task_info r = loc" and "tl_index_group loc = grp"
    and "tl_size loc = k * entry_size (tr_layout r)" and "unat (tl_index_offset loc) + tl_size loc \<le> length (mem s)"
    and "tr_app_info r = Some app" and "tl_index_group app = grp"
  shows "\<exists>c s'. task_info_read r comm addr (tr_symbol_generation r) s =
      (Ok \<lparr>reported_task_count = Some c,
           tasks = map (\<lambda>i. task_spec (task_name_offset (tr_layout r)) (tr_first_index r + of_nat i)
             (peek (unat (tl_index_offset loc) + i * entry_size (tr_layout r)) (entry_size (tr_layout r)) (mem s)))
             [0..<k]\<rparr>, s') \<and>
    ok s' \<and> mem s' = mem s \<and> count_read (mem s) (unat (tl_index_offset app)) c"
proof -
  let ?n = "entry_size (tr_layout r)" and ?o = "unat (tl_index_offset loc)"
  let ?b = "peek ?o (tl_size loc) (mem s)"
  obtain s1 where s1: "read_exact comm addr grp (tl_index_offset loc) (replicate (tl_size loc) 0) s = (Ok ?b, s1)"
    "ok s1" "mem s1 = mem s"
    using reads_exactly [OF assms(1), of ?o "replicate (tl_size loc) 0"] assms(9) by auto
  obtain x s2 where s2: "read_app_task_count comm addr app s1 = (x, s2)" "ok s2" "mem s2 = mem s" "x \<noteq> Panic"
    "count_read (mem s) (unat (tl_index_offset app)) (case x of Ok n \<Rightarrow> Available n | Err e \<Rightarrow> Unavailable e)"
    using reads_task_count [OF s1(2) assms(11)] s1(3) by auto
  have "take ?n (drop (i * ?n) ?b) = peek (?o + i * ?n) ?n (mem s)" if "i < k" for i
    using that assms(8,9) mult_le_mono1 [of "Suc i" k ?n] by (intro peek_peek) simp_all
  then have "decode_tasks r ?b = Ok (map (\<lambda>i. task_spec (task_name_offset (tr_layout r)) (tr_first_index r + of_nat i)
      (peek (?o + i * ?n) ?n (mem s))) [0..<k])"
    using decode_tasks_spec [OF assms(2-4), of ?b] assms(6,8,9) by simp
  then have "task_info_read r comm addr (tr_symbol_generation r) s =
      (Ok \<lparr>reported_task_count = Some (case x of Ok n \<Rightarrow> Available n | Err e \<Rightarrow> Unavailable e),
           tasks = map (\<lambda>i. task_spec (task_name_offset (tr_layout r)) (tr_first_index r + of_nat i)
             (peek (?o + i * ?n) ?n (mem s))) [0..<k]\<rparr>, s2)"
    using s1(1) s2(1,4) assms(5-7,10) by (cases x) (simp_all add: task_info_read_def ibind_def icatch_def)
  with s2 show ?thesis by blast
qed

end

section \<open>Against the simulated device\<close>

text \<open>
  C13. Task telemetry end to end: a reader that is built from a validated entry type, the bounds of
  the PLC array and a location in the memory of the simulated device returns one task per index, each read
  off its own entry in that memory, and the task count the application reports; where the count lies outside
  the memory, the tasks are returned all the same and the count is marked as unavailable. The memory is
  not changed.
\<close>

theorem sim_reads_tasks:
  assumes "sim_ok sv" and "from_entry_type t = Ok l" and "reader_new addr gen loc (fi, la) l = Ok r0"
    and "with_app_info r0 app = Ok r" and "tl_index_group loc = PLC_RW_M" and "tl_index_group app = PLC_RW_M"
    and "unat (tl_index_offset loc) + tl_size loc \<le> 1024"
  shows "\<exists>c s'. task_info_read r (sim_comm fin bad) addr gen (cl, (sv, ns)) =
      (Ok \<lparr>reported_task_count = Some c,
           tasks = map (\<lambda>i. task_spec (task_name_offset l) (fi + of_nat i)
             (peek (unat (tl_index_offset loc) + i * ty_size t) (ty_size t) (sv_data sv)))
             [0..<nat (sint la - sint fi + 1)]\<rparr>, s') \<and>
    sim_ok (fst (snd s')) \<and> sv_data (fst (snd s')) = sv_data sv \<and>
    count_read (sv_data sv) (unat (tl_index_offset app)) c"
proof -
  note facts = reader_new_facts [OF assms(3)]
  have r: "r = r0\<lparr>tr_app_info := Some app\<rparr>" using assms(4) by (simp add: with_app_info_def split: if_splits)
  have l: "layout_ok l" "entry_size l = ty_size t" using from_entry_type_ok [OF assms(2)] by simp_all
  have "length (sv_data sv) = 1024" using assms(1) by (simp add: sim_ok_def)
  then show ?thesis
    using sim.reads_tasks [of "(cl, (sv, ns))" r "nat (sint la - sint fi + 1)" addr loc app fin bad] assms(1,5-7) l
      facts(1-3) sint_lt [of la]
    by (simp add: r facts(4))
qed

definition demo_place :: "nat \<Rightarrow> u32 \<Rightarrow> task_info_location" where
  "demo_place n ofs = \<lparr>tl_index_group = PLC_RW_M, tl_index_offset = ofs, tl_size = n\<rparr>"

theorem sim_reads_tasks_witness:
  "\<exists>c s' r0 r. reader_new demo_addr 3 (demo_place 256 16) (1, 2) demo_layout = Ok r0 \<and>
    with_app_info r0 (demo_place 8 1020) = Ok r \<and>
    task_info_read r (sim_comm (io_of_kind UnexpectedEof) False) demo_addr 3 (demo_client, (server_init, [])) =
      (Ok \<lparr>reported_task_count = Some (Unavailable c),
           tasks = [task_spec (Some 64) 1 (replicate 128 0), task_spec (Some 64) 2 (replicate 128 0)]\<rparr>, s')"
proof -
  obtain r0 where r0: "reader_new demo_addr 3 (demo_place 256 16) (1, 2) demo_layout = Ok r0"
    by (simp add: reader_new_def demo_place_def demo_layout_def checked_i32_def checked_usize_def in_i32_def
        MAX_TASK_INFO_SIZE_def)
  obtain r where r: "with_app_info r0 (demo_place 8 1020) = Ok r"
    by (simp add: with_app_info_def demo_place_def APP_INFO_TASK_COUNT_SIZE_def)
  have m: "sv_data server_init = replicate 1024 0" by (simp add: server_init_def)
  obtain c s' where "task_info_read r (sim_comm (io_of_kind UnexpectedEof) False) demo_addr 3 (demo_client, (server_init, [])) =
      (Ok \<lparr>reported_task_count = Some c,
           tasks = [task_spec (Some 64) 1 (replicate 128 0), task_spec (Some 64) 2 (replicate 128 0)]\<rparr>, s')"
    "count_read (replicate 1024 0) 1020 c"
    using sim_reads_tasks [OF sim_ok_init demo_layout_valid r0 r, of "io_of_kind UnexpectedEof" False demo_client "[]"]
    by (auto simp: demo_place_def demo_task_type_def demo_layout_def m peek_def upt_conv_Cons)
  with r0 r show ?thesis by (cases c; cases s') (auto simp: count_read_def)
qed

end
