(* ===== verification/Ads_Examples.thy ===== *)
theory Ads_Examples
  imports Ads_Sim Ads_Tool
begin

text \<open>
  The small programs under \<open>examples/\<close>: \<open>notify.rs\<close>, which prints notifications,
  \<open>values_via_handle.rs\<close>, which reads a structure, and \<open>timing.rs\<close> with its server
  \<open>timing_server.rs\<close>. The text of a floating point number is a parameter;
  the measured times, which \<open>timing.rs\<close> prints, are left out.
\<close>

section \<open>Running a client\<close>

text \<open>A \<open>main\<close> with one client: \<open>Client::new(..).unwrap()\<close>, the body, the end of the client, also after a panic.\<close>

definition with_new_client ::
  "'sa os_env \<Rightarrow> timeouts \<Rightarrow> source_spec \<Rightarrow> 'w net \<Rightarrow> (client \<Rightarrow> ('w, 'a) op) \<Rightarrow> 'w \<Rightarrow> 'a res \<times> 'w" where
  "with_new_client os t src net body w =
     (case client_new os t src of
        Ok cl \<Rightarrow> (case body cl (cl, w) of (r, s') \<Rightarrow> (r, close_client net s'))
      | _ \<Rightarrow> (Panic, w))"

section \<open>Printing notifications\<close>

text \<open>The derived \<open>Debug\<close> of \<open>Sample\<close> and \<open>Debug for Notification\<close>.\<close>

fun comma_list :: "bytes list \<Rightarrow> bytes" where
  "comma_list [] = []"
| "comma_list [x] = x"
| "comma_list (x # xs) = x @ bytes_of '', '' @ comma_list xs"

definition sample_debug :: "sample \<Rightarrow> bytes" where
  "sample_debug s =
     bytes_of ''Sample { handle: '' @ show_nat (unat (s_handle s)) @
     bytes_of '', timestamp: '' @ show_nat (unat (s_timestamp s)) @
     bytes_of '', data: ['' @ comma_list (map (\<lambda>b. show_nat (unat b)) (s_data s)) @ bytes_of ''] }''"

definition notification_debug :: "notification \<Rightarrow> bytes res" where
  "notification_debug n =
     rmap (\<lambda>ss. println (bytes_of ''Notification ['') @
         concat (map (\<lambda>s. println (bytes_of ''    '' @ sample_debug s)) ss) @ bytes_of '']'')
       (rbind (notification_samples n) samples_collect)"

text \<open>The thread of \<open>notify.rs\<close> on the notifications that have arrived.\<close>

primrec notify_thread :: "notification list \<Rightarrow> bytes res" where
  "notify_thread [] = Ok []"
| "notify_thread (msg # msgs) =
     rbind (rbind (notification_samples msg) samples_collect) (\<lambda>ss.
     rmap ((@) (concat (map (\<lambda>s. println (bytes_of ''notify: '' @ sample_debug s)) ss))) (notify_thread msgs))"

definition notify_attributes :: "transmission_mode \<Rightarrow> attributes" where
  "notify_attributes mode = \<lparr>at_length = 4, at_trans_mode = mode, at_max_delay = 10 ^ 9, at_cycle_time = 10 ^ 9\<rparr>"

definition PLC_EXAMPLE :: ams_netid where
  "PLC_EXAMPLE = AmsNetId 5 62 215 36 1 1"

text \<open>\<open>main\<close> up to its endless loop: the text it prints, and the connection with both notifications set up.\<close>

definition notify_setup :: "'w comm \<Rightarrow> client \<Rightarrow> ('w, bytes) op" where
  "notify_setup comm cl =
     ibind (unwrapped (add_notification comm (device_addr cl (AmsAddr PLC_EXAMPLE 851)) 0x4020 4 (notify_attributes ServerCycle)))
       (\<lambda>h1. ibind (unwrapped (add_notification comm (device_addr cl (AmsAddr PLC_EXAMPLE 852)) 0x4020 0
           (notify_attributes ServerOnChange)))
       (\<lambda>h2. iret (println (show_nat (unat h1) @ [32] @ show_nat (unat h2)))))"

definition notify_main :: "'sa os_env \<Rightarrow> 'w net \<Rightarrow> 'w \<Rightarrow> (bytes \<times> 'w conn) res" where
  "notify_main os net w =
     (case client_new os timeouts_none Request of
        Ok cl \<Rightarrow> (case notify_setup (communicate net) cl (cl, w) of (Ok t, s) \<Rightarrow> Ok (t, s) | _ \<Rightarrow> Panic)
      | _ \<Rightarrow> Panic)"

section \<open>Reading a structure\<close>

text \<open>\<open>Motor\<close>, packed; of its \<open>f32\<close> fields the bits.\<close>

record motor =
  m_position :: u32
  m_speed :: u32
  m_moving :: u8

definition motor_from_bytes :: "bytes \<Rightarrow> motor" where
  "motor_from_bytes b = \<lparr>m_position = le_u32 (take 4 b), m_speed = le_u32 (take 4 (drop 4 b)), m_moving = b ! 8\<rparr>"

definition motor_bytes :: "motor \<Rightarrow> bytes" where
  "motor_bytes m = u32_le (m_position m) @ u32_le (m_speed m) @ [m_moving m]"

definition bool_text :: "bool \<Rightarrow> bytes" where
  "bool_text b = bytes_of (if b then ''true'' else ''false'')"

definition motor_text :: "(u32 \<Rightarrow> bytes) \<Rightarrow> motor \<Rightarrow> bytes" where
  "motor_text f32_text m =
     println (bytes_of ''Motor params: pos='' @ f32_text (m_position m) @ bytes_of '' spd='' @ f32_text (m_speed m) @
       bytes_of '' moving='' @ bool_text (m_moving m \<noteq> 0))"

definition values_body :: "(u32 \<Rightarrow> bytes) \<Rightarrow> 'w comm \<Rightarrow> client \<Rightarrow> ('w, bytes) op" where
  "values_body f32_text comm cl =
     (let addr = device_addr cl (AmsAddr PLC_EXAMPLE 851) in
      ibind (unwrapped (handle_new comm addr (bytes_of ''MY_SYMBOL''))) (\<lambda>h s.
        case unwrapped (handle_read_value (replicate 9 0) motor_from_bytes comm addr h) s of
          (r, s') \<Rightarrow> (rmap (motor_text f32_text) r, snd (handle_drop comm addr h s'))))"

definition values_via_handle :: "(u32 \<Rightarrow> bytes) \<Rightarrow> 'sa os_env \<Rightarrow> 'w net \<Rightarrow> 'w \<Rightarrow> bytes res \<times> 'w" where
  "values_via_handle f32_text os net =
     with_new_client os timeouts_none Request net (values_body f32_text (communicate net))"

section \<open>Timing\<close>

text \<open>The canned request of \<open>dumb\<close> and the canned reply of the server.\<close>

definition timing_request :: bytes where
  "timing_request =
     [0, 0, 40, 0, 0, 0, 127, 0, 0, 1, 1, 1, 0, 0, 1, 2, 3, 4, 5, 6, 83, 3, 2, 0,
      5, 0, 12, 0, 0, 0, 0, 0, 0, 0, 1, 0, 0, 0, 0, 0, 0, 0, 4, 0, 0, 0, 0xa4, 0xe0, 0xfb, 68]"

definition timing_response :: bytes where
  "timing_response =
     [0, 0, 44, 0, 0, 0, 127, 0, 0, 1, 1, 1, 0, 0, 1, 2, 3, 4, 5, 6, 83, 3, 2, 0, 5, 0, 12,
      0, 0, 0, 0, 0, 0, 0, 1, 0, 0, 0, 0, 0, 0, 0, 4, 0, 0, 0, 0xa4, 0xe0, 0xfb, 68]"

text \<open>One turn of the server's loop on the 50 bytes it has read: the invoke ID is copied.\<close>

definition timing_reply :: "bytes \<Rightarrow> bytes" where
  "timing_reply buf = take 34 timing_response @ take 4 (drop 34 buf) @ drop 38 timing_response"

text \<open>The loop on the bytes that have arrived: what it writes and what it has not yet read.\<close>

function timing_server :: "bytes \<Rightarrow> bytes \<times> bytes" where
  "timing_server inp =
     (if length inp < 50 then ([], inp)
      else case timing_server (drop 50 inp) of (o', rest) \<Rightarrow> (timing_reply (take 50 inp) @ o', rest))"
  by pat_completeness auto
termination
  by (relation "measure length") auto

declare timing_server.simps [simp del]

text \<open>
  \<open>dumb\<close>, on the bytes in both directions that are under way: \<open>None\<close> when \<open>read_exact\<close> waits for
  ever. The result is what the loop has read.
\<close>

primrec dumb :: "nat \<Rightarrow> bytes \<Rightarrow> bytes \<Rightarrow> bytes list option" where
  "dumb 0 up down = Some []"
| "dumb (Suc k) up down =
     (case timing_server (up @ timing_request) of
        (o', up') \<Rightarrow>
          let down' = down @ o' in
          if length down' < 50 then None
          else map_option (Cons (take 50 down')) (dumb k up' (drop 50 down')))"

text \<open>
  \<open>with_client\<close>: the body of its loop, and the program. The network is the server behind the
  reader thread; \<open>idle\<close> is the error that a call gets when no reply arrives, a timeout if there is none.
\<close>

primrec timing_loop :: "'w comm \<Rightarrow> ams_addr \<Rightarrow> nat \<Rightarrow> bytes \<Rightarrow> ('w, bytes) op" where
  "timing_loop comm addr 0 data = iret data"
| "timing_loop comm addr (Suc k) data =
     ibind (unwrapped (dev_read comm addr 0x4020 0 data)) (\<lambda>(_, data'). timing_loop comm addr k data')"

definition with_client :: "'sa os_env \<Rightarrow> 'w net \<Rightarrow> 'w \<Rightarrow> bytes res \<times> 'w" where
  "with_client os net =
     with_new_client os (timeouts_new (10 ^ 9)) Auto net
       (\<lambda>cl. timing_loop (communicate net) (device_addr cl (AmsAddr (AmsNetId 1 2 3 4 5 6) 851)) 5000 (replicate 4 0))"

definition timing_net :: "io_error \<Rightarrow> error option \<Rightarrow> bytes net" where
  "timing_net fin idle inp req =
     (case (timing_server (inp @ req), ads_header_read (take 38 req)) of
        ((stream, inp'), Some h) \<Rightarrow>
          let st = sim_reader fin (AmsAddr (src_netid h) (src_port h)) (Some stream) (rx_one (hdr_invoke_id h)) in
          (Sent (case answers_to (hdr_invoke_id h) st of
                   Ok (h', payload) # _ \<Rightarrow> RecvReply h' payload
                 | Err e # _ \<Rightarrow> RecvErr e
                 | _ \<Rightarrow> (case idle of None \<Rightarrow> RecvTimeout | Some e \<Rightarrow> RecvErr e)), inp')
      | ((_, inp'), None) \<Rightarrow> (Sent RecvTimeout, inp'))"

section \<open>Queued notifications\<close>

text \<open>Everything that the reader thread queues has passed the validation of \<open>Notification::new\<close>.\<close>

definition notif_valid :: "notification \<Rightarrow> bool" where
  "notif_valid n \<longleftrightarrow> notification_new (n_data n) = Ok n"

lemma notification_new_valid: "notification_new d = Ok n \<Longrightarrow> notif_valid n"
  by (auto simp: notif_valid_def notification_new_eq_Ok)

lemma recv_packet_valid: "recv_packet fin src s = Ok (NotifPkt n, t) \<Longrightarrow> notif_valid n"
  by (auto simp: recv_packet_def pbind_eq_Ok Let_def plift_def classify_packet_def recv_notification_def
      split: if_splits option.splits outcome.splits intro: notification_new_valid)

lemma dispatch_queue:
  "rx_notifs (snd (dispatch p st)) = rx_notifs st @ (case p of NotifPkt n \<Rightarrow> [n] | _ \<Rightarrow> [])"
  by (auto simp: dispatch_def settle_def Let_def split: packet.split option.split)

lemma reader_work_valid:
  assumes "list_all notif_valid (rx_notifs st)"
  shows "list_all notif_valid (rx_notifs (snd (reader_work fin src s st)))"
  using assms
proof (induction fin src s st rule: reader_work.induct)
  case (1 fin src s st)
  show ?case
  proof (cases "recv_packet fin src s")
    case (Ok pt)
    obtain p t where pt: "pt = (p, t)" by fastforce
    obtain q st1 where d: "dispatch p st = (q, st1)" by fastforce
    have "list_all notif_valid (rx_notifs st1)"
      using dispatch_queue [of p st] d "1.prems" Ok pt recv_packet_valid [of fin src s _ t] by (cases p) auto
    then show ?thesis
      using "1.IH" [OF Ok pt [symmetric] d [symmetric]] Ok pt d
      by (cases q) (simp_all add: reader_work.simps [of fin src s st])
  qed (use "1.prems" in \<open>simp_all add: reader_work.simps [of fin src s st]\<close>)
qed

lemma drain_queue: "rx_notifs (drain e is st) = rx_notifs st"
  by (induction "is" arbitrary: st) (auto split: option.split)

lemma reader_thread_valid:
  assumes "list_all notif_valid (rx_notifs st)"
  shows "list_all notif_valid (rx_notifs (snd (reader_thread fin src s st)))"
  using reader_work_valid [OF assms, of fin src s]
  by (auto simp: reader_thread_def drain_queue split: prod.split outcome.split)

lemma valid_samples:
  assumes "notif_valid n"
  shows "\<exists>sts. rbind (notification_samples n) samples_collect = Ok (samples_of sts)"
proof -
  from assms obtain sts where sts: "list_all wf_stamp sts" "length sts = unat (nstamps n)"
    "46 \<le> length (n_data n)" "drop 42 (n_data n) = u32_le (nstamps n) @ concat (map enc_stamp sts)"
    by (auto simp: notif_valid_def notification_new_eq_Ok)
  have "drop 46 (n_data n) = drop 4 (drop 42 (n_data n))" by simp
  also have "\<dots> = concat (map enc_stamp sts)" by (simp add: sts(4))
  finally show ?thesis using notification_collect [OF sts(1-3)] by blast
qed

lemma notify_thread_valid:
  assumes "list_all notif_valid ns"
  shows "\<exists>sss. list_all2 (\<lambda>n ss. rbind (notification_samples n) samples_collect = Ok ss) ns sss \<and>
    notify_thread ns = Ok (concat (map (\<lambda>s. println (bytes_of ''notify: '' @ sample_debug s)) (concat sss)))"
  using assms
proof (induction ns)
  case (Cons n ns)
  then obtain sss where "list_all2 (\<lambda>n ss. rbind (notification_samples n) samples_collect = Ok ss) ns sss"
    "notify_thread ns = Ok (concat (map (\<lambda>s. println (bytes_of ''notify: '' @ sample_debug s)) (concat sss)))"
    by auto
  moreover obtain ss where "rbind (notification_samples n) samples_collect = Ok ss"
    using Cons.prems valid_samples [of n] by auto
  ultimately show ?case by (intro exI [of _ "ss # sss"]) auto
qed simp

text \<open>
  C8. No bytes from the network can make the consumer of the notifications fail: whatever the
  reader thread has received and however it has ended, the printing thread of the example
  decodes all queued messages without a panic and prints every sample of every message, in
  order.
\<close>

theorem queued_notifications_print:
  assumes "rx_notifs st = []" and "reader_thread fin src stream st = (r, st')"
  shows "\<exists>sss. list_all2 (\<lambda>n ss. rbind (notification_samples n) samples_collect = Ok ss) (rx_notifs st') sss \<and>
    notify_thread (rx_notifs st') =
      Ok (concat (map (\<lambda>s. println (bytes_of ''notify: '' @ sample_debug s)) (concat sss)))"
proof -
  have "list_all notif_valid (rx_notifs st')" using reader_thread_valid [of st fin src stream] assms by simp
  then show ?thesis by (rule notify_thread_valid)
qed

theorem queued_notifications_print_witness:
  "\<exists>st' t. snd (reader_thread (io_of_kind UnexpectedEof) (AmsAddr (src_netid (demo_header Read)) (src_port (demo_header Read)))
      (send_notification server_init 0 4 (demo_header Read) False) (rx_one 1)) = st' \<and>
    length (rx_notifs st') = 1 \<and> notify_thread (rx_notifs st') = Ok t"
proof -
  let ?src = "AmsAddr (src_netid (demo_header Read)) (src_port (demo_header Read))" and ?fin = "io_of_kind UnexpectedEof"
  let ?s = "send_notification server_init 0 4 (demo_header Read) False"
  have "reader_work ?fin ?src ?s (rx_one 1) = (Err (Io ''receiving AMS/TCP header'' ?fin),
      (rx_one 1)\<lparr>rx_notifs := [\<lparr>n_data = ?s, nstamps = 1\<rparr>]\<rparr>)"
    using reader_work_notification [of 0 4 server_init ?fin "demo_header Read" False "[]" "rx_one 1"]
    by (simp add: server_init_def rx_one_def reader_work_end)
  then obtain r st' where "reader_thread ?fin ?src ?s (rx_one 1) = (r, st')" "length (rx_notifs st') = 1"
    by (simp add: reader_thread_def drain_queue)
  then show ?thesis using queued_notifications_print [of "rx_one 1" ?fin ?src ?s r st'] by (auto simp: rx_one_def)
qed

section \<open>The timing programs\<close>

definition timing_header :: "u32 \<Rightarrow> ads_header" where
  "timing_header i =
     \<lparr>ams_cmd = 0, hdr_length = 44, dest_netid = AmsNetId 127 0 0 1 1 1, dest_port = 0,
      src_netid = AmsNetId 1 2 3 4 5 6, src_port = 851, hdr_command = 2, state_flags = 5, data_length = 12,
      error_code = 0, hdr_invoke_id = i\<rparr>"

lemma timing_words:
  "u16_le 0 = [0, 0]" "u16_le 851 = [83, 3]" "u16_le 2 = [2, 0]" "u16_le 5 = [5, 0]" "u32_le 44 = [44, 0, 0, 0]"
  "u32_le 12 = [12, 0, 0, 0]" "u32_le 0 = [0, 0, 0, 0]" "u32_le 4 = [4, 0, 0, 0]"
  by code_simp+

lemma timing_reply_frame:
  assumes "take 4 (drop 34 buf) = u32_le i"
  shows "timing_reply buf = frame (timing_header i, u32_le 0 @ u32_le 4 @ [0xa4, 0xe0, 0xfb, 68])"
  by (simp add: timing_reply_def timing_response_def assms frame_def ads_header_bytes_def timing_header_def timing_words)

abbreviation timing_data :: bytes where
  "timing_data \<equiv> [0xa4, 0xe0, 0xfb, 68]"

lemma timing_server_one:
  assumes "length req = 50"
  shows "timing_server req = (timing_reply req, [])"
  using assms by (simp add: timing_server.simps [of req] timing_server.simps [of "[]"])

lemma header_invoke_id: "take 4 (drop 34 (ads_header_bytes h @ s)) = u32_le (hdr_invoke_id h)"
  by (simp add: ads_header_bytes_def)

lemma timing_frame:
  "wf_frame src (timing_header i, u32_le 0 @ u32_le 4 @ timing_data) \<longleftrightarrow> src = AmsAddr (AmsNetId 127 0 0 1 1 1) 0"
  by (cases src) (auto simp: wf_frame_def timing_header_def)

text \<open>What the reader makes of the reply: it is passed over unless it is addressed to the client.\<close>

lemma timing_reader:
  assumes "st = sim_reader fin src (Some (frame (timing_header i, u32_le 0 @ u32_le 4 @ timing_data))) (rx_one i)"
  shows "answers_to i st =
    (if src = AmsAddr (AmsNetId 127 0 0 1 1 1) 0 then [Ok (timing_header i, u32_le 0 @ u32_le 4 @ timing_data)] else [])"
proof (cases "src = AmsAddr (AmsNetId 127 0 0 1 1 1) 0")
  case True
  then have wf: "wf_frame src (timing_header i, u32_le 0 @ u32_le 4 @ timing_data)" by (simp add: timing_frame)
  have "reader_work fin src (frame (timing_header i, u32_le 0 @ u32_le 4 @ timing_data)) (rx_one i) =
      (Err (Io ''receiving AMS/TCP header'' fin),
       \<lparr>rx_pending = Map.empty, rx_settled = [(i, Ok (timing_header i, u32_le 0 @ u32_le 4 @ timing_data))], rx_notifs = []\<rparr>)"
    using reader_work_reply [OF wf, of "rx_one i" fin "[]"] by (simp add: timing_header_def rx_one_def reader_work_end)
  then show ?thesis using assms True by (simp add: sim_reader_def reader_waits_def answers_to_def)
next
  case False
  let ?f = "frame (timing_header i, u32_le 0 @ u32_le 4 @ timing_data)"
  have "recv_packet fin src (?f @ []) =
      plift (classify_packet src 44 (ads_header_bytes (timing_header i)) (timing_header i) (u32_le 0 @ u32_le 4 @ timing_data)) []"
    by (subst recv_packet_classified) (simp_all add: timing_header_def)
  also have "\<dots> = Ok (Skipped, [])"
    using False by (cases src) (auto simp: classify_packet_def header_prefix plift_def timing_header_def Let_def)
  finally have "reader_work fin src ?f (rx_one i) = (Err (Io ''receiving AMS/TCP header'' fin), rx_one i)"
    by (subst reader_work.simps) (simp add: dispatch_def reader_work_end)
  then show ?thesis using assms False by (simp add: sim_reader_def reader_waits_def answers_to_def rx_one_def)
qed

lemma timing_net_read:
  assumes "length (concat ws) = 12"
  shows "timing_net fin idle [] (request_bytes cl cmd target ws) =
    (Sent (if source cl = AmsAddr (AmsNetId 127 0 0 1 1 1) 0
           then RecvReply (timing_header (invoke_id cl)) (u32_le 0 @ u32_le 4 @ timing_data)
           else case idle of None \<Rightarrow> RecvTimeout | Some e \<Rightarrow> RecvErr e), [])"
proof -
  let ?req = "request_bytes cl cmd target ws" and ?h = "req_header cl cmd target 12"
  have fits: "fits ws" using assms by simp
  have req: "?req = ads_header_bytes ?h @ concat ws" using request_bytes_req_header [of cl cmd target ws] assms by simp
  then have len: "length ?req = 50" using assms by simp
  have h: "hdr_invoke_id ?h = invoke_id cl" "AmsAddr (src_netid ?h) (src_port ?h) = source cl"
    by (cases "source cl"; simp add: req_header_def)+
  have "take 4 (drop 34 ?req) = u32_le (invoke_id cl)" unfolding req header_invoke_id h(1) ..
  then have "timing_server ?req = (frame (timing_header (invoke_id cl), u32_le 0 @ u32_le 4 @ timing_data), [])"
    using timing_server_one [OF len] timing_reply_frame by simp
  moreover have "ads_header_read (take 38 ?req) = Some ?h" using sim_request(1) [OF fits, of cl cmd target] assms by simp
  ultimately show ?thesis
    using timing_reader [OF refl, of "invoke_id cl" fin "source cl"] by (simp add: timing_net_def h Let_def split: option.split)
qed

abbreviation timing_device :: ams_addr where
  "timing_device \<equiv> AmsAddr (AmsNetId 1 2 3 4 5 6) 851"

lemma timing_dev_read:
  assumes "length data = 4"
  shows "source cl = AmsAddr (AmsNetId 127 0 0 1 1 1) 0 \<Longrightarrow>
      dev_read (communicate (timing_net fin idle)) timing_device 0x4020 0 data (cl, []) = (Ok (4, timing_data), (next_request cl, []))"
    and "source cl \<noteq> AmsAddr (AmsNetId 127 0 0 1 1 1) 0 \<Longrightarrow>
      \<exists>e. dev_read (communicate (timing_net fin idle)) target 0x4020 0 data (cl, []) = (Err e, (next_request cl, []))"
proof -
  let ?b = "index_length_bytes \<lparr>index_group = 0x4020, index_offset = 0, il_length = 4\<rparr>"
  have net: "timing_net fin idle [] (request_bytes cl Read target [?b]) =
    (Sent (if source cl = AmsAddr (AmsNetId 127 0 0 1 1 1) 0
           then RecvReply (timing_header (invoke_id cl)) (u32_le 0 @ u32_le 4 @ timing_data)
           else case idle of None \<Rightarrow> RecvTimeout | Some e \<Rightarrow> RecvErr e), [])" for target
    by (rule timing_net_read) simp
  have len: "try_u32 (length data) = Ok 4" using assms by (simp add: try_u32_def)
  show "dev_read (communicate (timing_net fin idle)) timing_device 0x4020 0 data (cl, []) = (Ok (4, timing_data), (next_request cl, []))"
    if "source cl = AmsAddr (AmsNetId 127 0 0 1 1 1) 0"
  proof -
    have "reply_to Read timing_device (invoke_id cl) (timing_header (invoke_id cl))"
      by (simp add: reply_to_def timing_header_def)
    then have "communicate (timing_net fin idle) Read timing_device [?b] [u32_le 0, data] (cl, []) =
        (Ok (8, scatter [u32_le 0, data] (u32_le 4 @ timing_data)), (next_request cl, []))"
      using communicate_reply [of "[?b]" "timing_net fin idle" "[]" cl Read timing_device "timing_header (invoke_id cl)"
          "u32_le 4 @ timing_data" "[]" "[u32_le 0, data]"] net that by (simp add: room_for_def)
    moreover have "scatter [u32_le 0, data] (u32_le 4 @ timing_data) = [u32_le 4, timing_data]"
      using scatter_exact [of "[u32_le 4, timing_data]" "[u32_le 0, data]"] assms by simp
    ultimately show ?thesis by (simp add: dev_read_def ibind_def len)
  qed
  show "\<exists>e. dev_read (communicate (timing_net fin idle)) target 0x4020 0 data (cl, []) = (Err e, (next_request cl, []))"
    if "source cl \<noteq> AmsAddr (AmsNetId 127 0 0 1 1 1) 0"
    using net [of target] that
    by (cases idle) (simp_all add: dev_read_def ibind_def len communicate_fits)
qed

lemma client_new_auto:
  assumes "client_new os t Auto = Ok cl"
  shows "port (source cl) = 58913"
proof -
  have "port (auto_source ip) = 58913" for ip by (cases ip) (simp_all add: auto_source_def)
  moreover from assms obtain addrs where "ctx (os_resolve os) ''converting address to SocketAddr'' = Ok addrs"
    by (auto simp: client_new_def)
  ultimately show ?thesis using assms by (cases addrs) (auto simp: client_new_def client_source_def)
qed

text \<open>
  C30. The two timing programs do not fit together: the canned reply is addressed to AMS port 0, and
  the reader thread passes over packets that are not meant for its own port, which for an
  automatic source is 58913. So the measured loop of \<open>with_client\<close> panics at its first read, for every
  host environment and whichever error the waiting call gets; a client with port 0 would be served.
\<close>

theorem timing_client_panics:
  "fst (with_client os (timing_net fin idle) []) = Panic \<and>
   (source cl = AmsAddr (AmsNetId 127 0 0 1 1 1) 0 \<longrightarrow>
    dev_read (communicate (timing_net fin idle)) timing_device 0x4020 0 [0, 0, 0, 0] (cl, []) =
      (Ok (4, timing_data), (next_request cl, [])))"
proof
  show "fst (with_client os (timing_net fin idle) []) = Panic"
  proof (cases "client_new os (timeouts_new (10 ^ 9)) Auto")
    case (Ok cl)
    have src: "source cl \<noteq> AmsAddr (AmsNetId 127 0 0 1 1 1) 0"
      using client_new_auto [OF Ok] by auto
    obtain e where "dev_read (communicate (timing_net fin idle)) (device_addr cl timing_device) 0x4020 0 (replicate 4 0) (cl, []) =
        (Err e, (next_request cl, []))"
      using timing_dev_read(2) [OF length_replicate src] by blast
    moreover have "(5000 :: nat) = Suc 4999" by simp
    ultimately show ?thesis
      by (simp only: with_client_def with_new_client_def Ok timing_loop.simps) (simp add: ibind_def unwrapped_def split_beta)
  qed (simp_all add: with_client_def with_new_client_def)
qed (use timing_dev_read(1) in auto)

theorem timing_client_panics_witness:
  "fst (with_client (demo_os\<lparr>os_local_ip := Ok (V4 127 0 0 1)\<rparr>) (timing_net (io_of_kind UnexpectedEof) None) []) = Panic \<and>
   fst (dev_read (communicate (timing_net (io_of_kind UnexpectedEof) None)) timing_device 0x4020 0 [0, 0, 0, 0]
     (demo_client\<lparr>source := AmsAddr (AmsNetId 127 0 0 1 1 1) 0\<rparr>, [])) = Ok (4, timing_data)"
  using timing_client_panics [of "demo_os\<lparr>os_local_ip := Ok (V4 127 0 0 1)\<rparr>" "io_of_kind UnexpectedEof" None
      "demo_client\<lparr>source := AmsAddr (AmsNetId 127 0 0 1 1 1) 0\<rparr>"] by simp

text \<open>The plain loop of \<open>dumb\<close> is served: every turn reads one whole reply with the invoke ID it sent.\<close>

lemma dumb_served: "dumb k [] [] = Some (replicate k (timing_reply timing_request))"
proof -
  have "length timing_request = 50" "length (timing_reply timing_request) = 50"
    by (simp_all add: timing_request_def timing_reply_def timing_response_def)
  then show ?thesis by (induction k) (simp_all add: timing_server_one)
qed

section \<open>Values and notifications\<close>

lemma motor_roundtrip: "length (motor_bytes m) = 9" "motor_from_bytes (motor_bytes m) = m"
  by (simp_all add: motor_bytes_def motor_from_bytes_def nth_append)

text \<open>The structure is printed, and the handle is released, also when reading it fails.\<close>

lemma values_body_reads:
  assumes "handle_new comm (device_addr cl (AmsAddr PLC_EXAMPLE 851)) (bytes_of ''MY_SYMBOL'') s = (Ok h, s1)"
    and "handle_read comm (device_addr cl (AmsAddr PLC_EXAMPLE 851)) h (replicate 9 0) s1 = (r, s2)"
  shows "values_body f32_text comm cl s =
    (case r of Ok b \<Rightarrow> Ok (motor_text f32_text (motor_from_bytes b)) | _ \<Rightarrow> Panic,
     snd (handle_drop comm (device_addr cl (AmsAddr PLC_EXAMPLE 851)) h s2))"
  using assms
  by (cases r) (simp_all add: values_body_def ibind_def unwrapped_def Let_def handle_read_value_def read_value_def handle_read_def)

text \<open>Against the simulated device the program sets both notifications up and prints their handles.\<close>

lemma notify_setup_sim:
  assumes "sim_ok sv"
  shows "\<exists>s'. notify_setup (sim_comm fin bad) cl (cl, (sv, ns)) = (Ok (println (bytes_of ''132 132'')), s') \<and>
    sv_notif (fst (snd s')) = Some (0, 4) \<and> sim_ok (fst (snd s'))"
proof -
  let ?sv1 = "sv\<lparr>sv_notif := Some (4, 4)\<rparr>" and ?sv2 = "sv\<lparr>sv_notif := Some (0, 4)\<rparr>"
  let ?a1 = "notify_attributes ServerCycle" and ?a2 = "notify_attributes ServerOnChange"
  have at: "at_length (notify_attributes m) = 4" "as_millis (at_max_delay (notify_attributes m)) < 4294967296"
    "as_millis (at_cycle_time (notify_attributes m)) < 4294967296" for m
    by (simp_all add: notify_attributes_def as_millis_def)
  obtain cl1 ns1 where 1: "add_notification (sim_comm fin bad) (device_addr cl (AmsAddr PLC_EXAMPLE 851)) PLC_RW_M 4 ?a1 (cl, (sv, ns)) =
      (Ok 132, (cl1, (?sv1, ns1)))"
    using sim_add_notification(2) [OF assms, of 4 ?a1 fin bad "device_addr cl (AmsAddr PLC_EXAMPLE 851)" cl ns] at by auto
  have ok: "sim_ok ?sv1" using sim_add_notification(1) [OF assms, of 4 ?a1] at by simp
  obtain cl2 ns2 where 2: "add_notification (sim_comm fin bad) (device_addr cl (AmsAddr PLC_EXAMPLE 852)) PLC_RW_M 0 ?a2 (cl1, (?sv1, ns1)) =
      (Ok 132, (cl2, (?sv2, ns2)))"
    using sim_add_notification(2) [OF ok, of 0 ?a2 fin bad "device_addr cl (AmsAddr PLC_EXAMPLE 852)" cl1 ns1] at by auto
  have "sim_ok ?sv2" using sim_add_notification(1) [OF assms, of 0 ?a2] at by simp
  moreover have "show_nat 132 @ 32 # show_nat 132 = bytes_of ''132 132''"
    by (simp add: show_nat.simps bytes_of_def)
  ultimately show ?thesis
    using 1 2 by (simp add: notify_setup_def ibind_def unwrapped_def PLC_RW_M_def)
qed

end
