(* ===== verification/Ads_Direct.thy ===== *)
theory Ads_Direct
  imports Ads_Sim_Files
begin

text \<open>
  The simulated device called directly: the handler of a request gets the payload and its answer
  goes to the caller, with no frames, no invoke IDs and no reader thread in between, and the queue
  holds the samples of a notification instead of its bytes. What a program of client operations
  does on this abstract machine it does on the whole stack.
\<close>

section \<open>The abstract machine\<close>

text \<open>\<open>Panic\<close> stands for a course of which nothing is claimed: a panic of the device or an oversized answer.\<close>

type_synonym adev = "server \<times> sample list list"

definition arrivals :: "bool \<Rightarrow> server \<Rightarrow> sample list list" where
  "arrivals bad sv =
     (case sv_notif sv of
        None \<Rightarrow> []
      | Some (ofs, len) \<Rightarrow>
          if bad then [] else [[\<lparr>s_handle = 132, s_timestamp = NOTIF_STAMP, s_data = peek ofs len (sv_data sv)\<rparr>]])"

definition direct_reply :: "command \<Rightarrow> bytes list \<Rightarrow> sreply \<Rightarrow> (nat \<times> bytes list) res" where
  "direct_reply cmd bufs x =
     (let reply = fst x; err = snd x in
      if err \<noteq> 0 then ads_error (action cmd) err
      else if length reply < 4 then Panic
      else if le_u32 (take 4 reply) \<noteq> 0 then ads_error (action cmd) (le_u32 (take 4 reply))
      else if bufs = [] then Ok (0, [])
      else if length reply < length (hd bufs) + 4
        then Err (Reply (action cmd) ''got less data than expected'' (of_nat (length reply)))
      else Ok (length reply - 4, scatter bufs (drop 4 reply)))"

definition direct_comm :: "bool \<Rightarrow> adev comm" where
  "direct_comm bad cmd target ws rs = (\<lambda>(cl, (sv, q)).
     if \<not> fits ws then (Err Overflow, (cl\<lparr>invoke_id := invoke_id cl + 1\<rparr>, (sv, q)))
     else
       case handle_request sv (command_code cmd) (concat ws) of
         Ok (x, sv') \<Rightarrow>
           (if length (fst x) + 32 < 4294967296 \<and> cmd \<noteq> Notification then direct_reply cmd rs x else Panic,
            (next_request cl, (sv', q @ arrivals bad sv')))
       | _ \<Rightarrow> (Panic, (next_request cl, (sv, q))))"

section \<open>Refinement\<close>

definition sim_rel :: "sim conn \<Rightarrow> adev conn \<Rightarrow> bool" where
  "sim_rel s t \<longleftrightarrow> fst s = fst t \<and> fst (snd s) = fst (snd t) \<and> server_ok (fst (snd t)) \<and>
     list_all2 (\<lambda>n ss. rbind (notification_samples n) samples_collect = Ok ss) (snd (snd s)) (snd (snd t))"

text \<open>A program of the abstract machine that does not get stuck is followed step by step.\<close>

definition refines :: "(sim conn, 'a, 'e) io \<Rightarrow> (adev conn, 'a, 'e) io \<Rightarrow> bool" where
  "refines m f \<longleftrightarrow> (\<forall>s t. sim_rel s t \<longrightarrow> fst (f t) \<noteq> Panic \<longrightarrow>
     fst (m s) = fst (f t) \<and> sim_rel (snd (m s)) (snd (f t)))"

named_theorems refine

lemma refinesD:
  "refines m f \<Longrightarrow> sim_rel s t \<Longrightarrow> fst (f t) \<noteq> Panic \<Longrightarrow> fst (m s) = fst (f t) \<and> sim_rel (snd (m s)) (snd (f t))"
  unfolding refines_def by blast

lemma refinesI:
  assumes "\<And>s t r t'. sim_rel s t \<Longrightarrow> f t = (r, t') \<Longrightarrow> r \<noteq> Panic \<Longrightarrow> \<exists>s'. m s = (r, s') \<and> sim_rel s' t'"
  shows "refines m f"
  unfolding refines_def
proof (intro allI impI)
  fix s t
  assume "sim_rel s t" and "fst (f t) \<noteq> Panic"
  from assms [OF this(1) prod.collapse [symmetric] this(2)]
  obtain s' where "m s = (fst (f t), s')" "sim_rel s' (snd (f t))" by blast
  then show "fst (m s) = fst (f t) \<and> sim_rel (snd (m s)) (snd (f t))" by simp
qed

lemma refinesE:
  assumes "refines m f" and "sim_rel s t" and "f t = (r, t')" and "r \<noteq> Panic"
  obtains s' where "m s = (r, s')" and "sim_rel s' t'"
  using refinesD [OF assms(1,2)] assms(3,4) by (metis fst_conv snd_conv surj_pair)

lemma refines_ret [refine]: "refines (iret x) (iret x)"
  by (simp add: refines_def)

lemma refines_lift [refine]: "refines (ilift r) (ilift r)"
  by (simp add: refines_def)

lemma refines_bind [refine]:
  assumes "refines m f" and "\<And>x. refines (k x) (g x)"
  shows "refines (ibind m k) (ibind f g)"
proof (rule refinesI)
  fix s t r t'
  assume rel: "sim_rel s t" and fg: "ibind f g t = (r, t')" and r: "r \<noteq> Panic"
  obtain x t1 where f: "f t = (x, t1)" by (metis surj_pair)
  with fg r have "x \<noteq> Panic" by (auto simp: ibind_def)
  with refinesE [OF assms(1) rel f] obtain s1 where m: "m s = (x, s1)" and rel1: "sim_rel s1 t1" by blast
  show "\<exists>s'. ibind m k s = (r, s') \<and> sim_rel s' t'"
  proof (cases x)
    case (Ok y)
    then have "g y t1 = (r, t')" "ibind m k s = k y s1" using fg f m by (simp_all add: ibind_def)
    with refinesE [OF assms(2) rel1 _ r] show ?thesis by metis
  qed (use fg f m r rel1 in \<open>auto simp: ibind_def\<close>)
qed

lemma refines_catch [refine]:
  assumes "refines m f" and "\<And>x. refines (k x) (g x)"
  shows "refines (icatch m k) (icatch f g)"
proof (rule refinesI)
  fix s t r t'
  assume rel: "sim_rel s t" and fg: "icatch f g t = (r, t')" and r: "r \<noteq> Panic"
  obtain x t1 where f: "f t = (x, t1)" by (metis surj_pair)
  with fg r have x: "x \<noteq> Panic" by (auto simp: icatch_def)
  with refinesE [OF assms(1) rel f] obtain s1 where m: "m s = (x, s1)" and rel1: "sim_rel s1 t1" by blast
  have "g x t1 = (r, t')" "icatch m k s = k x s1" using fg f m x by (cases x; simp add: icatch_def)+
  with refinesE [OF assms(2) rel1 _ r] show "\<exists>s'. icatch m k s = (r, s') \<and> sim_rel s' t'" by metis
qed

lemma refines_map_err [refine]:
  assumes "refines m f"
  shows "refines (map_err h m) (map_err h f)"
proof (rule refinesI)
  fix s t r t'
  assume rel: "sim_rel s t" and fg: "map_err h f t = (r, t')" and r: "r \<noteq> Panic"
  obtain x t1 where f: "f t = (x, t1)" by (metis surj_pair)
  with fg r have x: "x \<noteq> Panic" by (auto simp: map_err_def)
  with refinesE [OF assms rel f] obtain s1 where m: "m s = (x, s1)" and rel1: "sim_rel s1 t1" by blast
  with fg f x show "\<exists>s'. map_err h m s = (r, s') \<and> sim_rel s' t'" by (cases x) (auto simp: map_err_def)
qed

lemma refines_handles [refine]:
  "refines (insert_handle addr h) (insert_handle addr h)" "refines (remove_handle addr h) (remove_handle addr h)"
  by (auto simp: refines_def sim_rel_def insert_handle_def remove_handle_def)

lemma arrivals_samples:
  "server_ok sv \<Longrightarrow>
    list_all2 (\<lambda>n ss. rbind (notification_samples n) samples_collect = Ok ss)
      (sim_notifs (opts_default\<lparr>so_bad_notif := bad\<rparr>) sv h) (arrivals bad sv)"
  using sim_notification_samples [of _ _ sv h]
  by (auto simp: arrivals_def sim_notifs_def server_ok_defs split: option.split)

text \<open>The check of a reply, when it answers the request.\<close>

lemma check_reply_direct:
  assumes "src_netid h = netid target" and "src_port h = port target" and "hdr_command h = command_code cmd"
    and "state_flags h = 5" and "hdr_invoke_id h = i"
  shows "check_reply cmd target i bufs h reply = direct_reply cmd bufs (reply, error_code h)"
proof (cases "error_code h = 0")
  case True
  then have "reply_to cmd target i h" using assms by (simp add: reply_to_def)
  with True show ?thesis by (simp add: check_reply_reply_to direct_reply_def Let_def)
next
  case False
  with assms show ?thesis by (simp add: check_reply_def direct_reply_def Let_def del: command_code.simps)
qed

lemma sim_comm_direct:
  assumes "fits ws" and "server_ok sv'" and "length (fst x) + 32 < 4294967296" and "cmd \<noteq> Notification"
    and "handle_request sv (command_code cmd) (concat ws) = Ok (x, sv')"
  shows "sim_comm fin bad cmd target ws rs (cl, (sv, ns)) =
    (direct_reply cmd rs x,
     (next_request cl, (sv', ns @ sim_notifs (opts_default\<lparr>so_bad_notif := bad\<rparr>) sv' (req_header cl cmd target (length (concat ws))))))"
proof -
  let ?opts = "opts_default\<lparr>so_bad_notif := bad\<rparr>" and ?h = "req_header cl cmd target (length (concat ws))"
  obtain reply err where x: "x = (reply, err)" by fastforce
  let ?rh = "reply_header ?opts ?h (length reply) err"
  have nok: "notif_ok sv'" using assms(2) by (simp add: server_ok_defs)
  have "check_reply cmd target (invoke_id cl) rs ?rh reply = direct_reply cmd rs (reply, error_code ?rh)"
    using sim_opts [of bad] by (intro check_reply_direct) (simp_all add: reply_header_def req_header_def opts_ok_def)
  moreover have "error_code ?rh = err" by (simp add: reply_header_def)
  ultimately show ?thesis
    using sim_net_answer [OF assms(1) sim_opts nok _ assms(4), where fin = fin and ns = ns and cl = cl and target = target] assms(3,5)
    by (simp add: x communicate_fits [OF assms(1)] del: command_code.simps)
qed

lemma refines_comm [refine]: "refines (sim_comm fin bad cmd target ws rs) (direct_comm bad cmd target ws rs)"
proof (rule refinesI)
  fix s t r t'
  assume rel: "sim_rel s t" and d: "direct_comm bad cmd target ws rs t = (r, t')" and r: "r \<noteq> Panic"
  obtain cl sv ns where s: "s = (cl, (sv, ns))" by (metis prod_cases3)
  obtain q where t: "t = (cl, (sv, q))" using rel by (cases t) (auto simp: s sim_rel_def)
  have ok: "server_ok sv" using rel by (simp add: s t sim_rel_def)
  show "\<exists>s'. sim_comm fin bad cmd target ws rs s = (r, s') \<and> sim_rel s' t'"
  proof (cases "fits ws")
    case False
    then show ?thesis using d rel by (auto simp: s t direct_comm_def communicate_too_long sim_rel_def)
  next
    case True
    with d r obtain x sv' where h: "handle_request sv (command_code cmd) (concat ws) = Ok (x, sv')"
      and small: "length (fst x) + 32 < 4294967296" "cmd \<noteq> Notification" and res: "r = direct_reply cmd rs x"
        "t' = (next_request cl, (sv', q @ arrivals bad sv'))"
      by (auto simp: t direct_comm_def split: outcome.splits if_splits)
    have ok': "server_ok sv'" using handle_request_keeps [OF h ok] .
    show ?thesis
      using sim_comm_direct [OF True ok' small h, of fin bad target rs cl ns] rel arrivals_samples [OF ok', of bad] ok'
      by (simp add: s t res sim_rel_def list_all2_appendI)
  qed
qed

text \<open>The shapes an operation is built from.\<close>

lemma refines_cases [refine]:
  "(\<And>a b. x = (a, b) \<Longrightarrow> refines (k a b) (g a b)) \<Longrightarrow> refines (case x of (a, b) \<Rightarrow> k a b) (case x of (a, b) \<Rightarrow> g a b)"
  "(b \<Longrightarrow> refines m1 f1) \<Longrightarrow> (\<not> b \<Longrightarrow> refines m2 f2) \<Longrightarrow> refines (if b then m1 else m2) (if b then f1 else f2)"
  "refines (kl y) (gl y) \<Longrightarrow> refines (Let y kl) (Let y gl)"
  by (simp_all split: prod.split)

lemma refines_outcome [refine]:
  "(\<And>x. r = Ok x \<Longrightarrow> refines (k x) (g x)) \<Longrightarrow> (\<And>e. r = Err e \<Longrightarrow> refines (kl e) (gl e)) \<Longrightarrow> (r = Panic \<Longrightarrow> refines m f) \<Longrightarrow>
     refines (case r of Ok x \<Rightarrow> k x | Err e \<Rightarrow> kl e | Panic \<Rightarrow> m) (case r of Ok x \<Rightarrow> g x | Err e \<Rightarrow> gl e | Panic \<Rightarrow> f)"
  by (cases r) simp_all

section \<open>The operations\<close>

lemma refines_single [refine]:
  "refines (get_info (sim_comm fin bad) addr) (get_info (direct_comm bad) addr)"
  "refines (get_state (sim_comm fin bad) addr) (get_state (direct_comm bad) addr)"
  "refines (write_control (sim_comm fin bad) addr st x) (write_control (direct_comm bad) addr st x)"
  "refines (dev_read (sim_comm fin bad) addr grp ofs buf) (dev_read (direct_comm bad) addr grp ofs buf)"
  "refines (dev_write (sim_comm fin bad) addr grp ofs d) (dev_write (direct_comm bad) addr grp ofs d)"
  "refines (write_read (sim_comm fin bad) addr grp ofs d buf) (write_read (direct_comm bad) addr grp ofs d buf)"
  unfolding get_info_def get_state_def write_control_def dev_read_def dev_write_def write_read_def
  by (intro refine)+

lemma refines_exact [refine]:
  "refines (read_exact (sim_comm fin bad) addr grp ofs buf) (read_exact (direct_comm bad) addr grp ofs buf)"
  "refines (write_read_exact (sim_comm fin bad) addr grp ofs d buf) (write_read_exact (direct_comm bad) addr grp ofs d buf)"
  unfolding read_exact_def write_read_exact_def by (intro refine)+

lemma refines_values [refine]:
  "refines (read_value dflt of_bytes (sim_comm fin bad) addr grp ofs) (read_value dflt of_bytes (direct_comm bad) addr grp ofs)"
  "refines (write_value as_bytes (sim_comm fin bad) addr grp ofs v) (write_value as_bytes (direct_comm bad) addr grp ofs v)"
  unfolding read_value_def write_value_def by (intro refine)+

lemma refines_notifications [refine]:
  "refines (add_notification (sim_comm fin bad) addr grp ofs attr) (add_notification (direct_comm bad) addr grp ofs attr)"
  "refines (delete_notification (sim_comm fin bad) addr h) (delete_notification (direct_comm bad) addr h)"
  unfolding add_notification_def delete_notification_def by (intro refine)+

lemma refines_handles_multi [refine]:
  "refines (insert_handles addr rs) (insert_handles addr rs)"
  "refines (remove_handles addr ds) (remove_handles addr ds)"
proof -
  show "refines (insert_handles addr rs) (insert_handles addr rs)"
    by (induction rs) (simp_all only: insert_handles.simps, (intro refine | assumption)+)
  show "refines (remove_handles addr ds) (remove_handles addr ds)"
    by (induction ds) (simp_all only: remove_handles.simps, (intro refine | assumption)+)
qed

lemma refines_multi [refine]:
  "refines (read_multi (sim_comm fin bad) addr rs) (read_multi (direct_comm bad) addr rs)"
  "refines (write_multi (sim_comm fin bad) addr wrs) (write_multi (direct_comm bad) addr wrs)"
  "refines (write_read_multi (sim_comm fin bad) addr wrrs) (write_read_multi (direct_comm bad) addr wrrs)"
  "refines (add_notification_multi (sim_comm fin bad) addr ars) (add_notification_multi (direct_comm bad) addr ars)"
  "refines (delete_notification_multi (sim_comm fin bad) addr drs) (delete_notification_multi (direct_comm bad) addr drs)"
  unfolding read_multi_def write_multi_def write_read_multi_def add_notification_multi_def delete_notification_multi_def
  by (intro refine)+

lemma refines_file [refine]:
  "refines (file_open (sim_comm fin bad) addr name flags) (file_open (direct_comm bad) addr name flags)"
  "refines (file_delete (sim_comm fin bad) addr name flags) (file_delete (direct_comm bad) addr name flags)"
  "refines (file_drop (sim_comm fin bad) addr hdl) (file_drop (direct_comm bad) addr hdl)"
  "refines (file_write io_text (sim_comm fin bad) addr hdl d) (file_write io_text (direct_comm bad) addr hdl d)"
  "refines (file_read io_text (sim_comm fin bad) addr hdl d) (file_read io_text (direct_comm bad) addr hdl d)"
  unfolding file_open_def file_delete_def file_drop_def file_write_def file_read_def by (intro refine)+

lemma refines_symbol [refine]:
  "refines (handle_new (sim_comm fin bad) addr name) (handle_new (direct_comm bad) addr name)"
  "refines (handle_read (sim_comm fin bad) addr hdl buf) (handle_read (direct_comm bad) addr hdl buf)"
  "refines (handle_write (sim_comm fin bad) addr hdl d) (handle_write (direct_comm bad) addr hdl d)"
  "refines (handle_read_value dflt of_bytes (sim_comm fin bad) addr hdl) (handle_read_value dflt of_bytes (direct_comm bad) addr hdl)"
  "refines (handle_write_value as_bytes (sim_comm fin bad) addr hdl v) (handle_write_value as_bytes (direct_comm bad) addr hdl v)"
  "refines (handle_drop (sim_comm fin bad) addr hdl) (handle_drop (direct_comm bad) addr hdl)"
  unfolding handle_new_def handle_read_def handle_write_def handle_read_value_def handle_write_value_def handle_drop_def
  by (intro refine)+

lemma refines_at: "(\<And>cl. refines (m cl) (f cl)) \<Longrightarrow> refines (\<lambda>s. m (fst s) s) (\<lambda>s. f (fst s) s)"
proof (rule refinesI)
  fix s t r t'
  assume r: "\<And>cl. refines (m cl) (f cl)" "sim_rel s t" "f (fst t) t = (r, t')" "r \<noteq> Panic"
  obtain s' where "m (fst t) s = (r, s')" "sim_rel s' t'" by (rule refinesE [OF r])
  moreover have "fst s = fst t" using r(2) by (simp add: sim_rel_def)
  ultimately show "\<exists>s'. m (fst s) s = (r, s') \<and> sim_rel s' t'" by auto
qed

lemma refines_drop_handles [refine]: "refines (drop_handles (sim_comm fin bad) ahs) (drop_handles (direct_comm bad) ahs)"
proof (induction ahs)
  case Nil
  show ?case unfolding drop_handles.simps by (rule refines_ret)
next
  case (Cons ah ahs)
  let ?m = "\<lambda>cl. icatch (delete_notification (sim_comm fin bad) (device_addr cl (fst ah)) (snd ah)) (\<lambda>_. drop_handles (sim_comm fin bad) ahs)"
  let ?f = "\<lambda>cl. icatch (delete_notification (direct_comm bad) (device_addr cl (fst ah)) (snd ah)) (\<lambda>_. drop_handles (direct_comm bad) ahs)"
  have "refines (?m cl) (?f cl)" for cl by (intro refine Cons)
  from refines_at [of ?m ?f, OF this] show ?case unfolding drop_handles.simps .
qed

lemma refines_client_drop [refine]: "refines (client_drop (sim_comm fin bad)) (client_drop (direct_comm bad))"
proof (rule refinesI)
  fix s t r t'
  assume rel: "sim_rel s t" and d: "client_drop (direct_comm bad) t = (r, t')" and r: "r \<noteq> Panic"
  obtain cl w v where s: "s = (cl, w)" and t: "t = (cl, v)" using rel by (cases s; cases t) (auto simp: sim_rel_def)
  let ?cl = "cl\<lparr>notif_handles := {}\<rparr>" and ?hs = "sorted_list_of_set (notif_handles cl)"
  let ?last = "\<lambda>_ :: unit. iret (if source_port_opened cl then Some (close_port_msg (source cl)) else None)"
  have eq: "client_drop comm (cl, x) = ibind (drop_handles comm ?hs) ?last (?cl, x)" for comm :: "'x comm" and x
    by (simp add: client_drop_def iret_def [abs_def])
  have rel': "sim_rel (?cl, w) (?cl, v)" using rel by (simp add: s t sim_rel_def)
  have m: "refines (ibind (drop_handles (sim_comm fin bad) ?hs) ?last) (ibind (drop_handles (direct_comm bad) ?hs) ?last)"
    by (intro refine)
  have run: "ibind (drop_handles (direct_comm bad) ?hs) ?last (?cl, v) = (r, t')" using d unfolding t eq .
  obtain s' where "ibind (drop_handles (sim_comm fin bad) ?hs) ?last (?cl, w) = (r, s')" "sim_rel s' t'"
    by (rule refinesE [OF m rel' run r])
  then show "\<exists>s'. client_drop (sim_comm fin bad) s = (r, s') \<and> sim_rel s' t'" unfolding s eq by blast
qed

text \<open>The direct device is a transport like the connection.\<close>

interpretation direct: transport "direct_comm bad" for bad
proof unfold_locales
  fix cmd target ws rs n rs' and s s' :: "adev conn"
  assume "direct_comm bad cmd target ws rs s = (Ok (n, rs'), s')"
  then obtain x where r: "direct_reply cmd rs x = Ok (n, rs')"
    by (cases s) (auto simp: direct_comm_def split: if_splits outcome.splits)
  then show "\<exists>data. room_for rs data \<and> rs' = scatter rs data \<and> n = (if rs = [] then 0 else length data)"
    by (intro exI [of _ "drop 4 (fst x)"])
      (auto simp: direct_reply_def room_for_def Let_def ads_error_map_of split: if_splits)
next
  fix cmd target ws rs r and s s' :: "adev conn"
  assume "direct_comm bad cmd target ws rs s = (r, s')"
  then show "notif_handles (fst s') = notif_handles (fst s) \<and> source (fst s') = source (fst s) \<and>
      source_port_opened (fst s') = source_port_opened (fst s)"
    by (cases s) (auto simp: direct_comm_def next_request_def split: if_splits outcome.splits)
qed

section \<open>Sessions\<close>

text \<open>The outcome of an operation as a value; a panic is not one.\<close>

definition attempt :: "('s, 'a, 'e) io \<Rightarrow> ('s, ('a, 'e) outcome, 'f) io" where
  "attempt m s = (case m s of (r, s') \<Rightarrow> if r = Panic then (Panic, s') else (Ok r, s'))"

lemma refines_attempt [refine]:
  assumes "refines m f"
  shows "refines (attempt m) (attempt f)"
proof (rule refinesI, goal_cases)
  case (1 s t r t')
  obtain x t1 where f: "f t = (x, t1)" by (metis surj_pair)
  with 1 have x: "x \<noteq> Panic" "r = Ok x" "t1 = t'" by (auto simp: attempt_def split: if_splits)
  obtain s' where "m s = (x, s')" "sim_rel s' t1" by (rule refinesE [OF assms 1(1) f x(1)])
  with x show ?case by (simp add: attempt_def)
qed

text \<open>Any requests one after another, each with its payload and the buffers for its answer.\<close>

primrec run_requests ::
  "'w comm \<Rightarrow> (command \<times> ams_addr \<times> bytes list \<times> bytes list) list \<Rightarrow> ('w, (nat \<times> bytes list) res list) op" where
  "run_requests comm [] = iret []"
| "run_requests comm (x # xs) =
     (case x of (cmd, target, ws, rs) \<Rightarrow>
        ibind (attempt (comm cmd target ws rs)) (\<lambda>r. ibind (run_requests comm xs) (\<lambda>rs'. iret (r # rs'))))"

lemma refines_requests [refine]: "refines (run_requests (sim_comm fin bad) xs) (run_requests (direct_comm bad) xs)"
proof (induction xs)
  case Nil
  show ?case unfolding run_requests.simps by (rule refines_ret)
next
  case (Cons x xs)
  show ?case unfolding run_requests.simps by (intro refine Cons)
qed

text \<open>
  C4. Client, frames, invoke IDs, reader thread and notification queue are transparent: for every sequence of
  requests, with any payload and on any state of the simulated device that meets its invariant, the client
  gets exactly the results that direct calls of the handlers give, one for one, errors included; the device
  is left in the same state, and the queued notifications decode to the samples of the direct run.
  The direct run has to reach its end: no handler panics and every answer fits a frame.
\<close>

theorem sim_session_is_direct:
  assumes "server_ok sv" and "run_requests (direct_comm bad) xs (cl, (sv, [])) = (Ok rs, (cl', (sv', q)))"
  shows "\<exists>ns. run_requests (sim_comm fin bad) xs (cl, (sv, [])) = (Ok rs, (cl', (sv', ns))) \<and>
    map (\<lambda>n. rbind (notification_samples n) samples_collect) ns = map Ok q"
proof -
  have rel: "sim_rel (cl, (sv, [])) (cl, (sv, []))" using assms(1) by (simp add: sim_rel_def)
  obtain s' where s': "run_requests (sim_comm fin bad) xs (cl, (sv, [])) = (Ok rs, s')" "sim_rel s' (cl', (sv', q))"
    by (rule refinesE [OF refines_requests rel assms(2)]) simp
  then obtain ns where "s' = (cl', (sv', ns))" by (cases s') (auto simp: sim_rel_def)
  moreover have "map (\<lambda>n. rbind (notification_samples n) samples_collect) ns = map Ok q"
    if "list_all2 (\<lambda>n ss. rbind (notification_samples n) samples_collect = Ok ss) ns q"
    using that by (induction rule: list_all2_induct) simp_all
  ultimately show ?thesis using s' by (auto simp: sim_rel_def simp del: rbind_eq_Ok)
qed

theorem sim_session_is_direct_witness:
  "\<exists>ns. run_requests (sim_comm (io_of_kind UnexpectedEof) False)
      [(WriteControl, demo_addr, [write_control_bytes \<lparr>wc_ads_state = 15, wc_dev_state = 7, wc_data_length = 0\<rparr>], []),
       (ReadState, demo_addr, [], [[0, 0, 0, 0]])] (demo_client, (server_init, [])) =
    (Ok [Ok (0, []), Ok (4, [u16_le 15 @ u16_le 7])],
     (next_request (next_request demo_client), (server_init\<lparr>sv_state := (Config, 7)\<rparr>, ns))) \<and>
    map (\<lambda>n. rbind (notification_samples n) samples_collect) ns = map Ok []"
proof -
  have "run_requests (direct_comm False)
      [(WriteControl, demo_addr, [write_control_bytes \<lparr>wc_ads_state = 15, wc_dev_state = 7, wc_data_length = 0\<rparr>], []),
       (ReadState, demo_addr, [], [[0, 0, 0, 0]])] (demo_client, (server_init, [])) =
    (Ok [Ok (0, []), Ok (4, [u16_le 15 @ u16_le 7])],
     (next_request (next_request demo_client), (server_init\<lparr>sv_state := (Config, 7)\<rparr>, [])))"
    by (simp add: ibind_def attempt_def direct_comm_def handle_request_def do_write_control_def do_read_state_def
        write_control_bytes_def direct_reply_def ads_state_try_from_def arrivals_def server_init_def Let_def)
  moreover have "server_ok server_init" by (simp add: server_ok_defs server_init_def)
  ultimately show ?thesis by (intro sim_session_is_direct)
qed

section \<open>Notifications in a session\<close>

text \<open>
  The states of the device after each of the requests, when it answers them all: each fits a frame, is
  handled without a panic, and its answer fits a frame and has room for a result or an error in its header.
\<close>

primrec device_states ::
  "server \<Rightarrow> (command \<times> ams_addr \<times> bytes list \<times> bytes list) list \<Rightarrow> server list option" where
  "device_states sv [] = Some []"
| "device_states sv (x # xs) =
     (case x of (cmd, target, ws, rs) \<Rightarrow>
        (case handle_request sv (command_code cmd) (concat ws) of
           Ok (reply, sv') \<Rightarrow>
             if fits ws \<and> cmd \<noteq> Notification \<and> length (fst reply) + 32 < 4294967296 \<and>
               (snd reply \<noteq> 0 \<or> 4 \<le> length (fst reply))
             then map_option (Cons sv') (device_states sv' xs) else None
         | _ \<Rightarrow> None))"

lemma direct_reply_answers: "snd x \<noteq> 0 \<or> 4 \<le> length (fst x) \<Longrightarrow> direct_reply cmd rs x \<noteq> Panic"
  by (auto simp: direct_reply_def Let_def)

lemma run_requests_notify:
  "device_states sv xs = Some svs \<Longrightarrow> server_ok sv \<Longrightarrow>
     \<exists>rs cl' sv' ns'. run_requests (sim_comm fin bad) xs (cl, (sv, ns)) = (Ok rs, (cl', (sv', ns @ ns'))) \<and>
       length rs = length xs \<and>
       list_all2 (\<lambda>n ss. rbind (notification_samples n) samples_collect = Ok ss) ns' (concat (map (arrivals bad) svs))"
proof (induction xs arbitrary: sv svs cl ns)
  case Nil
  then show ?case by simp
next
  case (Cons x xs)
  obtain cmd target ws rs where x: "x = (cmd, target, ws, rs)" by (metis prod_cases4)
  obtain reply sv1 svs1 where h: "handle_request sv (command_code cmd) (concat ws) = Ok (reply, sv1)"
    and f: "fits ws" "cmd \<noteq> Notification" "length (fst reply) + 32 < 4294967296" "snd reply \<noteq> 0 \<or> 4 \<le> length (fst reply)"
    and svs: "device_states sv1 xs = Some svs1" "svs = sv1 # svs1"
    using Cons.prems(1) by (auto simp: x split: outcome.splits prod.splits if_splits)
  have ok: "server_ok sv1" by (rule handle_request_keeps [OF h Cons.prems(2)])
  let ?n1 = "sim_notifs (opts_default\<lparr>so_bad_notif := bad\<rparr>) sv1 (req_header cl cmd target (length (concat ws)))"
  have one: "sim_comm fin bad cmd target ws rs (cl, (sv, ns)) =
      (direct_reply cmd rs reply, (next_request cl, (sv1, ns @ ?n1)))"
    by (rule sim_comm_direct [OF f(1) ok f(3,2) h])
  obtain rs' cl' sv' ns' where rest: "run_requests (sim_comm fin bad) xs (next_request cl, (sv1, ns @ ?n1)) =
      (Ok rs', (cl', (sv', (ns @ ?n1) @ ns')))" "length rs' = length xs"
    "list_all2 (\<lambda>n ss. rbind (notification_samples n) samples_collect = Ok ss) ns' (concat (map (arrivals bad) svs1))"
    using Cons.IH [OF svs(1) ok] by metis
  have "run_requests (sim_comm fin bad) (x # xs) (cl, (sv, ns)) =
      (Ok (direct_reply cmd rs reply # rs'), (cl', (sv', ns @ ?n1 @ ns')))"
    using one rest(1) direct_reply_answers [OF f(4), of cmd rs] by (simp add: x ibind_def attempt_def)
  moreover have "list_all2 (\<lambda>n ss. rbind (notification_samples n) samples_collect = Ok ss) (?n1 @ ns')
      (concat (map (arrivals bad) svs))"
    using list_all2_appendI [OF arrivals_samples [OF ok, of bad] rest(3)] by (simp add: svs(2))
  ultimately show ?case using rest(2) by (metis length_Cons)
qed

text \<open>
  C15. A notification on a range of the device's memory is set up. Then, whatever requests the device
  answers after that, in any number and order, one notification arrives for every request after
  which one is set up, and none for the others, such as those after its deletion: a
  message with the one sample that carries the handle, and the bytes of the range of that time as
  they are after the request.
\<close>

theorem sim_notifies:
  assumes "server_ok sv" and "ofs + at_length attr \<le> 1024"
    and "as_millis (at_max_delay attr) < 2 ^ 32" and "as_millis (at_cycle_time attr) < 2 ^ 32"
    and "device_states (sv\<lparr>sv_notif := Some (ofs, at_length attr)\<rparr>) xs = Some svs"
  shows "\<exists>s1 rs s2 ns'. add_notification (sim_comm fin False) addr PLC_RW_M (of_nat ofs) attr (cl, (sv, ns)) = (Ok 132, s1) \<and>
    (addr, 132) \<in> notif_handles (fst s1) \<and>
    run_requests (sim_comm fin False) xs s1 = (Ok rs, s2) \<and> length rs = length xs \<and>
    snd (snd s2) = snd (snd s1) @ ns' \<and>
    map (\<lambda>n. rbind (notification_samples n) samples_collect) ns' =
      [Ok [\<lparr>s_handle = 132, s_timestamp = NOTIF_STAMP, s_data = peek o' l (sv_data sv')\<rparr>].
        sv' \<leftarrow> svs, (o', l) \<leftarrow> (case sv_notif sv' of None \<Rightarrow> [] | Some p \<Rightarrow> [p])]"
proof -
  let ?sv1 = "sv\<lparr>sv_notif := Some (ofs, at_length attr)\<rparr>"
  have ok: "sim_ok sv" and ok1: "server_ok ?sv1" using assms(1,2) by (auto simp: server_ok_defs split: option.splits bool.splits)
  obtain cl1 ns1 where a: "add_notification (sim_comm fin False) addr PLC_RW_M (of_nat ofs) attr (cl, (sv, ns)) =
      (Ok 132, (cl1, (?sv1, ns1)))" "(addr, 132) \<in> notif_handles cl1"
    using sim_add_notification(2) [OF ok assms(2), of fin False addr cl ns] assms(3,4) by auto
  obtain rs cl2 sv2 ns' where r: "run_requests (sim_comm fin False) xs (cl1, (?sv1, ns1)) = (Ok rs, (cl2, (sv2, ns1 @ ns')))"
      "length rs = length xs"
    and l: "list_all2 (\<lambda>n ss. rbind (notification_samples n) samples_collect = Ok ss) ns' (concat (map (arrivals False) svs))"
    using run_requests_notify [OF assms(5) ok1, of fin False cl1 ns1] by blast
  from l have "map (\<lambda>n. rbind (notification_samples n) samples_collect) ns' = map Ok (concat (map (arrivals False) svs))"
    by (induction rule: list_all2_induct) simp_all
  also have "\<dots> = [Ok [\<lparr>s_handle = 132, s_timestamp = NOTIF_STAMP, s_data = peek o' l (sv_data sv')\<rparr>].
        sv' \<leftarrow> svs, (o', l) \<leftarrow> (case sv_notif sv' of None \<Rightarrow> [] | Some p \<Rightarrow> [p])]"
    by (induction svs) (auto simp: arrivals_def split: option.split)
  finally show ?thesis using a r by fastforce
qed

text \<open>A write into the range, then the deletion: one sample arrives.\<close>

theorem sim_notifies_witness:
  "\<exists>s1 rs s2 n. add_notification (sim_comm (io_of_kind UnexpectedEof) False) demo_addr PLC_RW_M 4
      \<lparr>at_length = 2, at_trans_mode = ServerOnChange, at_max_delay = 0, at_cycle_time = 0\<rparr>
      (demo_client, (server_init, [])) = (Ok 132, s1) \<and>
    run_requests (sim_comm (io_of_kind UnexpectedEof) False)
      [(Write, demo_addr, [index_length_bytes \<lparr>index_group = PLC_RW_M, index_offset = 5, il_length = 1\<rparr>, [7]], []),
       (DeleteNotification, demo_addr, [u32_le 132], [])] s1 = (Ok rs, s2) \<and>
    snd (snd s2) = snd (snd s1) @ [n] \<and>
    rbind (notification_samples n) samples_collect =
      Ok [\<lparr>s_handle = 132, s_timestamp = NOTIF_STAMP, s_data = [0, 7]\<rparr>]"
proof -
  let ?attr = "\<lparr>at_length = 2, at_trans_mode = ServerOnChange, at_max_delay = 0, at_cycle_time = 0\<rparr>"
  let ?xs = "[(Write, demo_addr, [index_length_bytes \<lparr>index_group = PLC_RW_M, index_offset = 5, il_length = 1\<rparr>, [7]], []),
       (DeleteNotification, demo_addr, [u32_le 132], [])]"
  let ?sv = "server_init\<lparr>sv_notif := Some (4, 2)\<rparr>"
  let ?sv1 = "?sv\<lparr>sv_data := poke 5 [7] (sv_data server_init)\<rparr>"
  have "do_write ?sv (index_length_bytes \<lparr>index_group = PLC_RW_M, index_offset = 5, il_length = 1\<rparr> @ [7]) = ((u32_le 0, 0), ?sv1)"
    using do_write_store [of "[7]" ?sv] device_place_cases(2) [OF device_place_simps(1) [of 5]]
    by (simp add: server_init_def)
  moreover have "do_del_notif ?sv1 (u32_le 132) = ((u32_le 0, 0), ?sv1\<lparr>sv_notif := None\<rparr>)"
    by (simp add: do_del_notif_def)
  ultimately have "device_states ?sv ?xs = Some [?sv1, ?sv1\<lparr>sv_notif := None\<rparr>]"
    by (simp add: handle_request_def)
  moreover have "peek 4 2 (sv_data ?sv1) = [0, 7]" by (simp add: peek_def poke_def server_init_def)
  moreover have "server_ok server_init" by (simp add: server_ok_defs server_init_def)
  ultimately show ?thesis
    using sim_notifies [of server_init 4 ?attr ?xs "[?sv1, ?sv1\<lparr>sv_notif := None\<rparr>]" "io_of_kind UnexpectedEof"
        demo_addr demo_client "[]"]
    by (auto simp: as_millis_def)
qed

end
