(* ===== verification/Ads_Direct_Ops.thy ===== *)
theory Ads_Direct_Ops
  imports Ads_Direct
begin

text \<open>
  The operations of the client on the device called directly: each is an equation between the
  outcome, the new state of the device, and the notification it causes.
\<close>

section \<open>What the device does\<close>

text \<open>An error code becomes the error of the operation.\<close>

definition coded :: "command \<Rightarrow> ('a, u32) outcome \<Rightarrow> 'a res" where
  "coded cmd r = (case r of Ok x \<Rightarrow> Ok x | Err e \<Rightarrow> ads_error (action cmd) e | Panic \<Rightarrow> Panic)"

lemma coded_simps [simp]:
  "coded cmd (Ok x) = Ok x" "coded cmd (Err e) = ads_error (action cmd) e" "coded cmd Panic = Panic"
  by (simp_all add: coded_def)

text \<open>The state after a request.\<close>

definition after :: "bool \<Rightarrow> client \<Rightarrow> server \<Rightarrow> sample list list \<Rightarrow> adev conn" where
  "after bad cl sv q = (next_request cl, (sv, q @ arrivals bad sv))"

lemma direct_comm_answer:
  assumes "fits ws" and "length (fst x) + 32 < 4294967296" and "cmd \<noteq> Notification"
    and "handle_request sv (command_code cmd) (concat ws) = Ok (x, sv')"
  shows "direct_comm bad cmd target ws rs (cl, (sv, q)) = (direct_reply cmd rs x, after bad cl sv' q)"
  using assms by (simp add: direct_comm_def after_def del: command_code.simps)

section \<open>Memory\<close>

lemma direct_dev_read:
  assumes "server_ok sv" and "length buf < 4294967296"
  shows "dev_read (direct_comm bad) addr grp ofs buf (cl, (sv, q)) =
    (coded Read (rmap (\<lambda>d. (length buf, d)) (device_fetch sv grp ofs (length buf))), after bad cl sv q)"
proof -
  let ?b = "index_length_bytes \<lparr>index_group = grp, index_offset = ofs, il_length = of_nat (length buf)\<rparr>"
  let ?x = "do_read sv ?b"
  have "length (fst ?x) \<le> 1032"
    using device_fetch_length [of sv grp ofs "length buf"] server_ok_length [OF assms(1)]
    by (auto simp: do_read_fetch [OF assms(2)] split: outcome.split)
  then have "direct_comm bad Read addr [?b] [u32_le 0, buf] (cl, (sv, q)) = (direct_reply Read [u32_le 0, buf] ?x, after bad cl sv q)"
    by (intro direct_comm_answer) (simp_all add: handle_request_def)
  moreover have "direct_reply Read [u32_le 0, buf] ?x =
      coded Read (rmap (\<lambda>d. (4 + length buf, [u32_le (of_nat (length buf)), d])) (device_fetch sv grp ofs (length buf)))"
    using device_fetch_length [of sv grp ofs "length buf"] device_codes(1,2) [of sv grp ofs "length buf"]
    by (cases "device_fetch sv grp ofs (length buf)")
      (simp_all add: do_read_fetch [OF assms(2)] direct_reply_def Let_def)
  ultimately show ?thesis
    using assms(2) by (cases "device_fetch sv grp ofs (length buf)")
      (simp_all add: dev_read_def ibind_def try_u32_def ads_error_map_of)
qed

lemma direct_read_exact:
  assumes "server_ok sv" and "length buf < 4294967296"
  shows "read_exact (direct_comm bad) addr grp ofs buf (cl, (sv, q)) =
    (coded Read (device_fetch sv grp ofs (length buf)), after bad cl sv q)"
  using device_fetch_length [of sv grp ofs "length buf"]
  by (cases "device_fetch sv grp ofs (length buf)")
    (simp_all add: read_exact_def ibind_def direct_dev_read [OF assms] ads_error_map_of)

lemma direct_dev_write:
  assumes "length d + 44 < 4294967296"
  shows "dev_write (direct_comm bad) addr grp ofs d (cl, (sv, q)) =
    (coded Write (rmap (\<lambda>_. ()) (device_store sv grp ofs d)), after bad cl (stored sv (device_store sv grp ofs d)) q)"
proof -
  let ?b = "index_length_bytes \<lparr>index_group = grp, index_offset = ofs, il_length = of_nat (length d)\<rparr>"
  have d: "length d < 4294967296" using assms by simp
  let ?x = "fst (do_write sv (?b @ d))" and ?sv = "stored sv (device_store sv grp ofs d)"
  have "length (fst ?x) \<le> 4" by (simp add: do_write_store [OF d] split: outcome.split)
  then have "direct_comm bad Write addr [?b, d] [] (cl, (sv, q)) = (direct_reply Write [] ?x, after bad cl ?sv q)"
    using assms by (intro direct_comm_answer) (simp_all add: handle_request_def do_write_store [OF d])
  moreover have "direct_reply Write [] ?x = coded Write (rmap (\<lambda>_. (0, [])) (device_store sv grp ofs d))"
    using device_codes(3,4) [of sv grp ofs d]
    by (cases "device_store sv grp ofs d") (simp_all add: do_write_store [OF d] direct_reply_def Let_def)
  ultimately show ?thesis
    using d by (cases "device_store sv grp ofs d") (simp_all add: dev_write_def ibind_def try_u32_def ads_error_map_of)
qed

section \<open>State and information\<close>

lemma direct_get_info:
  "get_info (direct_comm bad) addr (cl, (sv, q)) =
     (Ok \<lparr>di_name = bytes_of ''Nice device'', di_major = 7, di_minor = 1, di_version = 4024\<rparr>, after bad cl sv q)"
proof -
  have h: "handle_request sv (command_code DevInfo) (concat []) = Ok (do_devinfo [], sv)" by (simp add: handle_request_def)
  have "direct_comm bad DevInfo addr [] [replicate 20 0] (cl, (sv, q)) =
      (direct_reply DevInfo [replicate 20 0] (do_devinfo []), after bad cl sv q)"
    by (rule direct_comm_answer [OF _ _ _ h]) (simp_all add: do_devinfo_def bytes_of_def)
  then show ?thesis
    by (simp add: get_info_def ibind_def size_DeviceInfoRaw_def direct_reply_def do_devinfo_def bytes_of_def
        device_info_raw_read_def utf8_of_byte_def Let_def)
qed

lemma direct_write_control:
  "write_control (direct_comm bad) addr st x (cl, (sv, q)) =
     (if st = Invalid then (ads_error (action WriteControl) 0x70B, after bad cl sv q)
      else (Ok (), after bad cl (sv\<lparr>sv_state := (st, x)\<rparr>) q))"
proof -
  let ?b = "write_control_bytes \<lparr>wc_ads_state = ads_state_code st, wc_dev_state = x, wc_data_length = 0\<rparr>"
  let ?sv = "if st = Invalid then sv else sv\<lparr>sv_state := (st, x)\<rparr>"
  have h: "handle_request sv (command_code WriteControl) (concat [?b]) = Ok ((if st = Invalid then u32_le 0x70B else u32_le 0, 0), ?sv)"
    by (simp add: handle_request_def do_write_control_def write_control_bytes_def Let_def)
  have "direct_comm bad WriteControl addr [?b] [] (cl, (sv, q)) =
      (direct_reply WriteControl [] (if st = Invalid then u32_le 0x70B else u32_le 0, 0), after bad cl ?sv q)"
    by (rule direct_comm_answer [OF _ _ _ h]) (simp_all add: write_control_bytes_def)
  then show ?thesis by (simp add: write_control_def ibind_def direct_reply_def Let_def ads_error_map_of)
qed

lemma direct_get_state:
  "get_state (direct_comm bad) addr (cl, (sv, q)) = (Ok (sv_state sv), after bad cl sv q)"
proof -
  have h: "handle_request sv (command_code ReadState) (concat []) = Ok (do_read_state sv [], sv)" by (simp add: handle_request_def)
  have "direct_comm bad ReadState addr [] [replicate 4 0] (cl, (sv, q)) =
      (direct_reply ReadState [replicate 4 0] (do_read_state sv []), after bad cl sv q)"
    by (rule direct_comm_answer [OF _ _ _ h]) (simp_all add: do_read_state_def)
  then show ?thesis
    by (simp add: get_state_def ibind_def size_ReadState_def direct_reply_def do_read_state_def read_state_read_def Let_def)
qed

section \<open>Notifications\<close>

definition device_watch :: "server \<Rightarrow> u32 \<Rightarrow> u32 \<Rightarrow> nat \<Rightarrow> (server, u32) outcome" where
  "device_watch sv grp ofs n =
     (if grp \<noteq> PLC_RW_M then Err 0x702
      else if unat ofs + n \<le> length (sv_data sv) then Ok (sv\<lparr>sv_notif := Some (unat ofs, n)\<rparr>) else Err 0x703)"

definition device_unwatch :: "server \<Rightarrow> handle \<Rightarrow> (server, u32) outcome" where
  "device_unwatch sv h = (if h = 132 \<and> sv_notif sv \<noteq> None then Ok (sv\<lparr>sv_notif := None\<rparr>) else Err 0x714)"

definition attributes_fit :: "attributes \<Rightarrow> bool" where
  "attributes_fit attr \<longleftrightarrow> at_length attr < 4294967296 \<and> as_millis (at_max_delay attr) < 4294967296 \<and>
     as_millis (at_cycle_time attr) < 4294967296"

lemma do_add_notif_watch:
  assumes "an_reserved x = replicate 16 0"
  shows "do_add_notif sv (add_notif_bytes x) =
    ((case device_watch sv (an_index_group x) (an_index_offset x) (unat (an_length x)) of
        Ok _ \<Rightarrow> (u32_le 0 @ u32_le 132, 0) | Err e \<Rightarrow> ([], e) | Panic \<Rightarrow> ([], 0)),
     stored sv (device_watch sv (an_index_group x) (an_index_offset x) (unat (an_length x))))"
  using assms by (simp add: do_add_notif_def add_notif_bytes_def size_AddNotif_def device_watch_def Let_def)

lemma do_del_notif_unwatch:
  "do_del_notif sv (u32_le h) =
    ((case device_unwatch sv h of Ok _ \<Rightarrow> (u32_le 0, 0) | Err e \<Rightarrow> ([], e) | Panic \<Rightarrow> ([], 0)), stored sv (device_unwatch sv h))"
  by (simp add: do_del_notif_def device_unwatch_def)

lemma direct_add_notification:
  fixes sv :: server and grp ofs :: u32
  assumes "attributes_fit attr"
  defines "r \<equiv> device_watch sv grp ofs (at_length attr)"
  shows "add_notification (direct_comm bad) addr grp ofs attr (cl, (sv, q)) =
    (case r of Ok sv' \<Rightarrow>
       (Ok 132, ((next_request cl)\<lparr>notif_handles := insert (addr, 132) (notif_handles cl)\<rparr>, (sv', q @ arrivals bad sv')))
     | Err e \<Rightarrow> (ads_error (action AddNotification) e, after bad cl sv q) | Panic \<Rightarrow> (Panic, after bad cl sv q))"
proof -
  let ?an = "\<lparr>an_index_group = grp, an_index_offset = ofs, an_length = of_nat (at_length attr),
      an_trans_mode = transmission_mode_code (at_trans_mode attr), an_max_delay = of_nat (as_millis (at_max_delay attr)),
      an_cycle_time = of_nat (as_millis (at_cycle_time attr)), an_reserved = replicate 16 0\<rparr>"
  let ?x = "fst (do_add_notif sv (add_notif_bytes ?an))"
  have n: "unat (of_nat (at_length attr) :: u32) = at_length attr" using assms(1) by (simp add: attributes_fit_def)
  note w = do_add_notif_watch [of ?an sv, simplified add_notif.select_convs n, OF refl, folded r_def]
  have "length (fst ?x) \<le> 8" by (simp add: w split: outcome.split)
  then have "direct_comm bad AddNotification addr [add_notif_bytes ?an] [u32_le 0] (cl, (sv, q)) =
      (direct_reply AddNotification [u32_le 0] ?x, after bad cl (stored sv r) q)"
    by (intro direct_comm_answer) (simp_all add: handle_request_def w length_add_notif_bytes)
  moreover have "r = Err e \<Longrightarrow> e \<noteq> 0" "r \<noteq> Panic" for e by (auto simp: r_def device_watch_def split: if_splits)
  ultimately show ?thesis
    using assms(1) by (cases r) (simp_all add: w add_notification_def ibind_def try_u32_def attributes_fit_def direct_reply_def
      insert_handle_def after_def next_request_def ads_error_map_of Let_def)
qed

lemma direct_delete_notification:
  "delete_notification (direct_comm bad) addr h (cl, (sv, q)) =
    (case device_unwatch sv h of Ok sv' \<Rightarrow>
       (Ok (), ((next_request cl)\<lparr>notif_handles := notif_handles cl - {(addr, h)}\<rparr>, (sv', q @ arrivals bad sv')))
     | Err e \<Rightarrow> (ads_error (action DeleteNotification) e, after bad cl sv q) | Panic \<Rightarrow> (Panic, after bad cl sv q))"
proof -
  let ?r = "device_unwatch sv h" and ?x = "fst (do_del_notif sv (u32_le h))"
  have "length (fst ?x) \<le> 4" by (simp add: do_del_notif_unwatch split: outcome.split)
  then have "direct_comm bad DeleteNotification addr [u32_le h] [] (cl, (sv, q)) =
      (direct_reply DeleteNotification [] ?x, after bad cl (stored sv ?r) q)"
    by (intro direct_comm_answer) (simp_all add: handle_request_def do_del_notif_unwatch)
  moreover have "?r = Err e \<Longrightarrow> e \<noteq> 0" "?r \<noteq> Panic" for e by (auto simp: device_unwatch_def split: if_splits)
  ultimately show ?thesis
    by (cases ?r) (simp_all add: do_del_notif_unwatch delete_notification_def ibind_def direct_reply_def
      remove_handle_def after_def next_request_def ads_error_map_of Let_def)
qed

section \<open>Files and symbols\<close>

lemma direct_write_read:
  assumes "grp \<noteq> SUMUP_READWRITE" and "48 + length wd < 4294967296"
    and "length buf < 4294967296" and "length d + 40 < 4294967296" and "n < 4294967296"
    and "do_read_write_one sv grp ofs (length buf) (length wd) (index_length_rw_bytes \<lparr>rw_index_group = grp,
        rw_index_offset = ofs, rw_read_length = of_nat (length buf), rw_write_length = of_nat (length wd)\<rparr> @ wd) =
      Ok ((if err = 0 then u32_le 0 @ u32_le (of_nat n) @ d else [], err), sv')"
  shows "write_read (direct_comm bad) addr grp ofs wd buf (cl, (sv, q)) =
    (if err = 0 then Ok (n, take (length buf) d @ drop (length d) buf) else ads_error (action ReadWrite) err, after bad cl sv' q)"
proof -
  let ?rw = "index_length_rw_bytes \<lparr>rw_index_group = grp, rw_index_offset = ofs, rw_read_length = of_nat (length buf),
      rw_write_length = of_nat (length wd)\<rparr>"
  let ?x = "(if err = 0 then u32_le 0 @ u32_le (of_nat n) @ d else [], err)"
  have "do_read_write sv (?rw @ wd) = Ok (?x, sv')"
    using do_read_write_single [OF assms(1), of sv ofs "of_nat (length buf)" "of_nat (length wd)" wd] assms(2,3,6) by simp
  then have "direct_comm bad ReadWrite addr [?rw, wd] [u32_le 0, buf] (cl, (sv, q)) =
      (direct_reply ReadWrite [u32_le 0, buf] ?x, after bad cl sv' q)"
    using assms(2,4) by (intro direct_comm_answer) (simp_all add: handle_request_def)
  moreover have "try_u32 (length buf) = Ok (of_nat (length buf))" "try_u32 (length wd) = Ok (of_nat (length wd))"
    using assms(2,3) by (simp_all add: try_u32_def)
  ultimately show ?thesis
    using assms(5) by (simp add: write_read_def ibind_def direct_reply_def ads_error_map_of Let_def)
qed

lemma direct_file_open:
  assumes "48 + length name < 4294967296"
  shows "file_open (direct_comm bad) addr name flags (cl, (sv, q)) =
    (if name \<noteq> SIM_FILE then (ads_error (action ReadWrite) 0x70C, after bad cl sv q)
     else if sv_file_ptr sv \<noteq> None then (ads_error (action ReadWrite) 0x708, after bad cl sv q)
     else (Ok 42, after bad cl (sv\<lparr>sv_file_ptr := Some (flags AND (WRITE OR APPEND) \<noteq> 0, 0)\<rparr>) q))"
proof -
  let ?err = "if name \<noteq> SIM_FILE then 0x70C else if sv_file_ptr sv \<noteq> None then 0x708 else 0 :: u32"
  let ?sv = "if ?err = 0 then sv\<lparr>sv_file_ptr := Some (flags AND (WRITE OR APPEND) \<noteq> 0, 0)\<rparr> else sv"
  have "write_read (direct_comm bad) addr FILE_OPEN flags name (replicate 4 0) (cl, (sv, q)) =
      (if ?err = 0 then Ok (4, take (length (replicate 4 0 :: bytes)) (u32_le 42) @ drop (length (u32_le 42)) (replicate 4 0))
       else ads_error (action ReadWrite) ?err, after bad cl ?sv q)"
    using assms by (intro direct_write_read) (auto simp: do_read_write_one_def sumup_groups file_groups Let_def)
  then show ?thesis by (simp add: file_open_def write_read_exact_def ibind_def ads_error_map_of)
qed

lemma direct_file_delete:
  assumes "48 + length name < 4294967296"
  shows "file_delete (direct_comm bad) addr name flags (cl, (sv, q)) =
    (if name \<noteq> SIM_FILE then ads_error (action ReadWrite) 0x70C
     else if sv_file_ptr sv \<noteq> None then ads_error (action ReadWrite) 0xFFFF else Ok (), after bad cl sv q)"
proof -
  let ?err = "if name \<noteq> SIM_FILE then 0x70C else if sv_file_ptr sv \<noteq> None then 0xFFFF else 0 :: u32"
  have "write_read (direct_comm bad) addr FILE_DELETE flags name [] (cl, (sv, q)) =
      (if ?err = 0 then Ok (0, take (length ([] :: bytes)) [] @ drop (length ([] :: bytes)) [])
       else ads_error (action ReadWrite) ?err, after bad cl sv q)"
    using assms by (intro direct_write_read) (auto simp: do_read_write_one_def sumup_groups file_groups Let_def)
  then show ?thesis by (simp add: file_delete_def ibind_def ads_error_map_of)
qed

lemma direct_file_drop:
  "file_drop (direct_comm bad) addr 42 (cl, (sv, q)) = (Ok (), after bad cl (sv\<lparr>sv_file_ptr := None\<rparr>) q)"
proof -
  have "write_read (direct_comm bad) addr FILE_CLOSE 42 [] [] (cl, (sv, q)) =
      (if (0 :: u32) = 0 then Ok (0, take (length ([] :: bytes)) [] @ drop (length ([] :: bytes)) [])
       else ads_error (action ReadWrite) 0, after bad cl (sv\<lparr>sv_file_ptr := None\<rparr>) q)"
    by (intro direct_write_read) (auto simp: do_read_write_one_def sumup_groups file_groups Let_def)
  then show ?thesis by (simp add: file_drop_def icatch_def)
qed

lemma direct_file_write:
  assumes "48 + length d < 4294967296"
  shows "file_write io_text (direct_comm bad) addr hdl d (cl, (sv, q)) =
    (case sv_file_ptr sv of
       Some (True, ptr) \<Rightarrow> (Ok (length d), after bad cl (sv\<lparr>sv_file_ptr := Some (True, ptr + length d)\<rparr>) q)
     | _ \<Rightarrow> (Err (io_of_kind InvalidInput), after bad cl sv q))"
proof -
  define w where "w = (case sv_file_ptr sv of Some (True, ptr) \<Rightarrow> True | _ \<Rightarrow> False)"
  let ?err = "if w then 0 else 0x704 :: u32"
  let ?sv = "case sv_file_ptr sv of Some (True, ptr) \<Rightarrow> sv\<lparr>sv_file_ptr := Some (True, ptr + length d)\<rparr> | _ \<Rightarrow> sv"
  have "write_read (direct_comm bad) addr FILE_WRITE hdl d [] (cl, (sv, q)) =
      (if ?err = 0 then Ok (0, take (length ([] :: bytes)) [] @ drop (length ([] :: bytes)) [])
       else ads_error (action ReadWrite) ?err, after bad cl ?sv q)"
    using assms by (intro direct_write_read)
      (auto simp: do_read_write_one_def sumup_groups file_groups Let_def w_def split: option.split bool.split)
  then show ?thesis
    by (auto simp: file_write_def map_err_def ibind_def ads_error_map_of map_error_def w_def split: option.split bool.split)
qed

lemma direct_file_read:
  assumes "server_ok sv" and "length buf < 4294967296"
  shows "file_read io_text (direct_comm bad) addr hdl buf (cl, (sv, q)) =
    (case sv_file_ptr sv of
       Some (False, cur) \<Rightarrow>
         (let n = min (length buf) (888 - cur) in
          (Ok (n, replicate n 0 @ drop n buf), after bad cl (sv\<lparr>sv_file_ptr := Some (False, cur + n)\<rparr>) q))
     | _ \<Rightarrow> (Err (io_of_kind InvalidInput), after bad cl sv q))"
proof (cases "\<exists>cur. sv_file_ptr sv = Some (False, cur)")
  case True
  then obtain cur where cur: "sv_file_ptr sv = Some (False, cur)" by blast
  then have le: "cur \<le> 888" using assms(1) by (simp add: server_ok_def)
  define n where "n = min (length buf) (888 - cur)"
  have n: "min (cur + length buf) 888 = cur + n" "n \<le> 888" "n \<le> length buf" using le unfolding n_def by linarith+
  have "write_read (direct_comm bad) addr FILE_READ hdl [] buf (cl, (sv, q)) =
      (if (0 :: u32) = 0 then Ok (n, take (length buf) (replicate n 0) @ drop (length (replicate n (0 :: u8))) buf)
       else ads_error (action ReadWrite) 0, after bad cl (sv\<lparr>sv_file_ptr := Some (False, cur + n)\<rparr>) q)"
    using n assms(2) by (intro direct_write_read) (auto simp: do_read_write_one_def sumup_groups file_groups Let_def cur)
  then show ?thesis using n(3) by (simp add: file_read_def map_err_def cur n_def [symmetric] min_absorb2 Let_def)
next
  case False
  then have "write_read (direct_comm bad) addr FILE_READ hdl [] buf (cl, (sv, q)) =
      (if (0x704 :: u32) = 0 then Ok (0, take (length buf) [] @ drop (length ([] :: bytes)) buf)
       else ads_error (action ReadWrite) 0x704, after bad cl sv q)"
    using assms(2) by (intro direct_write_read)
      (auto simp: do_read_write_one_def sumup_groups file_groups Let_def split: option.split bool.split)
  with False show ?thesis
    by (auto simp: file_read_def map_err_def ads_error_map_of map_error_def split: option.split bool.split)
qed

lemma direct_handle_new:
  assumes "48 + length name < 4294967296"
  shows "handle_new (direct_comm bad) addr name (cl, (sv, q)) =
    (if name \<noteq> bytes_of ''SYMBOL'' then ads_error (action ReadWrite) 0x710 else Ok 77, after bad cl sv q)"
proof -
  let ?err = "if name \<noteq> bytes_of ''SYMBOL'' then 0x710 else 0 :: u32"
  have "write_read (direct_comm bad) addr GET_SYMHANDLE_BYNAME 0 name (replicate 4 0) (cl, (sv, q)) =
      (if ?err = 0 then Ok (4, take (length (replicate 4 0 :: bytes)) (u32_le 77) @ drop (length (u32_le 77)) (replicate 4 0))
       else ads_error (action ReadWrite) ?err, after bad cl sv q)"
    using assms by (intro direct_write_read)
      (auto simp: do_read_write_one_def sumup_groups file_groups GET_SYMHANDLE_BYNAME_def Let_def)
  then show ?thesis by (simp add: handle_new_def write_read_exact_def ibind_def ads_error_map_of)
qed

end
