(* ===== verification/Ads_Direct_Multi.thy ===== *)
theory Ads_Direct_Multi
  imports Ads_Direct_Ops
begin

text \<open>
  Sum-up requests on the device called directly: each does what its single requests do, one
  after another, and every one gets its own result.
\<close>

section \<open>Writes and reads\<close>

context transport
begin

lemma read_multi_buffers:
  assumes "read_multi comm addr rs s = (Ok rs', s')"
  shows "map (\<lambda>r. length (rr_rbuf r)) rs' = map (\<lambda>r. length (rr_rbuf r)) rs"
proof -
  obtain n bufs ws s1 where c: "comm ReadWrite addr ws (result_bufs_of rr_res rr_rbuf rs) s = (Ok (n, bufs), s1)"
    and rs': "rs' = put_results (\<lambda>r x d. r\<lparr>rr_res := x, rr_rbuf := d\<rparr>) bufs rs"
    using assms by (auto simp: read_multi_def ibind_eq_Ok)
  note eq = lengths [OF c]
  have l: "length bufs = 1 + 2 * length rs" "map length (drop (1 + length rs) bufs) = map (\<lambda>r. length (rr_rbuf r)) rs"
    using arg_cong [OF eq, of length] arg_cong [OF eq, of "drop (1 + length rs)"]
    by (simp_all add: result_bufs_of_def drop_map o_def)
  then have "map rr_rbuf rs' = drop (1 + length rs) bufs"
    by (auto simp: rs' put_results_def Let_def intro!: nth_equalityI)
  then have "map length (map rr_rbuf rs') = map (\<lambda>r. length (rr_rbuf r)) rs" using l(2) by simp
  then show ?thesis by (simp add: o_def)
qed

end

lemma write_total: "length (concat (map wr_wbuf rs)) + 12 * length rs = sum_list (map (\<lambda>r. 12 + length (wr_wbuf r)) rs)"
  by (induction rs) simp_all

lemma direct_write_multi:
  assumes "list_all wf_write rs" and "48 + sum_list (map (\<lambda>r. 12 + length (wr_wbuf r)) rs) < 4294967296"
  shows "write_multi (direct_comm bad) addr rs (cl, (sv, q)) =
    (Ok (map2 (\<lambda>r e. r\<lparr>wr_res := e\<rparr>) rs (fst (write_results sv rs))), after bad cl (snd (write_results sv rs)) q)"
proof -
  let ?data = "u32_le (of_nat (4 * length rs)) @ concat (map u32_le (fst (write_results sv rs)))"
  let ?s = "after bad cl (snd (write_results sv rs)) q"
  have small: "12 * length rs \<le> sum_list (map (\<lambda>r. 12 + length (wr_wbuf r)) rs)" by (induction rs) simp_all
  have h: "handle_request sv (command_code ReadWrite) (concat (write_payload rs)) =
      Ok ((u32_le 0 @ ?data, 0), snd (write_results sv rs))"
    using sim_sumup_write_reply [OF assms(1), of sv] small assms(2) by (simp add: handle_request_def)
  have "fits (write_payload rs)" using assms(2) write_total [of rs] by simp
  then have c: "direct_comm bad ReadWrite addr (write_payload rs) (write_bufs rs) (cl, (sv, q)) =
      (Ok (length ?data, scatter (write_bufs rs) ?data), ?s)"
    using direct_comm_answer [OF _ _ _ h, of bad addr "write_bufs rs" cl q] small assms(2) by (simp add: direct_reply_def Let_def)
  show ?thesis
    by (rule write_multi_answers [where comm = "direct_comm bad", OF c]) (use assms(2) in \<open>simp_all add: size_IndexLength_def\<close>)
qed

lemma direct_read_multi:
  assumes "list_all wf_read rs" and "48 + 12 * length rs < 4294967296" and "40 + read_total rs < 4294967296"
  shows "\<exists>rs'. read_multi (direct_comm bad) addr rs (cl, (sv, q)) = (Ok rs', after bad cl sv q) \<and>
    map read_request_data rs' = map (\<lambda>r. answer_data ''multi-read data'' (fetch_answer sv r)) rs"
proof -
  let ?data = "read_reply sv rs" and ?bufs = "result_bufs_of rr_res rr_rbuf rs"
  have h: "handle_request sv (command_code ReadWrite) (concat (read_payload rs)) = Ok ((u32_le 0 @ ?data, 0), sv)"
    using sim_sumup_read_reply [OF assms(1), of sv] assms(2) by (simp add: handle_request_def)
  have len: "length ?data = 4 + read_total rs" by (rule length_read_reply)
  have "fits (read_payload rs)" using assms(2) by (simp add: read_payload_def)
  then have "direct_comm bad ReadWrite addr (read_payload rs) ?bufs (cl, (sv, q)) =
      (Ok (length ?data, scatter ?bufs ?data), after bad cl sv q)"
    using direct_comm_answer [OF _ _ _ h, of bad addr ?bufs cl q] assms(3) len
    by (simp add: direct_reply_def result_bufs_of_def Let_def)
  from read_multi_fetches [where comm = "direct_comm bad", OF this] assms(2,3) show ?thesis by simp
qed

section \<open>Notifications\<close>

primrec watch_all :: "server \<Rightarrow> add_notif list \<Rightarrow> result_length list \<times> server" where
  "watch_all sv [] = ([], sv)"
| "watch_all sv (x # xs) =
     (let r = device_watch sv (an_index_group x) (an_index_offset x) (unat (an_length x));
          (es, sv') = watch_all (stored sv r) xs
      in ((case r of Ok _ \<Rightarrow> \<lparr>rl_result = 0, rl_length = 132\<rparr> | Err e \<Rightarrow> \<lparr>rl_result = e, rl_length = 0\<rparr>
           | Panic \<Rightarrow> result_length_zeroed) # es, sv'))"

primrec unwatch_all :: "server \<Rightarrow> handle list \<Rightarrow> u32 list \<times> server" where
  "unwatch_all sv [] = ([], sv)"
| "unwatch_all sv (h # hs) =
     (let r = device_unwatch sv h; (es, sv') = unwatch_all (stored sv r) hs
      in ((case r of Err e \<Rightarrow> e | _ \<Rightarrow> 0) # es, sv'))"

lemma length_watch_all [simp]: "length (fst (watch_all sv xs)) = length xs"
  by (induction xs arbitrary: sv) (simp_all add: Let_def split_beta)

lemma length_unwatch_all [simp]: "length (fst (unwatch_all sv hs)) = length hs"
  by (induction hs arbitrary: sv) (simp_all add: Let_def split_beta)

lemma slice_of_concat:
  assumes "length hdr = 16" and "\<forall>z \<in> set (map f xs). length z = k" and "length (f y) = k"
  shows "slice_of (hdr @ concat (map f (xs @ y # ys))) (16 + length xs * k) (16 + length xs * k + k) = Ok (f y)"
proof -
  have "length (concat (map f xs)) = length xs * k" using assms(2) by (induction xs) simp_all
  then show ?thesis using assms(1,3) by (simp add: slice_of_def)
qed

lemma result_length_pair: "result_length_bytes \<lparr>rl_result = e, rl_length = n\<rparr> = u32_le e @ u32_le n"
  by (simp add: result_length_bytes_def)

lemma sumup_add_loop_watches:
  assumes "length hdr = 16" and "list_all (\<lambda>x. an_reserved x = replicate 16 0) (xs @ ys)"
  shows "sumup_add_loop sv (hdr @ concat (map add_notif_bytes (xs @ ys))) (length xs) (length ys) =
    Ok (concat (map result_length_bytes (fst (watch_all sv ys))), snd (watch_all sv ys))"
  using assms
proof (induction ys arbitrary: sv xs)
  case (Cons y ys)
  let ?data = "hdr @ concat (map add_notif_bytes (xs @ y # ys))"
  let ?r = "device_watch sv (an_index_group y) (an_index_offset y) (unat (an_length y))"
  have y: "an_reserved y = replicate 16 0" using Cons.prems(2) by simp
  have s: "slice_of ?data (16 + length xs * 40) (16 + length xs * 40 + 40) = Ok (add_notif_bytes y)"
    using Cons.prems by (intro slice_of_concat) (auto simp: list_all_iff length_add_notif_bytes)
  have ih: "sumup_add_loop (stored sv ?r) ?data (Suc (length xs)) (length ys) =
      Ok (concat (map result_length_bytes (fst (watch_all (stored sv ?r) ys))), snd (watch_all (stored sv ?r) ys))"
    using Cons.IH [where xs = "xs @ [y]" and sv = "stored sv ?r"] Cons.prems by simp
  obtain d e where w: "do_add_notif sv (add_notif_bytes y) = ((d, e), stored sv ?r)"
    and "d = (case ?r of Ok _ \<Rightarrow> u32_le 0 @ u32_le 132 | _ \<Rightarrow> [])" "e = (case ?r of Err e \<Rightarrow> e | _ \<Rightarrow> 0)"
    using do_add_notif_watch [OF y, of sv] by (cases ?r) auto
  then have "fst (watch_all sv (y # ys)) = \<lparr>rl_result = e, rl_length = le_u32 (if length d > 4 then drop 4 d else u32_le 0)\<rparr> #
      fst (watch_all (stored sv ?r) ys)" "length (if length d > 4 then drop 4 d else u32_le 0) = 4"
    by (cases ?r; simp add: split_beta result_length_zeroed_def Let_def)+
  moreover have "snd (watch_all sv (y # ys)) = snd (watch_all (stored sv ?r) ys)" by (simp add: split_beta Let_def)
  ultimately show ?case
    by (simp only: list.size sumup_add_loop.simps s rbind.simps w Let_def prod.case ih rmap.simps
        add_0_right add_Suc_right One_nat_def plus_1_eq_Suc)
      (simp add: result_length_pair u32_le_le_u32)
qed simp

lemma sumup_del_loop_unwatches:
  assumes "length hdr = 16"
  shows "sumup_del_loop sv (hdr @ concat (map u32_le (xs @ ys))) (length xs) (length ys) =
    Ok (concat (map u32_le (fst (unwatch_all sv ys))), snd (unwatch_all sv ys))"
  using assms
proof (induction ys arbitrary: sv xs)
  case (Cons y ys)
  let ?data = "hdr @ concat (map u32_le (xs @ y # ys))" and ?r = "device_unwatch sv y"
  have s: "slice_of ?data (16 + length xs * 4) (16 + length xs * 4 + 4) = Ok (u32_le y)"
    using Cons.prems by (intro slice_of_concat) auto
  have ih: "sumup_del_loop (stored sv ?r) ?data (Suc (length xs)) (length ys) =
      Ok (concat (map u32_le (fst (unwatch_all (stored sv ?r) ys))), snd (unwatch_all (stored sv ?r) ys))"
    using Cons.IH [where xs = "xs @ [y]" and sv = "stored sv ?r"] Cons.prems by simp
  obtain d e where w: "do_del_notif sv (u32_le y) = ((d, e), stored sv ?r)" and "e = (case ?r of Err e \<Rightarrow> e | _ \<Rightarrow> 0)"
    using do_del_notif_unwatch [of sv y] by (cases ?r) auto
  then have "unwatch_all sv (y # ys) = (e # fst (unwatch_all (stored sv ?r) ys), snd (unwatch_all (stored sv ?r) ys))"
    by (simp add: split_beta Let_def)
  then show ?case
    by (simp only: list.size sumup_del_loop.simps s rbind.simps w Let_def prod.case ih rmap.simps
        add_0_right add_Suc_right One_nat_def plus_1_eq_Suc) simp
qed simp

lemma length_concat_add [simp]:
  "list_all (\<lambda>r. an_reserved (f r) = replicate 16 0) rs \<Longrightarrow> length (concat (map (\<lambda>r. add_notif_bytes (f r)) rs)) = 40 * length rs"
  by (induction rs) (simp_all add: length_add_notif_bytes)

lemma direct_add_multi:
  fixes sv :: server
  assumes "list_all (\<lambda>r. an_reserved (anr_req r) = replicate 16 0) rs" and "48 + 40 * length rs < 4294967296"
  defines "rs' \<equiv> map2 (\<lambda>r x. r\<lparr>anr_res := x\<rparr>) rs (fst (watch_all sv (map anr_req rs)))"
  shows "add_notification_multi (direct_comm bad) addr rs (cl, (sv, q)) =
    (Ok rs', ((next_request cl)\<lparr>notif_handles := notif_handles cl \<union>
        (\<lambda>r. (addr, rl_length (anr_res r))) ` set (filter (\<lambda>r. rl_result (anr_res r) = 0) rs')\<rparr>,
       (snd (watch_all sv (map anr_req rs)), q @ arrivals bad (snd (watch_all sv (map anr_req rs))))))"
proof -
  let ?w = "watch_all sv (map anr_req rs)" and ?bufs = "u32_le 0 # map (\<lambda>r. result_length_bytes (anr_res r)) rs"
  let ?hdr = "index_length_rw_bytes \<lparr>rw_index_group = SUMUP_ADDDEVNOTE, rw_index_offset = of_nat (length rs),
      rw_read_length = of_nat (8 * length rs), rw_write_length = of_nat (40 * length rs)\<rparr>"
  let ?ws = "?hdr # map (\<lambda>r. add_notif_bytes (anr_req r)) rs"
  let ?data = "u32_le (of_nat (8 * length rs)) @ concat (map result_length_bytes (fst ?w))"
  have "sumup_add_loop sv (concat ?ws) 0 (length rs) = Ok (concat (map result_length_bytes (fst ?w)), snd ?w)"
    using sumup_add_loop_watches [of ?hdr "[]" "map anr_req rs" sv] assms(1) by (simp add: list_all_iff o_def)
  then have "do_read_write sv (concat ?ws) = Ok ((u32_le 0 @ ?data, 0), snd ?w)"
    using assms(2) by (simp only: concat.simps list.map, subst do_read_write_single)
      (simp_all add: do_read_write_one_def sumup_groups times_u32_def Let_def)
  then have h: "handle_request sv (command_code ReadWrite) (concat ?ws) = Ok ((u32_le 0 @ ?data, 0), snd ?w)"
    by (simp add: handle_request_def)
  have sc: "scatter ?bufs ?data = u32_le (of_nat (8 * length rs)) # map result_length_bytes (fst ?w)"
    using scatter_exact [of "u32_le (of_nat (8 * length rs)) # map result_length_bytes (fst ?w)" ?bufs]
    by (simp add: o_def map_replicate_const)
  have "length (concat (map result_length_bytes (fst ?w))) = 8 * length rs"
    using length_concat_results [of "\<lambda>x. x" "fst ?w"] by simp
  then have c: "direct_comm bad ReadWrite addr ?ws ?bufs (cl, (sv, q)) =
      (Ok (length ?data, u32_le (of_nat (8 * length rs)) # map result_length_bytes (fst ?w)), after bad cl (snd ?w) q)"
    using direct_comm_answer [OF _ _ _ h, of bad addr ?bufs cl q] assms(1,2) sc by (simp add: direct_reply_def Let_def)
  have "sumup_header SUMUP_ADDDEVNOTE (length rs) (size_ResultLength * length rs) (size_AddNotif * length rs) = Ok ?hdr"
    using assms(2) by (simp add: sumup_header_def try_u32_def size_ResultLength_def size_AddNotif_def)
  moreover have "map2 (\<lambda>r b. r\<lparr>anr_res := result_length_read b\<rparr>) rs (map result_length_bytes (fst ?w)) = rs'"
    unfolding rs'_def by (auto intro!: nth_equalityI)
  ultimately show ?thesis
    using c unfolding add_notification_multi_def
    by (simp add: ibind_def insert_handles_effect after_def next_request_def Let_def del: insert_handles.simps)
qed

lemma direct_delete_multi:
  fixes sv :: server
  assumes "48 + 4 * length rs < 4294967296"
  defines "rs' \<equiv> map2 (\<lambda>r x. r\<lparr>dnr_res := x\<rparr>) rs (fst (unwatch_all sv (map dnr_req rs)))"
  shows "delete_notification_multi (direct_comm bad) addr rs (cl, (sv, q)) =
    (Ok rs', ((next_request cl)\<lparr>notif_handles := notif_handles cl -
        (\<lambda>r. (addr, dnr_req r)) ` set (filter (\<lambda>r. dnr_res r = 0) rs')\<rparr>,
       (snd (unwatch_all sv (map dnr_req rs)), q @ arrivals bad (snd (unwatch_all sv (map dnr_req rs))))))"
proof -
  let ?w = "unwatch_all sv (map dnr_req rs)" and ?bufs = "u32_le 0 # map (\<lambda>r. u32_le (dnr_res r)) rs"
  let ?hdr = "index_length_rw_bytes \<lparr>rw_index_group = SUMUP_DELDEVNOTE, rw_index_offset = of_nat (length rs),
      rw_read_length = of_nat (4 * length rs), rw_write_length = of_nat (4 * length rs)\<rparr>"
  let ?ws = "?hdr # map (\<lambda>r. u32_le (dnr_req r)) rs"
  let ?data = "u32_le (of_nat (4 * length rs)) @ concat (map u32_le (fst ?w))"
  have "sumup_del_loop sv (concat ?ws) 0 (length rs) = Ok (concat (map u32_le (fst ?w)), snd ?w)"
    using sumup_del_loop_unwatches [of ?hdr sv "[]" "map dnr_req rs"] by (simp add: o_def)
  then have "do_read_write sv (concat ?ws) = Ok ((u32_le 0 @ ?data, 0), snd ?w)"
    using assms(1) by (simp only: concat.simps list.map, subst do_read_write_single)
      (simp_all add: do_read_write_one_def sumup_groups times_u32_def Let_def)
  then have h: "handle_request sv (command_code ReadWrite) (concat ?ws) = Ok ((u32_le 0 @ ?data, 0), snd ?w)"
    by (simp add: handle_request_def)
  have "length (concat (map (\<lambda>r. u32_le (dnr_req r)) rs)) = 4 * length rs"
    using length_concat_u32_le [of "map dnr_req rs"] by (simp add: o_def)
  then have c: "direct_comm bad ReadWrite addr ?ws ?bufs (cl, (sv, q)) =
      (Ok (length ?data, u32_le (of_nat (4 * length rs)) # map u32_le (fst ?w)), after bad cl (snd ?w) q)"
    using direct_comm_answer [OF _ _ _ h, of bad addr ?bufs cl q] assms(1) scatter_results [of "fst ?w" rs dnr_res]
    by (simp add: direct_reply_def Let_def)
  have "sumup_header SUMUP_DELDEVNOTE (length rs) (4 * length rs) (4 * length rs) = Ok ?hdr"
    using assms(1) by (simp add: sumup_header_def try_u32_def)
  moreover have "map2 (\<lambda>r b. r\<lparr>dnr_res := le_u32 b\<rparr>) rs (map u32_le (fst ?w)) = rs'"
    unfolding rs'_def by (auto intro!: nth_equalityI)
  ultimately show ?thesis
    using c unfolding delete_notification_multi_def
    by (simp add: ibind_def remove_handles_effect after_def next_request_def Let_def del: remove_handles.simps)
qed

section \<open>Write/reads\<close>

lemma length_concat_rw [simp]: "length (concat (map (\<lambda>r. index_length_rw_bytes (f r)) rs)) = 16 * length rs"
  by (induction rs) simp_all

lemma sub_requests_payload:
  fixes xs ys :: "write_read_request list"
  assumes "length hdr = 16"
    and "list_all (\<lambda>r. rw_write_length (wrr_req r) = of_nat (length (wrr_wbuf r)) \<and> length (wrr_wbuf r) < 4294967296) ys"
  shows "sub_requests (length xs) (16 + 16 * length (xs @ ys) + length (concat (map wrr_wbuf xs))) (length ys)
      (hdr @ concat (map (\<lambda>r. index_length_rw_bytes (wrr_req r)) (xs @ ys)) @ concat (map wrr_wbuf (xs @ ys))) =
    Ok (map (\<lambda>r. index_length_rw_bytes (wrr_req r) @ wrr_wbuf r) ys)"
  using assms
proof (induction ys arbitrary: xs)
  case (Cons y ys)
  let ?il = "\<lambda>r. index_length_rw_bytes (wrr_req r)"
  let ?data = "hdr @ concat (map ?il (xs @ y # ys)) @ concat (map wrr_wbuf (xs @ y # ys))"
  let ?woff = "16 + 16 * length (xs @ y # ys) + length (concat (map wrr_wbuf xs))"
  have h: "drop (16 + length xs * 16) ?data = ?il y @ concat (map ?il ys) @ concat (map wrr_wbuf (xs @ y # ys))"
    using Cons.prems(1) by simp
  have d: "drop ?woff ?data = wrr_wbuf y @ concat (map wrr_wbuf ys)"
    using Cons.prems(1) by (simp add: algebra_simps)
  have len: "length ?data = 16 + 16 * length (xs @ y # ys) + length (concat (map wrr_wbuf (xs @ y # ys)))"
    using Cons.prems(1) by simp
  have s1: "slice_of ?data (16 + length xs * 16) (16 + length xs * 16 + 16) = Ok (?il y)"
    using h len by (simp add: slice_of_def)
  have s2: "slice_of ?data (16 + length xs * 16 + 12) (16 + length xs * 16 + 16) = Ok (u32_le (of_nat (length (wrr_wbuf y))))"
  proof -
    have "drop (16 + length xs * 16 + 12) ?data = drop 12 (drop (16 + length xs * 16) ?data)"
      by (simp only: drop_drop add.commute)
    also have "\<dots> = u32_le (of_nat (length (wrr_wbuf y))) @ concat (map ?il ys) @ concat (map wrr_wbuf (xs @ y # ys))"
      unfolding h using Cons.prems(2) by (simp add: index_length_rw_bytes_def)
    finally show ?thesis using len by (simp add: slice_of_def)
  qed
  have s3: "slice_of ?data ?woff (?woff + length (wrr_wbuf y)) = Ok (wrr_wbuf y)" using d len by (simp add: slice_of_def)
  have n: "unat (le_u32 (u32_le (of_nat (length (wrr_wbuf y))))) = length (wrr_wbuf y)" using Cons.prems(2) by simp
  have ih: "sub_requests (Suc (length xs)) (?woff + length (wrr_wbuf y)) (length ys) ?data = Ok (map (\<lambda>r. ?il r @ wrr_wbuf r) ys)"
    using Cons.IH [of "xs @ [y]"] Cons.prems by (simp add: add.assoc)
  show ?case
    by (simp only: list.size sub_requests.simps s1 s2 s3 rbind.simps Let_def n ih rmap.simps list.map
        add_0_right add_Suc_right One_nat_def plus_1_eq_Suc)
qed simp

definition reply_answer :: "sreply \<Rightarrow> answer" where
  "reply_answer x = (snd x, drop 8 (fst x))"

lemma sumup_results_answers:
  assumes "list_all (\<lambda>x. length (fst x) < 4294967296) xs"
  shows "sumup_results xs = Ok (concat (map (\<lambda>x. result_length_bytes (answer_result (reply_answer x))) xs),
    concat (map (\<lambda>x. snd (reply_answer x)) xs))"
  using assms
proof (induction xs)
  case (Cons x xs)
  obtain d e where x: "x = (d, e)" by fastforce
  have "(if length d > 8 then len_minus_8 d else Ok 0) = Ok (of_nat (length d - 8) :: u32)"
  proof (cases "length d > 8")
    case True
    moreover have "\<not> (of_nat (length d) :: u32) < 8"
      using True unat_of_nat_u32 [of "length d"] Cons.prems by (simp add: x word_less_nat_alt)
    ultimately show ?thesis by (simp add: len_minus_8_def Let_def of_nat_diff)
  qed simp
  with Cons show ?case by (simp add: x result_length_bytes_def answer_result_def reply_answer_def)
qed simp

lemma direct_write_read_multi:
  assumes "list_all (\<lambda>r. rw_write_length (wrr_req r) = of_nat (length (wrr_wbuf r)) \<and> length (wrr_wbuf r) < 4294967296) rs"
    and "do_all sv (map (\<lambda>r. index_length_rw_bytes (wrr_req r) @ wrr_wbuf r) rs) = Ok (xs, sv')"
    and "list_all2 (\<lambda>x r. length (fst x) \<le> 8 + length (wrr_rbuf r)) xs rs"
    and "40 + sum_list (map (\<lambda>r. 8 + length (wrr_rbuf r)) rs) < 4294967296"
    and "48 + sum_list (map (\<lambda>r. 16 + length (wrr_wbuf r)) rs) < 4294967296"
  shows "\<exists>rs'. write_read_multi (direct_comm bad) addr rs (cl, (sv, q)) = (Ok rs', after bad cl sv' q) \<and>
    map write_read_request_data rs' = map (\<lambda>x. answer_data ''multi-read/write data'' (reply_answer x)) xs"
proof -
  let ?as = "map reply_answer xs" and ?bufs = "result_bufs_of wrr_res wrr_rbuf rs"
  let ?mr = "(concat (map (\<lambda>x. result_length_bytes (answer_result (reply_answer x))) xs), concat (map (\<lambda>x. snd (reply_answer x)) xs))"
  let ?n = "of_nat (length (fst ?mr) + length (snd ?mr)) :: u32"
  have n: "length rs * 16 \<le> sum_list (map (\<lambda>r. 16 + length (wrr_wbuf r)) rs)" by (induction rs) simp_all
  have "length (fst x) < 4294967296" if x: "x \<in> set xs" for x
  proof -
    obtain r where "r \<in> set rs" "length (fst x) \<le> 8 + length (wrr_rbuf r)"
      using assms(3) x by (metis in_set_conv_nth list_all2_conv_all_nth)
    with sum_list_member_le [of r rs "\<lambda>r. 8 + length (wrr_rbuf r)"] assms(4) show ?thesis by simp
  qed
  then have res: "sumup_results xs = Ok ?mr" by (intro sumup_results_answers) (simp add: list_all_iff)
  have total: "length (fst ?mr) + length (snd ?mr) \<le> sum_list (map (\<lambda>r. 8 + length (wrr_rbuf r)) rs)"
    using assms(3) by (induction xs rs rule: list_all2_induct) (auto simp: reply_answer_def)
  have pay: "length (concat (rw_payload rs)) = 16 + sum_list (map (\<lambda>r. 16 + length (wrr_wbuf r)) rs)"
    unfolding rw_payload_def by (induction rs) simp_all
  let ?hdr = "hd (rw_payload rs)"
  have cp: "concat (rw_payload rs) =
      ?hdr @ concat (map (\<lambda>r. index_length_rw_bytes (wrr_req r)) rs) @ concat (map wrr_wbuf rs)"
    by (simp add: rw_payload_def)
  have "length ?hdr = 16" by (simp add: rw_payload_def)
  then have sub: "sub_requests 0 (16 + length rs * 16) (length rs) (concat (rw_payload rs)) =
      Ok (map (\<lambda>r. index_length_rw_bytes (wrr_req r) @ wrr_wbuf r) rs)"
    unfolding cp using sub_requests_payload [OF _ assms(1), of ?hdr "[]"] by (simp add: mult.commute)
  have off: "le_u32 (take 4 (concat (rw_payload rs))) = SUMUP_READWRITE"
    "unat (le_u32 (take 4 (drop 4 (concat (rw_payload rs))))) = length rs"
    using n assms(5) by (simp_all add: rw_payload_def index_length_rw_bytes_def)
  have "do_read_write sv (concat (rw_payload rs)) = Ok ((sumup_data ?mr, 0), sv')"
    using pay by (subst do_read_write.simps) (simp add: off size_IndexLengthRW_def sub assms(2) res)
  then have h: "handle_request sv (command_code ReadWrite) (concat (rw_payload rs)) = Ok ((u32_le 0 @ sumup_rw_reply ?n ?as, 0), sv')"
    by (simp add: handle_request_def sumup_data_def sumup_rw_reply_def o_def)
  have len: "length (sumup_rw_reply ?n ?as) = 4 + (length (fst ?mr) + length (snd ?mr))"
    by (simp add: sumup_rw_reply_def o_def)
  have "fits (rw_payload rs)" using pay assms(5) by simp
  then have c: "direct_comm bad ReadWrite addr (rw_payload rs) ?bufs (cl, (sv, q)) =
      (Ok (length (sumup_rw_reply ?n ?as), scatter ?bufs (sumup_rw_reply ?n ?as)), after bad cl sv' q)"
    using direct_comm_answer [OF _ _ _ h, of bad addr ?bufs cl q] total assms(4) len
    by (simp add: direct_reply_def result_bufs_of_def Let_def)
  have "list_all2 (\<lambda>a r. length (snd a) \<le> length (wrr_rbuf r)) ?as rs"
    using assms(3) by (auto simp: reply_answer_def list_all2_conv_all_nth)
  from write_read_multi_answers [where comm = "direct_comm bad", OF c this] assms(4,5) show ?thesis by (simp add: o_def)
qed

end
