(* ===== verification/Ads_Tests.thy ===== *)
theory Ads_Tests
  imports Ads_Fixup Ads_Task_Info Ads_Replier Ads_Type_Builder
begin

text \<open>
  The tests of the crate, carried over to the model: each test function is a predicate with its
  data and its assertions, and holds.
\<close>

section \<open>Repair of buffers\<close>

definition test_fixup_requests :: "write_read_request list" where
  "test_fixup_requests = map (\<lambda>(n, t). (write_read_request_new 0 0 [] (bytes_of t))\<lparr>wrr_res := \<lparr>rl_result = 0, rl_length = n\<rparr>\<rparr>)
     [(8, ''12345678AB''), (6, ''CDEFabc''), (0, ''dxyUVW''), (4, ''XYZY''), (2, ''XW----''), (9, ''-------------'')]"

definition test_fixup_buffers :: bool where
  "test_fixup_buffers \<longleftrightarrow>
     (case fixup_write_read_return_buffers test_fixup_requests of
        Ok rs \<Rightarrow>
          take 9 (wrr_rbuf (rs ! 5)) = bytes_of ''UVWXYZYXW'' \<and>
          take 2 (wrr_rbuf (rs ! 4)) = bytes_of ''xy'' \<and>
          take 4 (wrr_rbuf (rs ! 3)) = bytes_of ''abcd'' \<and>
          take 6 (wrr_rbuf (rs ! 1)) = bytes_of ''ABCDEF'' \<and>
          take 8 (wrr_rbuf (rs ! 0)) = bytes_of ''12345678''
      | _ \<Rightarrow> False)"

lemma test_fixup_buffers_passes: test_fixup_buffers
  by code_simp

section \<open>Task telemetry\<close>

definition t_location :: "nat \<Rightarrow> task_info_location" where
  "t_location sz = \<lparr>tl_index_group = 0x4020, tl_index_offset = 100, tl_size = sz\<rparr>"

definition t_field :: "string \<Rightarrow> u32 \<Rightarrow> nat \<Rightarrow> u32 \<Rightarrow> field" where
  "t_field name offset sz base_type =
     \<lparr>fd_name = bytes_of name, fd_typ = bytes_of name, fd_offset = Some offset, fd_size = sz, fd_array = [],
      fd_base_type = base_type, fd_flags = 0, fd_comment = [], fd_attributes = None\<rparr>"

definition t_entry_type :: "bool \<Rightarrow> sym_type" where
  "t_entry_type with_name =
     \<lparr>ty_name = bytes_of ''PlcTaskSystemInfo'', ty_type_name = bytes_of ''PlcTaskSystemInfo'', ty_comment = [],
      ty_size = (if with_name then 96 else 32), ty_array = [],
      ty_fields =
        [t_field ''ObjId'' 0 4 19, t_field ''CycleTime'' 4 4 19, t_field ''Priority'' 8 2 18, t_field ''AdsPort'' 10 2 18,
         t_field ''CycleCount'' 12 4 19, t_field ''DcTaskTime'' 16 8 20, t_field ''LastExecTime'' 24 4 19,
         t_field ''FirstCycle'' 28 1 33, t_field ''CycleTimeExceeded'' 29 1 33,
         t_field ''InCallAfterOutputUpdate'' 30 1 33, t_field ''RTViolation'' 31 1 33] @
        (if with_name then [t_field ''TaskName'' 32 64 30] else []),
      ty_base_type = 65, ty_flags = 0, ty_guid = None, ty_methods = None, ty_attributes = None, ty_enum_info = None\<rparr>"

definition t_reader :: "nat \<Rightarrow> bool \<Rightarrow> task_info_reader res" where
  "t_reader sz with_name =
     rbind (from_entry_type (t_entry_type with_name)) (\<lambda>layout. reader_new default_addr 7 (t_location sz) (1, 1) layout)"

definition t_entry :: "nat \<Rightarrow> u32 \<Rightarrow> bytes" where
  "t_entry sz cycle_ticks =
     u32_le 0x01010010 @ u32_le cycle_ticks @ u16_le 20 @ u16_le 851 @ u32_le 42 @ u64_le 1234 @ u32_le 25000 @
     replicate (sz - 28) 0"

text \<open>\<open>metadata.fields.last_mut().unwrap().offset = ..\<close> and a slice of bytes that is overwritten.\<close>

definition set_last_offset :: "u32 option \<Rightarrow> sym_type \<Rightarrow> sym_type" where
  "set_last_offset ofs t =
     t\<lparr>ty_fields := butlast (ty_fields t) @ [(last (ty_fields t))\<lparr>fd_offset := ofs\<rparr>]\<rparr>"

definition overwrite :: "nat \<Rightarrow> bytes \<Rightarrow> bytes \<Rightarrow> bytes" where
  "overwrite i d b = take i b @ d @ drop (i + length d) b"

definition on_ok :: "('a, 'e) outcome \<Rightarrow> ('a \<Rightarrow> bool) \<Rightarrow> bool" where
  "on_ok r p \<longleftrightarrow> (case r of Ok x \<Rightarrow> p x | _ \<Rightarrow> False)"

definition is_err :: "('a, 'e) outcome \<Rightarrow> ('e \<Rightarrow> bool) \<Rightarrow> bool" where
  "is_err r p \<longleftrightarrow> (case r of Err e \<Rightarrow> p e | _ \<Rightarrow> False)"

primrec is_layout_error :: "error \<Rightarrow> bool" where
  "is_layout_error TaskInfoInvalidated = False"
| "is_layout_error (TaskInfoLayoutError r) = True"
| "is_layout_error (Io c e) = False"
| "is_layout_error (Ads c e i) = False"
| "is_layout_error (Reply c e i) = False"
| "is_layout_error Overflow = False"
| "is_layout_error (IoSync c e i) = False"
| "is_layout_error (OtherError c) = False"

definition documented_prefix_decodes :: bool where
  "documented_prefix_decodes \<longleftrightarrow>
     on_ok (rbind (t_reader 32 False) (\<lambda>r. decode_tasks r (t_entry 32 100000))) (\<lambda>ts.
       length ts = 1 \<and> ti_index (ts ! 0) = 1 \<and> ti_cycle_time (ts ! 0) = 10 * 10 ^ 6 \<and>
       ti_last_exec_time (ts ! 0) = 2500 * 10 ^ 3 \<and> ti_name (ts ! 0) = None)"

definition documented_name_is_decoded :: bool where
  "documented_name_is_decoded \<longleftrightarrow>
     on_ok (rbind (t_reader 96 True) (\<lambda>r. decode_tasks r (overwrite 32 (bytes_of ''FastTask'' @ [0]) (t_entry 96 100000))))
       (\<lambda>ts. length ts = 1 \<and> ti_name (ts ! 0) = Some (bytes_of ''FastTask''))"

definition plc_name_at_offset_64 :: bool where
  "plc_name_at_offset_64 \<longleftrightarrow>
     on_ok (rbind (from_entry_type (set_last_offset (Some 64) ((t_entry_type True)\<lparr>ty_size := 128\<rparr>))) (\<lambda>layout.
            rbind (reader_new default_addr 7 (t_location 256) (1, 2) layout) (\<lambda>r.
            decode_tasks r
              (overwrite 64 (bytes_of ''FastTask'' @ [0]) (overwrite 32 (replicate 32 0xff) (t_entry 128 10000)) @
               overwrite 64 (bytes_of ''SlowTask'' @ [0]) (t_entry 128 100000))))) (\<lambda>ts.
       length ts = 2 \<and> ti_index (ts ! 0) = 1 \<and> ti_name (ts ! 0) = Some (bytes_of ''FastTask'') \<and>
       ti_cycle_time (ts ! 0) = 10 ^ 6 \<and> ti_index (ts ! 1) = 2 \<and> ti_name (ts ! 1) = Some (bytes_of ''SlowTask'') \<and>
       ti_cycle_time (ts ! 1) = 10 * 10 ^ 6)"

definition rejects_invalid_task_name_offsets :: bool where
  "rejects_invalid_task_name_offsets \<longleftrightarrow>
     list_all (\<lambda>ofs. is_err (from_entry_type (set_last_offset ofs ((t_entry_type True)\<lparr>ty_size := 128\<rparr>))) is_layout_error)
       [None, Some 0, Some 31, Some 65, Some (- 1)]"

definition layout_requires_fields_and_bounds :: bool where
  "layout_requires_fields_and_bounds \<longleftrightarrow>
     \<not> is_ok (from_entry_type ((t_entry_type False)\<lparr>ty_fields := (hd (ty_fields (t_entry_type False)))\<lparr>fd_offset := Some 4\<rparr> #
       tl (ty_fields (t_entry_type False))\<rparr>)) \<and>
     on_ok (from_entry_type (t_entry_type True)) (\<lambda>layout.
       is_ok (reader_new default_addr 7 (t_location 96) (1, 1) layout) \<and>
       \<not> is_ok (reader_new default_addr 7 (t_location 96) (2, 1) layout)) \<and>
     on_ok (from_entry_type (t_entry_type False)) (\<lambda>legacy.
       \<not> is_ok (reader_new default_addr 7 (t_location 96) (1, 1) legacy))"

definition empty_slots_keep_index :: bool where
  "empty_slots_keep_index \<longleftrightarrow>
     on_ok (rbind (from_entry_type (t_entry_type False)) (\<lambda>layout.
            rbind (reader_new default_addr 7 (t_location 96) (1, 3) layout) (\<lambda>r.
            decode_tasks r (t_entry 32 100000 @ t_entry 32 0 @ t_entry 32 10000)))) (\<lambda>ts. map ti_index ts = [1, 2, 3])"

definition rejects_task_name_outside_entry :: bool where
  "rejects_task_name_outside_entry \<longleftrightarrow>
     list_all (\<lambda>n. is_err (from_entry_type ((t_entry_type True)\<lparr>ty_size := n\<rparr>)) is_layout_error) [32, 64, 95]"

definition is_reply_error :: "error \<Rightarrow> bool" where
  "is_reply_error e \<longleftrightarrow> (case e of Reply _ _ _ \<Rightarrow> True | _ \<Rightarrow> False)"

definition truncated_data_is_a_reply_error :: bool where
  "truncated_data_is_a_reply_error \<longleftrightarrow>
     is_err (rbind (t_reader 96 True) (\<lambda>r. decode_tasks r (replicate 95 0))) is_reply_error"

definition is_short_task :: "error \<Rightarrow> bool" where
  "is_short_task e \<longleftrightarrow> (case e of Io c io \<Rightarrow> c = ''decoding task info'' \<and> io_error_kind io = UnexpectedEof | _ \<Rightarrow> False)"

definition truncated_task_fields :: bool where
  "truncated_task_fields \<longleftrightarrow>
     list_all (\<lambda>n. is_err (decode_task (take n (t_entry 96 100000)) 1 None) is_short_task) [0..<TASK_PREFIX_SIZE] \<and>
     list_all (\<lambda>n. is_err (decode_task (take n (t_entry 96 100000)) 1 (Some 32)) is_short_task) [TASK_PREFIX_SIZE..<96] \<and>
     is_err (decode_task (t_entry 96 100000) 1 (Some (2 ^ 64 - 1))) is_short_task"

lemmas layout_eval = from_entry_type_def t_entry_type_def t_field_def required_fields_def TASK_PREFIX_SIZE_def
  TASK_NAME_SIZE_def task_name_field_ok_def checked_usize_def bytes_of_def set_last_offset_def

lemmas reader_eval = reader_new_def t_location_def checked_i32_def checked_usize_def in_i32_def MAX_TASK_INFO_SIZE_def

lemmas outcome_eval = on_ok_def is_err_def

lemma t_layouts:
  "from_entry_type (t_entry_type True) = Ok \<lparr>entry_size = 96, task_name_offset = Some 32\<rparr>"
  "from_entry_type (t_entry_type False) = Ok \<lparr>entry_size = 32, task_name_offset = None\<rparr>"
  "from_entry_type (set_last_offset (Some 64) ((t_entry_type True)\<lparr>ty_size := 128\<rparr>)) =
     Ok \<lparr>entry_size = 128, task_name_offset = Some 64\<rparr>"
  by (simp_all add: layout_eval)

lemma layout_tests_pass:
  rejects_invalid_task_name_offsets rejects_task_name_outside_entry
  by (simp_all add: rejects_invalid_task_name_offsets_def rejects_task_name_outside_entry_def layout_eval outcome_eval
      unsigned_minus_1_eq_mask mask_eq_exp_minus_1)

lemma layout_requires_passes: layout_requires_fields_and_bounds
proof -
  have "\<not> is_ok (from_entry_type ((t_entry_type False)\<lparr>ty_fields := (hd (ty_fields (t_entry_type False)))\<lparr>fd_offset := Some 4\<rparr> #
       tl (ty_fields (t_entry_type False))\<rparr>))"
    by (simp add: layout_eval)
  then show ?thesis by (simp add: layout_requires_fields_and_bounds_def t_layouts outcome_eval reader_eval)
qed

text \<open>The readers of the tests, and what they decode.\<close>

definition t_reader_of :: "ams_addr \<Rightarrow> nat \<Rightarrow> task_info_layout \<Rightarrow> task_info_reader" where
  "t_reader_of target sz layout =
     \<lparr>tr_target = target, tr_symbol_generation = 7, tr_task_info = t_location sz, tr_app_info = None, tr_layout = layout,
      tr_first_index = 1\<rparr>"

lemma t_readers:
  "reader_new a 7 (t_location 32) (1, 1) \<lparr>entry_size = 32, task_name_offset = None\<rparr> =
     Ok (t_reader_of a 32 \<lparr>entry_size = 32, task_name_offset = None\<rparr>)"
  "reader_new a 7 (t_location 96) (1, 1) \<lparr>entry_size = 96, task_name_offset = Some 32\<rparr> =
     Ok (t_reader_of a 96 \<lparr>entry_size = 96, task_name_offset = Some 32\<rparr>)"
  "reader_new a 7 (t_location 96) (1, 3) \<lparr>entry_size = 32, task_name_offset = None\<rparr> =
     Ok (t_reader_of a 96 \<lparr>entry_size = 32, task_name_offset = None\<rparr>)"
  "reader_new a 7 (t_location 256) (1, 2) \<lparr>entry_size = 128, task_name_offset = Some 64\<rparr> =
     Ok (t_reader_of a 256 \<lparr>entry_size = 128, task_name_offset = Some 64\<rparr>)"
  by (simp_all add: reader_eval t_reader_of_def)

lemma t_decode:
  assumes "layout_ok layout" and "length b = k * entry_size layout" and "k \<le> 3" and "sz = length b"
  shows "decode_tasks (t_reader_of a sz layout) b = Ok (map (\<lambda>i. task_spec (task_name_offset layout) (1 + of_nat i)
      (take (entry_size layout) (drop (i * entry_size layout) b))) [0..<k])"
  using decode_tasks_spec [of "t_reader_of a sz layout" k b] assms by (simp add: t_reader_of_def t_location_def)

lemma length_t_entry [simp]: "28 \<le> sz \<Longrightarrow> length (t_entry sz n) = sz"
  by (simp add: t_entry_def)

lemma length_overwrite [simp]: "i + length d \<le> length b \<Longrightarrow> length (overwrite i d b) = length b"
  by (simp add: overwrite_def)

text \<open>What the fields of an entry are, with and without a name written into it.\<close>

lemma task_spec_entry:
  "ti_cycle_time (task_spec nm i (t_entry sz n)) = unat n * 100"
  "ti_last_exec_time (task_spec nm i (t_entry sz n)) = 2500000"
  "ti_cycle_count (task_spec nm i (t_entry sz n)) = 42"
  "ti_name (task_spec None i b) = None" "ti_index (task_spec nm i b) = i"
  by (simp_all add: task_spec_def t_entry_def)

lemma task_spec_overwrite:
  assumes "32 \<le> k" and "k \<le> length b"
  shows "ti_cycle_time (task_spec nm i (overwrite k d b)) = ti_cycle_time (task_spec nm i b)"
proof -
  have "take 4 (drop 4 (overwrite k d b)) = take 4 (drop 4 b)" using assms
    by (auto simp: overwrite_def drop_take min_def)
  then show ?thesis by (simp add: task_spec_def)
qed

lemma task_spec_name:
  assumes "k + 64 \<le> length b" and "list_all (\<lambda>x. x \<noteq> 0 \<and> x < 128) name" and "length name < 64"
  shows "ti_name (task_spec (Some k) i (overwrite k (name @ [0]) b)) = Some name"
proof -
  have "64 - length name = Suc (63 - length name)" using assms(3) by simp
  then have "take 64 (drop k (overwrite k (name @ [0]) b)) = name @ 0 # take (63 - length name) (drop (k + length name + 1) b)"
    using assms(1,3) by (simp add: overwrite_def)
  moreover have "takeWhile (\<lambda>x. x \<noteq> 0) (name @ 0 # rest) = name" for rest :: bytes
    using assms(2) by (simp add: takeWhile_append2 list_all_iff)
  moreover have "utf8_lossy name = name" using assms(2) by (intro utf8_lossy_valid utf8_valid_ascii)
    (simp add: list_all_iff word_less_nat_alt)
  ultimately show ?thesis by (simp add: task_spec_def)
qed

lemma documented_prefix_passes: documented_prefix_decodes
  by (simp add: documented_prefix_decodes_def t_reader_def t_layouts t_readers outcome_eval task_spec_entry
      t_decode [where k = 1] layout_ok_def TASK_PREFIX_SIZE_def)

lemma documented_name_passes: documented_name_is_decoded
proof -
  have "length (bytes_of ''FastTask'') = 8" "list_all (\<lambda>x. x \<noteq> 0 \<and> x < 128) (bytes_of ''FastTask'')"
    by (simp_all add: bytes_of_def)
  then show ?thesis
    by (simp add: documented_name_is_decoded_def t_reader_def t_layouts t_readers outcome_eval task_spec_name
        t_decode [where k = 1] layout_ok_def TASK_PREFIX_SIZE_def TASK_NAME_SIZE_def)
qed

lemma empty_slots_passes: empty_slots_keep_index
  by (simp add: empty_slots_keep_index_def t_layouts t_readers outcome_eval task_spec_entry
      t_decode [where k = 3] layout_ok_def TASK_PREFIX_SIZE_def upt_conv_Cons)

lemma truncated_data_passes: truncated_data_is_a_reply_error
  unfolding truncated_data_is_a_reply_error_def t_reader_def t_layouts rbind.simps t_readers
  by (simp add: outcome_eval decode_tasks_def t_reader_of_def t_location_def is_reply_error_def)

lemma decode_task_short:
  "length b < 32 \<Longrightarrow> decode_task b i nm = Err (Io ''decoding task info'' (io_of_kind UnexpectedEof))"
  by (simp add: decode_task_def Let_def pbind_def rd_ifs)

lemma decode_task_no_name:
  assumes "32 \<le> length b" and "length b < ofs + 64"
  shows "decode_task b i (Some ofs) = Err (Io ''decoding task info'' (io_of_kind UnexpectedEof))"
proof -
  have bounds: "4 \<le> length b" "4 \<le> length b - 4" "2 \<le> length b - 8" "2 \<le> length b - 10"
    "4 \<le> length b - 12" "8 \<le> length b - 16" "4 \<le> length b - 24" "Suc 0 \<le> length b - 28"
    "Suc 0 \<le> length b - 29" "Suc 0 \<le> length b - 30" "Suc 0 \<le> length b - 31"
    using assms(1) by linarith+
  have "decode_task_name b (Some ofs) = Err (Io ''decoding task info'' (io_of_kind UnexpectedEof))"
    using assms(2) by (auto simp: decode_task_name_def TASK_NAME_SIZE_def)
  with bounds show ?thesis by (simp add: decode_task_def Let_def pbind_def rd_ifs)
qed

lemma truncated_fields_pass: truncated_task_fields
  by (simp add: truncated_task_fields_def list_all_iff TASK_PREFIX_SIZE_def decode_task_short decode_task_no_name outcome_eval
      is_short_task_def)

lemma plc_name_passes: plc_name_at_offset_64
proof -
  have "length (bytes_of ''FastTask'') = 8" "list_all (\<lambda>x. x \<noteq> 0 \<and> x < 128) (bytes_of ''FastTask'')"
    "length (bytes_of ''SlowTask'') = 8" "list_all (\<lambda>x. x \<noteq> 0 \<and> x < 128) (bytes_of ''SlowTask'')"
    by (simp_all add: bytes_of_def)
  then show ?thesis
    by (simp add: plc_name_at_offset_64_def t_layouts t_readers outcome_eval task_spec_name task_spec_overwrite
        task_spec_entry t_decode [where k = 2] layout_ok_def TASK_PREFIX_SIZE_def TASK_NAME_SIZE_def upt_conv_Cons)
qed

section \<open>Addresses\<close>

definition test_netid :: bool where
  "test_netid \<longleftrightarrow>
     (let netid = AmsNetId 5 123 8 9 1 1 in
      \<not> is_zero netid \<and>
      netid_display netid = bytes_of ''5.123.8.9.1.1'' \<and>
      netid = netid_from_ip (5, 123, 8, 9) 1 1 \<and>
      Some netid = netid_from_slice [5, 123, 8, 9, 1, 1] \<and>
      netid_from_slice (replicate 8 0) = None \<and>
      Ok netid = netid_from_str (bytes_of ''5.123.8.9.1.1'') \<and>
      Ok netid = netid_from_str (bytes_of ''5.123.8.9'') \<and>
      is_err (netid_from_str (bytes_of ''256.123.8.9.1.1'')) (\<lambda>_. True) \<and>
      is_err (netid_from_str (bytes_of ''blah'')) (\<lambda>_. True))"

definition test_addr :: bool where
  "test_addr \<longleftrightarrow>
     (let nid = AmsNetId 5 123 8 9 1 1; addr = AmsAddr nid 851; buf = addr_write_to addr in
      netid addr = nid \<and> port addr = 851 \<and>
      addr_display addr = bytes_of ''5.123.8.9.1.1:851'' \<and>
      buf = [5, 123, 8, 9, 1, 1, 0x53, 3] \<and>
      rmap fst (addr_read_from [] buf) = Ok addr \<and>
      Ok addr = addr_from_str (bytes_of ''5.123.8.9:851'') \<and>
      list_all (\<lambda>s. is_err (addr_from_str (bytes_of s)) (\<lambda>_. True))
        [''5.123.8.9.1.1:88851'', ''256.123.8.9.1.1:851'', ''5.123.8.9.1.1'', '':88851'', ''blah'', []])"

lemmas netid_eval = is_zero_def netid_display_def netid_from_ip_def netid_from_str_def parse_uint_def bytes_of_def is_err_def
  addr_display_def addr_from_str_def show_nat.simps

lemma u16_le_851: "u16_le 851 = [0x53, 3]"
proof -
  have "le_bytes (Suc (Suc 0)) 851 = [0x53, 3]" by simp
  then show ?thesis by (simp add: u16_le_def flip: numeral_2_eq_2)
qed

lemma netid_needs_six: "length s \<noteq> 6 \<Longrightarrow> netid_from_slice s = None"
  by (cases s rule: netid_from_slice.cases) simp_all

lemma test_netid_passes: test_netid
  by (simp add: test_netid_def netid_eval netid_needs_six)

lemma test_addr_passes: test_addr
  unfolding test_addr_def Let_def using addrc.dec_enc_all [of "[]" "AmsAddr (AmsNetId 5 123 8 9 1 1) 851"]
  by (intro conjI; simp add: netid_eval) (simp add: addr_write_to_def u16_le_851)

section \<open>UDP\<close>

definition test_udp :: "bool \<Rightarrow> io_error \<Rightarrow> bool" where
  "test_udp ovf expired \<longleftrightarrow>
     (let env = replier_env ovf expired; tgt_netid = AmsNetId 1 2 3 4 5 6 in
      get_netid env = Ok tgt_netid \<and>
      on_ok (udp_get_info env) (\<lambda>info.
        si_hostname info = bytes_of ''box'' \<and> si_netid info = tgt_netid \<and> si_twincat_version info = (4, 1, 7) \<and>
        si_os_version info = (''Windows NT'', 5, 8, 9, bytes_of ''Test'')) \<and>
      is_ok (add_route ovf env tgt_netid (bytes_of ''a'') (Some (bytes_of ''route'')) None None False) \<and>
      is_err (add_route ovf env tgt_netid (bytes_of ''a'') None None None False) (\<lambda>_. True))"

lemma test_udp_passes: "test_udp ovf expired"
  using requests_answered [of "bytes_of ''a''" None None "Some (bytes_of ''route'')" ovf expired]
    requests_answered [of "bytes_of ''a''" None None None ovf expired]
  by (simp add: test_udp_def outcome_eval is_ok_def bytes_of_def ads_error_map_of)

section \<open>Types\<close>

definition field_entry :: "string \<Rightarrow> string \<Rightarrow> u32 \<Rightarrow> u32 \<Rightarrow> u32 \<Rightarrow> type_entry_builder" where
  "field_entry name type_name sz offset base_type =
     \<lparr>tb_name = bytes_of name, tb_type_name = bytes_of type_name, tb_comment = [], tb_size = sz, tb_offset = offset,
      tb_base_type = base_type, tb_flags = 1, tb_array_dims = [], tb_sub_items = []\<rparr>"

definition struct_entry :: "bool \<Rightarrow> bytes res" where
  "struct_entry ovf =
     rbind (build_type_entry ovf (field_entry ''bFlag'' ''BOOL'' 1 0 33)) (\<lambda>field_bflag.
     rbind (build_type_entry ovf (field_entry ''nValue'' ''INT'' 2 2 2)) (\<lambda>field_nvalue.
     build_type_entry ovf
       \<lparr>tb_name = bytes_of ''ST_Test'', tb_type_name = [], tb_comment = [], tb_size = 4, tb_offset = 0, tb_base_type = 65,
        tb_flags = 1, tb_array_dims = [], tb_sub_items = [field_bflag, field_nvalue]\<rparr>))"

definition decode_struct_type_from_bytes :: "bool \<Rightarrow> bool" where
  "decode_struct_type_from_bytes ovf \<longleftrightarrow>
     on_ok (rbind (struct_entry ovf) (decode_symbol_info ovf [])) (\<lambda>(symbols, type_map).
       symbols = [] \<and> card (dom type_map) = 1 \<and>
       (case type_map (bytes_of ''ST_Test'') of
          None \<Rightarrow> False
        | Some ty \<Rightarrow>
            ty_name ty = bytes_of ''ST_Test'' \<and> ty_type_name ty = [] \<and> ty_size ty = 4 \<and> ty_base_type ty = 65 \<and>
            ty_flags ty = 1 \<and> ty_array ty = [] \<and> length (ty_fields ty) = 2 \<and>
            (let f0 = ty_fields ty ! 0; f1 = ty_fields ty ! 1 in
             fd_name f0 = bytes_of ''bFlag'' \<and> fd_typ f0 = bytes_of ''BOOL'' \<and> fd_offset f0 = Some 0 \<and> fd_size f0 = 1 \<and>
             fd_base_type f0 = 33 \<and>
             fd_name f1 = bytes_of ''nValue'' \<and> fd_typ f1 = bytes_of ''INT'' \<and> fd_offset f1 = Some 2 \<and> fd_size f1 = 2 \<and>
             fd_base_type f1 = 2)))"

lemma decode_struct_passes: "decode_struct_type_from_bytes ovf"
proof -
  have assoc: "rbind (rbind m f) g = rbind m (\<lambda>x. rbind (f x) g)" "rbind (rmap h m) k = rbind m (\<lambda>x. k (h x))"
    for m :: "bytes res" and f :: "bytes \<Rightarrow> bytes list res" and g :: "bytes list \<Rightarrow> bytes res" and h and k :: "bytes list \<Rightarrow> bytes res"
    by (cases m; simp)+
  have "rmap h (rbind m (\<lambda>b. Ok [b])) = rmap (\<lambda>b. h [b]) m" for m :: "bytes res" and h :: "bytes list \<Rightarrow> bytes list"
    by (cases m) simp_all
  with assoc have "struct_entry ovf = build_struct ovf 0 st_test"
    by (simp add: struct_entry_def build_struct_def st_test_def field_entry_def head_builder_def field_head_def field_bflag_def
        field_nvalue_def entry_head_def entry_of_def)
  then show ?thesis
    using built_struct_decoded [OF st_test_plain st_test_wf, of ovf]
    by (auto simp: decode_struct_type_from_bytes_def outcome_eval st_test_def field_bflag_def field_nvalue_def)
qed

end
