(* ===== verification/Ads_Client_Tests.thy ===== *)
theory Ads_Client_Tests
  imports Ads_Direct_Multi Ads_Sim_Tasks Ads_Strings Ads_Tests "HOL-Library.AList"
begin

text \<open>
  The tests of the client (\<open>src/test/test_client.rs\<close> and the one of \<open>src/task_info.rs\<close> that needs a
  device) as programs. A failed assertion or \<open>unwrap\<close> is \<open>Panic\<close>. Each program runs over any way to
  communicate: it is evaluated on the device called directly, and by refinement passes on the whole
  stack of client, frames, reader thread and simulated device.
\<close>

section \<open>Programs with assertions\<close>

text \<open>\<open>assert!\<close>; \<open>assert!(..is_err())\<close>.\<close>

definition asserting :: "bool \<Rightarrow> ('s, unit, 'e) io" where
  "asserting b = (if b then iret () else ilift Panic)"

definition fails :: "('s, 'a, 'e) io \<Rightarrow> ('e \<Rightarrow> bool) \<Rightarrow> ('s, unit, 'f) io" where
  "fails m p = ibind (attempt m) (\<lambda>r. asserting (is_err r p))"




section \<open>Information, state, memory\<close>




section \<open>Sum-up requests\<close>


section \<open>Files and symbols\<close>

text \<open>
  \<open>write_all\<close> and \<open>read_to_end\<close> of the standard library: writes until the buffer is used up, reads until a
  read returns nothing. Interrupted calls are repeated; the sizes of the buffers that \<open>read_to_end\<close>
  takes are a parameter. \<open>fuel\<close> bounds the calls; when it runs out the test has failed.
\<close>

record std_io =
  std_text :: "io_error \<Rightarrow> string"
  std_interrupted :: "io_error \<Rightarrow> bool"
  std_chunk :: "nat \<Rightarrow> nat"

primrec file_write_all :: "std_io \<Rightarrow> 'w comm \<Rightarrow> ams_addr \<Rightarrow> u32 \<Rightarrow> nat \<Rightarrow> bytes \<Rightarrow> ('w conn, unit, io_error) io" where
  "file_write_all ps comm addr hdl 0 buf = ilift Panic"
| "file_write_all ps comm addr hdl (Suc fuel) buf =
     (if buf = [] then iret ()
      else ibind (attempt (file_write (std_text ps) comm addr hdl buf)) (\<lambda>r.
        case r of
          Ok n \<Rightarrow>
            if n = 0 then ilift (Err (IoError OtherKind (Some ''failed to write whole buffer'')))
            else if n > length buf then ilift Panic
            else file_write_all ps comm addr hdl fuel (drop n buf)
        | Err e \<Rightarrow> if std_interrupted ps e then file_write_all ps comm addr hdl fuel buf else ilift (Err e)
        | Panic \<Rightarrow> ilift Panic))"

primrec read_to_end :: "std_io \<Rightarrow> 'w comm \<Rightarrow> ams_addr \<Rightarrow> u32 \<Rightarrow> nat \<Rightarrow> bytes \<Rightarrow> ('w conn, bytes, io_error) io" where
  "read_to_end ps comm addr hdl 0 vec = ilift Panic"
| "read_to_end ps comm addr hdl (Suc fuel) vec =
     ibind (attempt (file_read (std_text ps) comm addr hdl (replicate (std_chunk ps (length vec)) 0))) (\<lambda>r.
       case r of
         Ok x \<Rightarrow>
           if fst x > length (snd x) then ilift Panic
           else if fst x = 0 then iret vec
           else read_to_end ps comm addr hdl fuel (vec @ take (fst x) (snd x))
       | Err e \<Rightarrow> if std_interrupted ps e then read_to_end ps comm addr hdl fuel vec else ilift (Err e)
       | Panic \<Rightarrow> ilift Panic)"



section \<open>Notifications\<close>

text \<open>
  \<open>chan.try_recv()\<close> followed by the iteration over the samples of the notification; an empty queue is an
  error. \<open>recv\<close> is a parameter of the tests.
\<close>

definition sim_recv :: "(sim conn, sample list, unit) io" where
  "sim_recv s =
     (case s of (cl, (sv, ns)) \<Rightarrow>
        (case ns of
           [] \<Rightarrow> (Err (), s)
         | n # ns' \<Rightarrow> (case rbind (notification_samples n) samples_collect of Ok ss \<Rightarrow> Ok ss | _ \<Rightarrow> Panic, (cl, (sv, ns')))))"





section \<open>Strings\<close>







section \<open>Task telemetry\<close>





section \<open>A device that misbehaves\<close>




section \<open>Running a test\<close>


section \<open>From the direct device to the whole stack\<close>

definition direct_recv :: "(adev conn, sample list, unit) io" where
  "direct_recv s = (case s of (cl, (sv, q)) \<Rightarrow> (case q of [] \<Rightarrow> (Err (), s) | ss # q' \<Rightarrow> (Ok ss, (cl, (sv, q')))))"

lemma refines_recv [refine]: "refines sim_recv direct_recv"
proof (rule refinesI)
  fix s t r t'
  assume rel: "sim_rel s t" and d: "direct_recv t = (r, t')"
  obtain cl sv ns where s: "s = (cl, (sv, ns))" by (metis prod_cases3)
  obtain q where t: "t = (cl, (sv, q))" using rel by (cases t) (auto simp: s sim_rel_def)
  show "\<exists>s'. sim_recv s = (r, s') \<and> sim_rel s' t'"
    using rel d by (cases ns; cases q) (auto simp: s t sim_rel_def sim_recv_def direct_recv_def)
qed

lemma refines_unwrapped [refine]:
  assumes "refines m f"
  shows "refines (unwrapped m) (unwrapped f)"
proof (rule refinesI, goal_cases)
  case (1 s t r t')
  obtain x t1 where f: "f t = (x, t1)" by (metis surj_pair)
  with 1 obtain y where x: "x = Ok y" "r = Ok y" "t1 = t'" by (auto simp: unwrapped_def split: outcome.splits)
  then have "x \<noteq> Panic" by simp
  then obtain s' where "m s = (x, s')" "sim_rel s' t1" by (rule refinesE [OF assms 1(1) f])
  with x show ?case by (simp add: unwrapped_def)
qed

lemma refines_asserting [refine]: "refines (asserting b) (asserting b)"
  unfolding asserting_def by (intro refine)

lemma refines_fails [refine]: "refines m f \<Longrightarrow> refines (fails m p) (fails f p)"
  unfolding fails_def by (intro refine)

lemma refines_files [refine]:
  "refines (file_write_all ps (sim_comm fin bad) addr hdl fuel buf) (file_write_all ps (direct_comm bad) addr hdl fuel buf)"
  "refines (read_to_end ps (sim_comm fin bad) addr hdl fuel vec) (read_to_end ps (direct_comm bad) addr hdl fuel vec)"
proof -
  show "refines (file_write_all ps (sim_comm fin bad) addr hdl fuel buf) (file_write_all ps (direct_comm bad) addr hdl fuel buf)"
  proof (induction fuel arbitrary: buf)
    case (Suc fuel)
    show ?case unfolding file_write_all.simps by (intro refine Suc)
  qed (simp add: refine)
  show "refines (read_to_end ps (sim_comm fin bad) addr hdl fuel vec) (read_to_end ps (direct_comm bad) addr hdl fuel vec)"
  proof (induction fuel arbitrary: vec)
    case (Suc fuel)
    show ?case unfolding read_to_end.simps by (intro refine Suc)
  qed (simp add: refine)
qed

lemma refines_task_info [refine]:
  "refines (task_info_read r (sim_comm fin bad) addr g) (task_info_read r (direct_comm bad) addr g)"
proof -
  have "refines (read_app_task_count (sim_comm fin bad) addr app) (read_app_task_count (direct_comm bad) addr app)" for app
    unfolding read_app_task_count_def by (intro refine)
  then show ?thesis unfolding task_info_read_def by (cases "tr_app_info r"; simp only: option.case; intro refine)
qed



section \<open>The tests on the direct device\<close>


lemmas device_eval = device_place_def device_fetch_def device_store_def sim_groups server_init_def server_ok_defs

lemma next_request_handles [simp]: "notif_handles (next_request cl) = notif_handles cl"
  by (simp add: next_request_def)








lemma u16_units_le [simp]: "u16_units (u16_le w @ bs) = w # u16_units bs" "u16_units (u16_le w) = [w]"
proof -
  have "length (u16_le w) = Suc (Suc 0)" by simp
  then obtain a b where ab: "u16_le w = [a, b]" unfolding length_Suc_conv by blast
  then have "le_u16 [a, b] = w" using le_u16_u16_le [of w] by simp
  with ab show "u16_units (u16_le w @ bs) = w # u16_units bs" "u16_units (u16_le w) = [w]" by simp_all
qed











section \<open>Files\<close>



lemma server_init_file [simp]:
  "sv_file_ptr server_init = None" "server_ok (server_init\<lparr>sv_file_ptr := Some (True, n)\<rparr>)"
  "server_ok (server_init\<lparr>sv_file_ptr := Some (False, 0)\<rparr>)"
  by (simp_all add: device_eval)



section \<open>Sum-up requests\<close>








section \<open>The suite\<close>









end
