(* ===== verification/Spec2Isabelle.thy ===== *)
theory Spec2Isabelle
  imports Ads_Session Ads_Device Ads_Udp Ads_Strings Ads_File Ads_Tables Ads_Task_Info Ads_Tool_Run Ads_Sim
    Ads_Utilisation Ads_Replier Ads_Type_Builder Ads_Sim_Files Ads_Sim_Tasks Ads_Examples Ads_Client_Tests
begin

text \<open>
  A model of \<open>ads-rs\<close>, a client library for the ADS protocol of TwinCAT systems, and of its command
  line tool, with the theorems that make them correct.

  \<^bold>\<open>The program.\<close> A \<open>Client\<close> (\<open>src/client.rs\<close>) owns a TCP connection to an ADS router. A call of
  \<open>communicate\<close> takes the next invoke ID, records a one-shot channel under it in the map of
  pending requests, writes one frame and waits on the channel. A reader thread takes frames from the
  socket, hands replies to the channel recorded under their invoke ID and notifications
  (\<open>src/notif.rs\<close>) to a queue; when it ends it sends its error to every call that still waits. A
  \<open>Device\<close> builds the requests of the protocol on \<open>communicate\<close>, single ones and sum-up requests
  that carry many at once. On top of it stand handles, symbols and types (\<open>src/symbol.rs\<close>),
  files (\<open>src/file.rs\<close>) and task telemetry (\<open>src/task_info.rs\<close>). Besides, \<open>src/udp.rs\<close> talks to a router over
  UDP, \<open>src/strings.rs\<close> has fixed-length strings and \<open>examples/adstool.rs\<close> is a tool that
  makes all of this available as commands.

  \<^bold>\<open>Theories and code.\<close>
  \<^item> \<open>Ads_Prelude\<close>: machine integers as words, the outcomes of a Rust function (\<open>Ok\<close>, \<open>Err\<close>, \<open>Panic\<close>) with
    their monads: \<open>rbind\<close> for results, \<open>pbind\<close> for readers of a byte slice, \<open>ibind\<close> for operations
    on a state; bytes and little-endian numbers; the locale \<open>transition_system\<close>.
  \<^item> \<open>Ads_Errors\<close> (\<open>errors.rs\<close>), \<open>Ads_Codec\<close> (the readers of \<open>byteorder\<close>; the locales \<open>cursor\<close>,
    \<open>codec\<close>, \<open>canonical_codec\<close>, \<open>checker\<close>), \<open>Ads_Netid\<close> (\<open>netid.rs\<close>), \<open>Ads_Index\<close> (\<open>index.rs\<close>, \<open>ports.rs\<close>).
  \<^item> \<open>Ads_Wire\<close>: the structures of \<open>client.rs\<close> with their byte layout. \<open>Ads_Fixup\<close>: the
    distribution of a reply over the buffers of the caller and \<open>fixup_write_read_return_buffers\<close>.
  \<^item> \<open>Ads_Notif\<close> (\<open>notif.rs\<close>), \<open>Ads_Reader\<close> (\<open>ClientReceiver\<close>), \<open>Ads_Client\<close> (\<open>Client::new\<close>,
    \<open>communicate\<close>; the locale \<open>transport\<close> is what the layers above rely on), \<open>Ads_Session\<close>
    (calls and reader thread interleaved, as the step relation \<open>session_step\<close>), \<open>Ads_Device\<close> (\<open>Device\<close>, the
    request structures, \<open>Drop for Client\<close>).
  \<^item> \<open>Ads_Text\<close> (the text handling of the standard library), \<open>Ads_Strings\<close> (\<open>strings.rs\<close>), \<open>Ads_Udp\<close>
    (\<open>udp.rs\<close>), \<open>Ads_File\<close> (\<open>file.rs\<close>), \<open>Ads_Symbol\<close> (\<open>symbol.rs\<close>), \<open>Ads_Tables\<close> (the format that
    \<open>symbol.rs\<close> decodes, as an encoder; the locales \<open>parser_codec\<close> and \<open>framed\<close>), \<open>Ads_Task_Info\<close>
    (\<open>task_info.rs\<close>). \<open>Ads_Float\<close> has the rounding of rationals to single precision, \<open>Ads_Utilisation\<close> the
    method \<open>utilisation\<close> of \<open>task_info.rs\<close> on top of it.
  \<^item> \<open>Ads_Tool_Data\<close>, \<open>Ads_Tool\<close>, \<open>Ads_Tool_Run\<close>: the values, the commands and the runs of
    \<open>examples/adstool.rs\<close>.
  \<^item> \<open>Ads_Server\<close>: the simulated device of the test suite (\<open>src/test/mod.rs\<close>) with all its handlers; joined
    with the reader thread it is the network \<open>sim_net\<close>. \<open>Ads_Sim\<close>: the client against it, through
    all layers; the locale \<open>plc_memory\<close> is the contract of a device with a memory, and the
    simulated device provides it. \<open>Ads_Sim_Files\<close> (files and sum-up reads) and \<open>Ads_Sim_Tasks\<close> (task
    telemetry, over \<open>plc_memory\<close>) continue it.
  \<^item> \<open>Ads_Direct\<close>: the same device called directly, without frames, invoke IDs and reader thread (\<open>direct_comm\<close>),
    and the relation \<open>refines\<close> between a program of client operations on the whole stack and on this machine.
    \<open>Ads_Direct_Ops\<close> and \<open>Ads_Direct_Multi\<close> have one equation per operation of \<open>Device\<close> on the direct device,
    single and sum-up. \<open>Ads_Client_Tests\<close>: the tests of \<open>src/test/test_client.rs\<close> as programs, evaluated on the
    direct device and carried over to the whole stack.
  \<^item> \<open>Ads_Replier\<close>: the UDP service of the test suite (\<open>src/test/test_udp.rs\<close>) with the requests of
    \<open>udp.rs\<close> against it. \<open>Ads_Type_Builder\<close>: the encoder of type entries in \<open>src/test/test_symbol.rs\<close>.
    \<open>Ads_Examples\<close>: the programs \<open>notify.rs\<close>, \<open>values_via_handle.rs\<close>, \<open>timing.rs\<close> and \<open>timing_server.rs\<close>
    under \<open>examples/\<close>. \<open>Ads_Tests\<close>: the tests of addresses, UDP requests, types, buffer repair and task layouts as
    predicates on the model that hold.

  The state of a \<open>Client\<close> is the record \<open>client\<close>; an operation on a connection maps a client and the
  state of the network to an outcome and the new ones. The network is a parameter \<open>net\<close> that
  says for every frame written what arrives on the channel of the call. The reader thread is
  treated twice: as a function of all the bytes of the socket (\<open>Ads_Reader\<close>) and in small steps beside
  any number of calls (\<open>Ads_Session\<close>); \<open>communicate\<close> sees of it what the channel delivers.

  \<^bold>\<open>What is proved.\<close>
  \<^item> Wire formats: every structure, address, UDP message, notification, symbol and type table is
    decoded to what was encoded, and the decoders are characterised where they fail or panic.
  \<^item> Requests: a call writes exactly one well-formed frame, or nothing; a successful \<open>communicate\<close> means a matching, error-free reply to exactly the frame
    written; the pending map is left as found, with one exception that is stated; sum-up
    requests give every single request its own result. The in-place repair of their buffers refines
    a reference that cuts the packed data into pieces.
  \<^item> Reader thread and concurrency: replies are handed over once, in order and to the call with
    their invoke ID; when the thread has ended no call is left waiting. The invariants of
    \<open>session_step\<close> hold in every reachable state.
  \<^item> Notifications: a validated message has exactly the samples its iterator returns, with no failing
    \<open>unwrap\<close>; whatever arrives on the socket, all messages that the reader thread has queued can be
    printed. Notification handles are recorded and forgotten as the device grants and confirms,
    and all are deleted when a client is dropped.
  \<^item> Symbols, files, telemetry: uploads are decoded completely and every text in them is valid UTF-8, a
    listing has the name, attributes and size of every entry of the directory and ends when the device ends it, layouts are validated before a task is decoded; the
    utilisation computed in single precision is the exact quotient up to a stated relative error.
  \<^item> Tool: values, targets and requests survive their conversion to text or bytes and back; listings
    print what the device reports; a run gives the port it requested back, however it ends.
  \<^item> End to end: against the simulated device, client and reader thread together refine a plain byte
    array under reads, writes, sum-up reads and sum-up writes, a file is read in its entirety, task telemetry
    is read off the device's memory, every request made while a notification is in place delivers one sample
    with the bytes after the request, the device keeps its invariant (memory, notification, the position of
    a file open for reading; that of a file open for writing is unbounded in the code), and each way in which it can misbehave ends a call with the
    error meant for it. The UDP requests get from the service of the test suite what it means to
    answer, and what the encoder of the test suite builds is the specified table format.
  \<^item> Transparency: for every sequence of requests, client, frames, invoke IDs, reader thread and notification
    queue give what direct calls of the handlers of the device give, errors included, as long as no handler
    panics and every answer fits a frame; from this every test of the client passes, those with a misbehaving device included.
  \<^item> Examples: the client of \<open>timing.rs\<close> panics against the server that is meant for it.

  \<^bold>\<open>Conventions.\<close> Code outside the repository is a parameter: the operating system (\<open>os_env\<close>, \<open>udp_env\<close>), the
  texts of I/O errors, and for the tool the crates for integers, dates, XML, Unicode
  lower case and digits and the order of a hash map. The flag \<open>ovf\<close> is the build profile: with it arithmetic
  overflow panics, without it it wraps. A loop that only the peer can end is a \<open>partial_function\<close> to
  an option, where \<open>None\<close> means that it does not return; such a loop has a theorem that it
  returns when the peer ends it. All other loops are total functions with a measure. Fuel is used
  in two places only, the \<open>write_all\<close> and \<open>read_to_end\<close> that \<open>test_fileaccess\<close> calls: running out of it counts as
  a failed test, and 4 calls for four bytes, 889 for the 888 bytes of the file are enough, as the test
  passes for every positive 32-bit size of the buffers that \<open>read_to_end\<close> takes (\<open>std_io\<close>). A panic has no value: text printed before a panic within the same printing step of
  the tool is not kept.

  \<^bold>\<open>Not modelled.\<close> Sockets, threads, locks (poisoned ones included), channels and allocation themselves; the other \<open>Debug\<close> instances (those of
  notifications, samples, ADS states and, without the quotation, of fixed-length strings are modelled); the
  parsing of command line arguments by \<open>clap\<close> and failures of standard output; the times that \<open>timing.rs\<close> measures and the text of floating point numbers;
  in the tests the printing of values and the branch for macOS in \<open>test_timeout\<close>.
\<close>

section \<open>Sum-up requests from end to end\<close>

text \<open>
  C1. A sum-up write/read over a connection: when the device answers every single request with
  a result code and at most as many bytes as its buffer has room for, packed one after another
  as the protocol prescribes, the call succeeds and every request then reports its own result,
  the error of its code or exactly its own bytes.
\<close>

theorem write_read_multi_correct:
  assumes "list_all2 (\<lambda>a r. length (snd a) \<le> length (wrr_rbuf r)) as rs"
    and "sum_list (map (\<lambda>r. 8 + length (wrr_rbuf r)) rs) < 2 ^ 32"
    and "32 + length (concat (rw_payload rs)) < 2 ^ 32"
    and "net w (request_bytes cl ReadWrite addr (rw_payload rs)) =
      (Sent (RecvReply h (u32_le 0 @ sumup_rw_reply n as)), w')"
    and "reply_to ReadWrite addr (invoke_id cl) h"
  shows "\<exists>rs'. write_read_multi (communicate net) addr rs (cl, w) = (Ok rs', (next_request cl, w')) \<and>
    map write_read_request_data rs' = map (answer_data ''multi-read/write data'') as"
proof -
  let ?bufs = "result_bufs_of wrr_res wrr_rbuf rs"
  have "room_for ?bufs (sumup_rw_reply n as)"
    by (simp add: room_for_def result_bufs_of_def sumup_rw_reply_def)
  then have c: "communicate net ReadWrite addr (rw_payload rs) ?bufs (cl, w) =
      (Ok (length (sumup_rw_reply n as), scatter ?bufs (sumup_rw_reply n as)), (next_request cl, w'))"
    using communicate_reply [where net = net and w = w, OF _ assms(4,5), of ?bufs] assms(3)
    by (simp add: result_bufs_of_def)
  have "sum_list (map (\<lambda>r. 16 + length (wrr_wbuf r)) rs) \<le> length (concat (rw_payload rs))"
    by (induction rs) (simp_all add: rw_payload_def)
  with assms(3) have "sum_list (map (\<lambda>r. 16 + length (wrr_wbuf r)) rs) < 4294967296" by simp
  with write_read_multi_answers [where comm = "communicate net", OF c assms(1)] assms(2) show ?thesis by simp
qed

definition demo_rw_requests :: "write_read_request list" where
  "demo_rw_requests = [write_read_request_new 1 2 [5] [0, 0, 0], write_read_request_new 3 4 [] [0, 0]]"

theorem write_read_multi_correct_witness:
  "\<exists>rs'. write_read_multi (communicate (demo_net ReadWrite (u32_le 0 @ sumup_rw_reply 19 [(0, [7]), (0, [8, 9])])))
      demo_addr demo_rw_requests (demo_client, ()) = (Ok rs', (next_request demo_client, ())) \<and>
    map write_read_request_data rs' = [Ok [7], Ok [8, 9]]"
proof -
  have "list_all2 (\<lambda>a r. length (snd a) \<le> length (wrr_rbuf r)) [(0 :: u32, [7]), (0, [8, 9])] demo_rw_requests"
    by (simp add: demo_rw_requests_def write_read_request_new_def)
  moreover have "sum_list (map (\<lambda>r. 8 + length (wrr_rbuf r)) demo_rw_requests) < 2 ^ 32"
    "32 + length (concat (rw_payload demo_rw_requests)) < 2 ^ 32"
    by (simp_all add: demo_rw_requests_def write_read_request_new_def rw_payload_def)
  ultimately show ?thesis
    using write_read_multi_correct [of "[(0, [7]), (0, [8, 9])]" demo_rw_requests
        "demo_net ReadWrite (u32_le 0 @ sumup_rw_reply 19 [(0, [7]), (0, [8, 9])])" "()" demo_client demo_addr
        "demo_header ReadWrite" 19 "()"] demo_reply [of ReadWrite]
    by (simp add: demo_net_def answer_data_def)
qed

text \<open>
  C10. A sum-up read over a connection: when the device answers every single read with a result
  code and as many bytes as were asked for, of which the first ones are valid, every request
  then reports its own result, the error of its code or exactly its valid bytes.
\<close>

theorem read_multi_correct:
  assumes "list_all2 (\<lambda>(a, pad) r. length (snd a) + length pad = length (rr_rbuf r)) (zip as pads) rs"
    and "length pads = length as"
    and "sum_list (map (\<lambda>r. 8 + length (rr_rbuf r)) rs) < 2 ^ 32"
    and "32 + length (concat (read_payload rs)) < 2 ^ 32"
    and "net w (request_bytes cl ReadWrite addr (read_payload rs)) =
      (Sent (RecvReply h (u32_le 0 @ sumup_read_reply n as pads)), w')"
    and "reply_to ReadWrite addr (invoke_id cl) h"
  shows "\<exists>rs'. read_multi (communicate net) addr rs (cl, w) = (Ok rs', (next_request cl, w')) \<and>
    map read_request_data rs' = map (answer_data ''multi-read data'') as"
proof -
  let ?bufs = "result_bufs_of rr_res rr_rbuf rs"
  have "room_for ?bufs (sumup_read_reply n as pads)"
    by (simp add: room_for_def result_bufs_of_def sumup_read_reply_def)
  then have c: "communicate net ReadWrite addr (read_payload rs) ?bufs (cl, w) =
      (Ok (length (sumup_read_reply n as pads), scatter ?bufs (sumup_read_reply n as pads)),
       (next_request cl, w'))"
    using communicate_reply [where net = net and w = w, OF _ assms(5,6), of ?bufs] assms(4)
    by (simp add: result_bufs_of_def)
  have "12 * length rs \<le> length (concat (read_payload rs))"
    by (induction rs) (simp_all add: read_payload_def)
  with assms(4) have "12 * length rs < 4294967296" by simp
  with read_multi_answers [where comm = "communicate net", OF c assms(1,2)] assms(3) show ?thesis by simp
qed

definition demo_read_requests :: "read_request list" where
  "demo_read_requests = [read_request_new 1 2 [0, 0, 0], read_request_new 3 4 [0, 0]]"

theorem read_multi_correct_witness:
  "\<exists>rs'. read_multi (communicate (demo_net ReadWrite (u32_le 0 @
        sumup_read_reply 21 [(0, [7]), (0, [8, 9])] [[0, 0], []])))
      demo_addr demo_read_requests (demo_client, ()) = (Ok rs', (next_request demo_client, ())) \<and>
    map read_request_data rs' = [Ok [7], Ok [8, 9]]"
proof -
  have "list_all2 (\<lambda>(a, pad) r. length (snd a) + length pad = length (rr_rbuf r))
      (zip [(0 :: u32, [7]), (0, [8, 9])] [[0, 0] :: bytes, []]) demo_read_requests"
    by (simp add: demo_read_requests_def read_request_new_def)
  moreover have "sum_list (map (\<lambda>r. 8 + length (rr_rbuf r)) demo_read_requests) < 2 ^ 32"
    "32 + length (concat (read_payload demo_read_requests)) < 2 ^ 32"
    by (simp_all add: demo_read_requests_def read_request_new_def read_payload_def)
  ultimately show ?thesis
    using read_multi_correct [of "[(0, [7]), (0, [8, 9])]" "[[0, 0], []]" demo_read_requests
        "demo_net ReadWrite (u32_le 0 @ sumup_read_reply 21 [(0, [7]), (0, [8, 9])] [[0, 0], []])" "()"
        demo_client demo_addr "demo_header ReadWrite" 21 "()"] demo_reply [of ReadWrite]
    by (simp add: demo_net_def answer_data_def)
qed

end
